theory Spec2Isabelle
  imports Main "HOL-Library.AList"
begin

unbundle bit_operations_syntax

section \<open>Errors\<close>

text \<open>
  The source raises the built-in \<^verbatim>\<open>Exception\<close> with a message, and otherwise lets the
  interpreter's own exceptions escape. Each constructor below stands for one of them; the
  first seven are named after the error taxonomy of the specification, and the comment
  gives the message the source raises.
\<close>

datatype error =
    FrozenViolation   \<comment> \<open>"You cannot manipulate a frozen object!"\<close>
  | InvalidHeader     \<comment> \<open>"Invalid ... config": a header or body line of the wrong length\<close>
  | MalformedAddress  \<comment> \<open>"Invalid bit config"\<close>
  | IncompleteSchema  \<comment> \<open>"Incomplete ... tile config"\<close>
  | TileTypeMismatch  \<comment> \<open>"Tile type mismatch between device and bitstream. ..."\<close>
  | UnknownSource     \<comment> \<open>"Invalid source net"\<close>
  | InvalidPattern    \<comment> \<open>"Invalid routing resource bit config"\<close>
  | IndexError        \<comment> \<open>a list or string index out of range (the specification's OutOfRange)\<close>
  | ValueError        \<comment> \<open>\<^verbatim>\<open>int()\<close> of a string that is no integer literal\<close>
  | KeyError          \<comment> \<open>a dictionary lookup of a missing key\<close>
  | AttributeError    \<comment> \<open>a method called on \<^verbatim>\<open>None\<close> or on a list\<close>

section \<open>Python primitives\<close>

text \<open>
  Strings are lists of 8-bit characters. A computation that may raise returns a sum, and
  \<open>bindE\<close> runs the next statement unless an exception is already on its way. List
  indexing follows the interpreter: an index \<open>i < 0\<close> counts from the end, and an index
  outside \<open>-n \<le> i < n\<close> raises IndexError.
\<close>

definition bindE :: "error + 'a \<Rightarrow> ('a \<Rightarrow> error + 'b) \<Rightarrow> error + 'b" where
  "bindE m f = (case m of Inl e \<Rightarrow> Inl e | Inr v \<Rightarrow> f v)"

definition py_index :: "nat \<Rightarrow> int \<Rightarrow> error + nat" where
  "py_index n i =
     (let j = (if i < 0 then i + int n else i)
      in if 0 \<le> j \<and> j < int n then Inr (nat j) else Inl IndexError)"

definition py_getitem :: "'a list \<Rightarrow> int \<Rightarrow> error + 'a" where
  "py_getitem xs i = bindE (py_index (length xs) i) (\<lambda>j. Inr (xs ! j))"

definition py_setitem :: "'a list \<Rightarrow> int \<Rightarrow> 'a \<Rightarrow> error + 'a list" where
  "py_setitem xs i v = bindE (py_index (length xs) i) (\<lambda>j. Inr (xs[j := v]))"

text \<open>
  \<^verbatim>\<open>int(s)\<close> and \<^verbatim>\<open>int(s, 2)\<close>: surrounding whitespace is stripped, a sign may
  follow, then (base 2 only) an optional prefix \<^verbatim>\<open>0b\<close>, then digits with single
  underscores allowed between them. \<open>None\<close> stands for ValueError.
\<close>

definition py_isspace :: "char \<Rightarrow> bool" where
  "py_isspace c \<longleftrightarrow>
     c \<in> set [CHR 0x09, CHR 0x0A, CHR 0x0B, CHR 0x0C, CHR 0x0D, CHR 0x1C, CHR 0x1D,
       CHR 0x1E, CHR 0x1F, CHR 0x20, CHR 0x85, CHR 0xA0]"

definition strip :: "string \<Rightarrow> string" where
  "strip s = rev (dropWhile py_isspace (rev (dropWhile py_isspace s)))"

definition digit_of :: "char \<Rightarrow> nat option" where
  "digit_of c =
     map_of [(CHR ''0'', 0), (CHR ''1'', 1), (CHR ''2'', 2), (CHR ''3'', 3), (CHR ''4'', 4),
       (CHR ''5'', 5), (CHR ''6'', 6), (CHR ''7'', 7), (CHR ''8'', 8), (CHR ''9'', 9)] c"

definition digit_in :: "nat \<Rightarrow> char \<Rightarrow> nat option" where
  "digit_in b c = (case digit_of c of Some v \<Rightarrow> if v < b then Some v else None | None \<Rightarrow> None)"

fun scan_digits :: "nat \<Rightarrow> nat \<Rightarrow> string \<Rightarrow> nat option" where
  "scan_digits b acc [] = Some acc"
| "scan_digits b acc [c] =
     (case digit_in b c of Some v \<Rightarrow> Some (acc * b + v) | None \<Rightarrow> None)"
| "scan_digits b acc (c # d # cs) =
     (if c = CHR ''_''
      then (case digit_in b d of Some v \<Rightarrow> scan_digits b (acc * b + v) cs | None \<Rightarrow> None)
      else (case digit_in b c of Some v \<Rightarrow> scan_digits b (acc * b + v) (d # cs) | None \<Rightarrow> None))"

definition py_magnitude :: "nat \<Rightarrow> string \<Rightarrow> nat option" where
  "py_magnitude b s =
     (let (prefixed, t) =
        (if b = 2 \<and> (take 2 s = ''0b'' \<or> take 2 s = ''0B'') then (True, drop 2 s)
         else (False, s))
      in if t = [] then None
         else if \<not> prefixed \<and> hd t = CHR ''_'' then None
         else scan_digits b 0 t)"

definition py_int_base :: "nat \<Rightarrow> string \<Rightarrow> int option" where
  "py_int_base b s =
     (case strip s of
        [] \<Rightarrow> None
      | c # cs \<Rightarrow>
          if c = CHR ''-'' then map_option (\<lambda>n. - int n) (py_magnitude b cs)
          else if c = CHR ''+'' then map_option int (py_magnitude b cs)
          else map_option int (py_magnitude b (c # cs)))"

definition py_int :: "string \<Rightarrow> error + int" where
  "py_int s = (case py_int_base 10 s of None \<Rightarrow> Inl ValueError | Some i \<Rightarrow> Inr i)"

definition py_int2 :: "string \<Rightarrow> error + int" where
  "py_int2 s = (case py_int_base 2 s of None \<Rightarrow> Inl ValueError | Some i \<Rightarrow> Inr i)"

text \<open>
  The regular expressions of the source. \<open>\d+\<close> is greedy and is always followed by a
  literal that is no digit (or by nothing), so it takes the whole run of digits.
  \<^verbatim>\<open>re.match(prefix + r"(\d+)", s)\<close> is \<open>match_num\<close>; \<^verbatim>\<open>re.search(r'\[(\d+)\]', s)\<close>
  and \<^verbatim>\<open>re.search(r'B(\d+)\[', s)\<close> are \<open>search_num\<close>, which returns the leftmost match.
  Each returns the value of \<^verbatim>\<open>int(group(1))\<close>.
\<close>

definition is_digit :: "char \<Rightarrow> bool" where
  "is_digit c \<longleftrightarrow> digit_of c \<noteq> None"

definition decimal :: "string \<Rightarrow> nat" where
  "decimal ds = foldl (\<lambda>acc c. acc * 10 + the (digit_of c)) 0 ds"

definition match_num :: "string \<Rightarrow> string \<Rightarrow> nat option" where
  "match_num pre s =
     (if take (length pre) s = pre \<and> takeWhile is_digit (drop (length pre) s) \<noteq> []
      then Some (decimal (takeWhile is_digit (drop (length pre) s)))
      else None)"

fun search_num :: "char \<Rightarrow> char \<Rightarrow> string \<Rightarrow> nat option" where
  "search_num l r [] = None"
| "search_num l r (c # cs) =
     (if c = l \<and> takeWhile is_digit cs \<noteq> [] \<and> take 1 (dropWhile is_digit cs) = [r]
      then Some (decimal (takeWhile is_digit cs))
      else search_num l r cs)"

section \<open>Routing resources\<close>

text \<open>
  A \<^verbatim>\<open>Net\<close> object is compared and hashed by identity, so a reference to one is its
  object number; \<^verbatim>\<open>None\<close> is \<open>None\<close>. The dictionary
  \<^verbatim>\<open>_src_net_to_bit_vals_dict\<close> is an association list in insertion order, which is the
  order in which \<^verbatim>\<open>items()\<close> yields its entries. A mutator returns the exception it
  raised, if any, together with the object as the call left it.
\<close>

type_synonym net_ref = "nat option"

type_synonym coord = "nat \<times> nat"

record RoutingResource =
  dst_net :: net_ref
  config_bit_coordinates :: "coord list"
  src_net_to_bit_vals_dict :: "(net_ref \<times> int) list"
  connection :: net_ref

definition connect :: "RoutingResource \<Rightarrow> net_ref \<Rightarrow> error option \<times> RoutingResource" where
  "connect rr src_net =
     (if src_net \<notin> set (map fst (src_net_to_bit_vals_dict rr))
      then (Some UnknownSource, rr)
      else (None, rr\<lparr>connection := src_net\<rparr>))"

definition disconnect :: "RoutingResource \<Rightarrow> RoutingResource" where
  "disconnect rr = rr\<lparr>connection := None\<rparr>"

definition get_config_bits :: "RoutingResource \<Rightarrow> error + int" where
  "get_config_bits rr =
     (case connection rr of
        None \<Rightarrow> Inr 0
      | Some n \<Rightarrow>
          (case map_of (src_net_to_bit_vals_dict rr) (Some n) of
             None \<Rightarrow> Inl KeyError
           | Some bit_vals \<Rightarrow> Inr bit_vals))"

definition set_config_bits :: "RoutingResource \<Rightarrow> int \<Rightarrow> error option \<times> RoutingResource" where
  "set_config_bits rr bit_config =
     (if bit_config = 0 then (None, rr\<lparr>connection := None\<rparr>)
      else
        (case find (\<lambda>(src_net, bit_vals). bit_vals = bit_config) (src_net_to_bit_vals_dict rr) of
           Some (src_net, bit_vals) \<Rightarrow> (None, rr\<lparr>connection := src_net\<rparr>)
         | None \<Rightarrow> (Some InvalidPattern, rr)))"

section \<open>Schemas, tiles, nets and the device\<close>

text \<open>
  A class is a record and a subclass extends its record. Where two classes use one
  attribute name, the later record prefixes it with its tile kind; the attributes of a
  schema that hold coordinates end in \<open>_bit\<close> or \<open>_bits\<close>, so that they differ from the
  tile attributes holding the values. The \<^verbatim>\<open>_frozen\<close> flag of \<^verbatim>\<open>_Freezable\<close> is
  \<open>frozen\<close> in the device, \<open>tile_frozen\<close> in a tile and \<open>net_frozen\<close> in a net.
\<close>

record TileBitConfig =
  width :: int
  height :: int

record LogicTileBitConfig = TileBitConfig +
  carry_in_set_bit :: coord
  col_buf_ctrl_set_bits :: "coord list"
  lc_set_bits :: "coord list list"
  neg_clk_set_bit :: coord

record IoTileBitConfig = TileBitConfig +
  io_col_buf_ctrl_set_bits :: "coord list"
  iob_0_pintype_bits :: "coord list"
  iob_1_pintype_bits :: "coord list"
  icegate_bit :: coord
  io_ctrl_ie_0_bit :: coord
  io_ctrl_ie_1_bit :: coord
  io_ctrl_lvds_bit :: coord
  io_ctrl_ren_0_bit :: coord
  io_ctrl_ren_1_bit :: coord
  io_negclk_bit :: coord
  pll_config_bits :: "coord list"

record RambTileBitConfig = TileBitConfig +
  ramb_col_buf_ctrl_set_bits :: "coord list"
  ramb_negclk_bit :: coord
  ram_config_powerup_bit :: coord

record RamtTileBitConfig = TileBitConfig +
  ramt_negclk_bit :: coord
  ram_config_bits :: "coord list"
  ram_cascade_bits :: "coord list"

text \<open>
  A tile and a net carry the number of their object (\<open>tile_obj\<close>, \<open>net_obj\<close>): a net's
  dictionary \<^verbatim>\<open>_wires\<close> is keyed by tile objects and a routing resource refers to net
  objects, both by identity. A \<^verbatim>\<open>Wire\<close> holds its name only, and the device keeps one
  per name, so a wire is its name.
\<close>

record Tile =
  tile_frozen :: bool
  tile_obj :: nat
  tile_x :: int
  tile_y :: int
  tile_wires :: "string list"
  routing_switches :: "RoutingResource list"
  buffers :: "RoutingResource list"

record LogicTile = Tile +
  logic_bit_config :: "LogicTileBitConfig option"
  carry_in_set :: int
  col_buf_ctrl :: int
  lc_bits :: "int list"
  neg_clk :: bool

record IoTile = Tile +
  io_bit_config :: "IoTileBitConfig option"
  io_col_buf_ctrl :: int
  iob_0_pintype :: int
  iob_1_pintype :: int
  icegate :: bool
  io_ctrl_ie_0 :: bool
  io_ctrl_ie_1 :: bool
  io_ctrl_lvds :: bool
  io_ctrl_ren_0 :: bool
  io_ctrl_ren_1 :: bool
  io_negclk :: bool
  pll_config :: int

record RambTile = Tile +
  ramb_tile_bit_config :: "RambTileBitConfig option"
  ramb_col_buf_ctrl :: int
  ramb_negclk :: bool
  ram_config_powerup :: bool

record RamtTile = Tile +
  ramt_tile_bit_config :: "RamtTileBitConfig option"
  ramt_negclk :: bool
  ram_config :: int
  ram_cascade :: int

datatype AnyTile = Logic LogicTile | Io IoTile | Ramb RambTile | Ramt RamtTile

record Net =
  net_frozen :: bool
  net_obj :: nat
  net_index :: int
  net_wires :: "(nat \<times> string) list"

record FileSection =
  section_type :: string
  header :: "string list"
  body :: "string list list"

record DeviceConfig =
  frozen :: bool
  device_type :: string
  tiles :: "AnyTile option list list"
  nets :: "Net option list"
  wires :: "string list"
  logic_tile_bit_config :: "LogicTileBitConfig option"
  io_tile_bit_config :: "IoTileBitConfig option"
  ramb_tile_bits_config :: "RambTileBitConfig option"
  ramt_tile_bits_config :: "RamtTileBitConfig option"
  next_obj :: nat

text \<open>\<^verbatim>\<open>DeviceConfig.__init__\<close>; \<^verbatim>\<open>range(n)\<close> is empty for \<open>n \<le> 0\<close>, as \<open>nat n\<close> is 0.\<close>

definition DeviceConfig_init :: "FileSection \<Rightarrow> error + DeviceConfig" where
  "DeviceConfig_init device_config_section =
     (if length (header device_config_section) \<noteq> 4 then Inl InvalidHeader
      else
        bindE (py_int (header device_config_section ! 1)) (\<lambda>w.
        bindE (py_int (header device_config_section ! 2)) (\<lambda>h.
        bindE (py_int (header device_config_section ! 3)) (\<lambda>num_nets.
          Inr \<lparr>frozen = False,
               device_type = header device_config_section ! 0,
               tiles = replicate (nat h) (replicate (nat w) None),
               nets = replicate (nat num_nets) None,
               wires = [],
               logic_tile_bit_config = None,
               io_tile_bit_config = None,
               ramb_tile_bits_config = None,
               ramt_tile_bits_config = None,
               next_obj = 0\<rparr>))))"

text \<open>\<^verbatim>\<open>_get_config_bit_coordinates\<close>: the column is searched first, then the row.\<close>

definition get_config_bit_coordinates :: "string \<Rightarrow> error + coord" where
  "get_config_bit_coordinates bit_config =
     (case search_num CHR ''['' CHR '']'' bit_config of
        None \<Rightarrow> Inl MalformedAddress
      | Some x \<Rightarrow>
          (case search_num CHR ''B'' CHR ''['' bit_config of
             None \<Rightarrow> Inl MalformedAddress
           | Some y \<Rightarrow> Inr (x, y)))"

fun coordinates_of :: "string list \<Rightarrow> error + coord list" where
  "coordinates_of [] = Inr []"
| "coordinates_of (x # xs) =
     bindE (get_config_bit_coordinates x) (\<lambda>c.
     bindE (coordinates_of xs) (\<lambda>cs. Inr (c # cs)))"

text \<open>\<^verbatim>\<open>self._get_config_bit_coordinates(line[1])\<close>: the index is taken first.\<close>

definition coordinate_at :: "string list \<Rightarrow> int \<Rightarrow> error + coord" where
  "coordinate_at line i = bindE (py_getitem line i) get_config_bit_coordinates"

subsection \<open>Schema ingestion\<close>

text \<open>
  The loop over the body lines of a section: \<open>step\<close> is the loop body, and the first
  exception ends the loop. The local variables of a schema method, with \<^verbatim>\<open>None\<close> for
  a slot not yet populated, are the loop's state.
\<close>

fun run_lines :: "('s \<Rightarrow> string list \<Rightarrow> error + 's) \<Rightarrow> 's \<Rightarrow> string list list \<Rightarrow> error + 's" where
  "run_lines step st [] = Inr st"
| "run_lines step st (line # rest) = bindE (step st line) (\<lambda>st'. run_lines step st' rest)"

record logic_slots =
  carry_in_set_slot :: "coord option"
  col_buf_ctrl_set_slots :: "coord option list"
  lc_set_slots :: "coord list option list"
  neg_clk_set_slot :: "coord option"

definition logic_slots_init :: logic_slots where
  "logic_slots_init =
     \<lparr>carry_in_set_slot = None, col_buf_ctrl_set_slots = replicate 8 None,
      lc_set_slots = replicate 8 None, neg_clk_set_slot = None\<rparr>"

definition logic_line :: "logic_slots \<Rightarrow> string list \<Rightarrow> error + logic_slots" where
  "logic_line st line =
     bindE (py_getitem line 0) (\<lambda>name.
       if name = ''CarryInSet''
       then bindE (coordinate_at line 1) (\<lambda>c. Inr (st\<lparr>carry_in_set_slot := Some c\<rparr>))
       else (case match_num ''ColBufCtrl.glb_netwk_'' name of
         Some global_netwk_num \<Rightarrow>
           bindE (coordinate_at line 1) (\<lambda>c.
           bindE (py_setitem (col_buf_ctrl_set_slots st) (int global_netwk_num) (Some c)) (\<lambda>l.
             Inr (st\<lparr>col_buf_ctrl_set_slots := l\<rparr>)))
       | None \<Rightarrow>
           (case match_num ''LC_'' name of
              Some lc_num \<Rightarrow>
                bindE (coordinates_of (drop 1 line)) (\<lambda>cs.
                bindE (py_setitem (lc_set_slots st) (int lc_num) (Some cs)) (\<lambda>l.
                  Inr (st\<lparr>lc_set_slots := l\<rparr>)))
            | None \<Rightarrow>
                if name = ''NegClk''
                then bindE (coordinate_at line 1) (\<lambda>c. Inr (st\<lparr>neg_clk_set_slot := Some c\<rparr>))
                else Inr st)))"

definition logic_incomplete :: "logic_slots \<Rightarrow> bool" where
  "logic_incomplete st \<longleftrightarrow>
     carry_in_set_slot st = None \<or> None \<in> set (col_buf_ctrl_set_slots st)
     \<or> None \<in> set (lc_set_slots st) \<or> neg_clk_set_slot st = None"

definition logic_config_of :: "int \<Rightarrow> int \<Rightarrow> logic_slots \<Rightarrow> LogicTileBitConfig" where
  "logic_config_of w h st =
     \<lparr>width = w, height = h,
      carry_in_set_bit = the (carry_in_set_slot st),
      col_buf_ctrl_set_bits = map the (col_buf_ctrl_set_slots st),
      lc_set_bits = map the (lc_set_slots st),
      neg_clk_set_bit = the (neg_clk_set_slot st)\<rparr>"

definition parse_logic_tile_bit_config :: "FileSection \<Rightarrow> error + LogicTileBitConfig" where
  "parse_logic_tile_bit_config sec =
     (if length (header sec) \<noteq> 2 then Inl InvalidHeader
      else
        bindE (py_int (header sec ! 0)) (\<lambda>w.
        bindE (py_int (header sec ! 1)) (\<lambda>h.
        bindE (run_lines logic_line logic_slots_init (body sec)) (\<lambda>st.
          if logic_incomplete st then Inl IncompleteSchema
          else Inr (logic_config_of w h st)))))"

definition process_logic_tile_bit_config ::
    "DeviceConfig \<Rightarrow> FileSection \<Rightarrow> error option \<times> DeviceConfig" where
  "process_logic_tile_bit_config d sec =
     (if frozen d then (Some FrozenViolation, d)
      else (case parse_logic_tile_bit_config sec of
              Inl e \<Rightarrow> (Some e, d)
            | Inr cfg \<Rightarrow> (None, d\<lparr>logic_tile_bit_config := Some cfg\<rparr>)))"

record io_slots =
  io_col_buf_ctrl_set_slots :: "coord option list"
  iob_0_pintype_slots :: "coord option list"
  iob_1_pintype_slots :: "coord option list"
  icegate_slot :: "coord option"
  io_ctrl_ie_0_slot :: "coord option"
  io_ctrl_ie_1_slot :: "coord option"
  io_ctrl_lvds_slot :: "coord option"
  io_ctrl_ren_0_slot :: "coord option"
  io_ctrl_ren_1_slot :: "coord option"
  io_negclk_slot :: "coord option"
  pll_config_slots :: "coord option list"

definition io_slots_init :: io_slots where
  "io_slots_init =
     \<lparr>io_col_buf_ctrl_set_slots = replicate 8 None, iob_0_pintype_slots = replicate 6 None,
      iob_1_pintype_slots = replicate 6 None, icegate_slot = None, io_ctrl_ie_0_slot = None,
      io_ctrl_ie_1_slot = None, io_ctrl_lvds_slot = None, io_ctrl_ren_0_slot = None,
      io_ctrl_ren_1_slot = None, io_negclk_slot = None, pll_config_slots = replicate 9 None\<rparr>"

definition io_line :: "io_slots \<Rightarrow> string list \<Rightarrow> error + io_slots" where
  "io_line st line =
     bindE (py_getitem line 0) (\<lambda>name.
       (case match_num ''ColBufCtrl.glb_netwk_'' name of
         Some global_netwk_num \<Rightarrow>
           bindE (coordinate_at line 1) (\<lambda>c.
           bindE (py_setitem (io_col_buf_ctrl_set_slots st) (int global_netwk_num) (Some c)) (\<lambda>l.
             Inr (st\<lparr>io_col_buf_ctrl_set_slots := l\<rparr>)))
       | None \<Rightarrow> (case match_num ''IOB_0.PINTYPE_'' name of
         Some pintype_num \<Rightarrow>
           bindE (coordinate_at line 1) (\<lambda>c.
           bindE (py_setitem (iob_0_pintype_slots st) (int pintype_num) (Some c)) (\<lambda>l.
             Inr (st\<lparr>iob_0_pintype_slots := l\<rparr>)))
       | None \<Rightarrow> (case match_num ''IOB_1.PINTYPE_'' name of
         Some pintype_num \<Rightarrow>
           bindE (coordinate_at line 1) (\<lambda>c.
           bindE (py_setitem (iob_1_pintype_slots st) (int pintype_num) (Some c)) (\<lambda>l.
             Inr (st\<lparr>iob_1_pintype_slots := l\<rparr>)))
       | None \<Rightarrow> if name = ''Icegate''
       then bindE (coordinate_at line 1) (\<lambda>c. Inr (st\<lparr>icegate_slot := Some c\<rparr>))
       else if name = ''IoCtrl.IE_0''
       then bindE (coordinate_at line 1) (\<lambda>c. Inr (st\<lparr>io_ctrl_ie_0_slot := Some c\<rparr>))
       else if name = ''IoCtrl.IE_1''
       then bindE (coordinate_at line 1) (\<lambda>c. Inr (st\<lparr>io_ctrl_ie_1_slot := Some c\<rparr>))
       else if name = ''IoCtrl.LVDS''
       then bindE (coordinate_at line 1) (\<lambda>c. Inr (st\<lparr>io_ctrl_lvds_slot := Some c\<rparr>))
       else if name = ''IoCtrl.REN_0''
       then bindE (coordinate_at line 1) (\<lambda>c. Inr (st\<lparr>io_ctrl_ren_0_slot := Some c\<rparr>))
       else if name = ''IoCtrl.REN_1''
       then bindE (coordinate_at line 1) (\<lambda>c. Inr (st\<lparr>io_ctrl_ren_1_slot := Some c\<rparr>))
       else if name = ''NegClk''
       then bindE (coordinate_at line 1) (\<lambda>c. Inr (st\<lparr>io_negclk_slot := Some c\<rparr>))
       else (case match_num ''PLL.PLLCONFIG_'' name of
         Some pll_num \<Rightarrow>
           bindE (coordinate_at line 1) (\<lambda>c.
           bindE (py_setitem (pll_config_slots st) (int pll_num - 1) (Some c)) (\<lambda>l.
             Inr (st\<lparr>pll_config_slots := l\<rparr>)))
       | None \<Rightarrow> Inr st)))))"

definition io_incomplete :: "io_slots \<Rightarrow> bool" where
  "io_incomplete st \<longleftrightarrow>
     None \<in> set (io_col_buf_ctrl_set_slots st) \<or> None \<in> set (iob_0_pintype_slots st)
     \<or> None \<in> set (iob_1_pintype_slots st) \<or> icegate_slot st = None
     \<or> io_ctrl_ie_0_slot st = None \<or> io_ctrl_ie_1_slot st = None
     \<or> io_ctrl_lvds_slot st = None \<or> io_ctrl_ren_0_slot st = None
     \<or> io_ctrl_ren_1_slot st = None \<or> io_negclk_slot st = None
     \<or> None \<in> set (pll_config_slots st)"

definition io_config_of :: "int \<Rightarrow> int \<Rightarrow> io_slots \<Rightarrow> IoTileBitConfig" where
  "io_config_of w h st =
     \<lparr>width = w, height = h,
      io_col_buf_ctrl_set_bits = map the (io_col_buf_ctrl_set_slots st),
      iob_0_pintype_bits = map the (iob_0_pintype_slots st),
      iob_1_pintype_bits = map the (iob_1_pintype_slots st),
      icegate_bit = the (icegate_slot st),
      io_ctrl_ie_0_bit = the (io_ctrl_ie_0_slot st),
      io_ctrl_ie_1_bit = the (io_ctrl_ie_1_slot st),
      io_ctrl_lvds_bit = the (io_ctrl_lvds_slot st),
      io_ctrl_ren_0_bit = the (io_ctrl_ren_0_slot st),
      io_ctrl_ren_1_bit = the (io_ctrl_ren_1_slot st),
      io_negclk_bit = the (io_negclk_slot st),
      pll_config_bits = map the (pll_config_slots st)\<rparr>"

definition parse_io_tile_bit_config :: "FileSection \<Rightarrow> error + IoTileBitConfig" where
  "parse_io_tile_bit_config sec =
     (if length (header sec) \<noteq> 2 then Inl InvalidHeader
      else
        bindE (py_int (header sec ! 0)) (\<lambda>w.
        bindE (py_int (header sec ! 1)) (\<lambda>h.
        bindE (run_lines io_line io_slots_init (body sec)) (\<lambda>st.
          if io_incomplete st then Inl IncompleteSchema
          else Inr (io_config_of w h st)))))"

definition process_io_tile_bit_config ::
    "DeviceConfig \<Rightarrow> FileSection \<Rightarrow> error option \<times> DeviceConfig" where
  "process_io_tile_bit_config d sec =
     (if frozen d then (Some FrozenViolation, d)
      else (case parse_io_tile_bit_config sec of
              Inl e \<Rightarrow> (Some e, d)
            | Inr cfg \<Rightarrow> (None, d\<lparr>io_tile_bit_config := Some cfg\<rparr>)))"

record ramb_slots =
  ramb_col_buf_ctrl_set_slots :: "coord option list"
  ramb_negclk_slot :: "coord option"
  ram_config_powerup_slot :: "coord option"

definition ramb_slots_init :: ramb_slots where
  "ramb_slots_init =
     \<lparr>ramb_col_buf_ctrl_set_slots = replicate 8 None, ramb_negclk_slot = None,
      ram_config_powerup_slot = None\<rparr>"

definition ramb_line :: "ramb_slots \<Rightarrow> string list \<Rightarrow> error + ramb_slots" where
  "ramb_line st line =
     bindE (py_getitem line 0) (\<lambda>name.
       (case match_num ''ColBufCtrl.glb_netwk_'' name of
         Some global_netwk_num \<Rightarrow>
           bindE (coordinate_at line 1) (\<lambda>c.
           bindE (py_setitem (ramb_col_buf_ctrl_set_slots st) (int global_netwk_num) (Some c)) (\<lambda>l.
             Inr (st\<lparr>ramb_col_buf_ctrl_set_slots := l\<rparr>)))
       | None \<Rightarrow> if name = ''NegClk''
       then bindE (coordinate_at line 1) (\<lambda>c. Inr (st\<lparr>ramb_negclk_slot := Some c\<rparr>))
       else if name = ''RamConfig.PowerUp''
       then bindE (coordinate_at line 1) (\<lambda>c. Inr (st\<lparr>ram_config_powerup_slot := Some c\<rparr>))
       else Inr st))"

definition ramb_incomplete :: "ramb_slots \<Rightarrow> bool" where
  "ramb_incomplete st \<longleftrightarrow>
     None \<in> set (ramb_col_buf_ctrl_set_slots st) \<or> ramb_negclk_slot st = None
     \<or> ram_config_powerup_slot st = None"

definition ramb_config_of :: "int \<Rightarrow> int \<Rightarrow> ramb_slots \<Rightarrow> RambTileBitConfig" where
  "ramb_config_of w h st =
     \<lparr>width = w, height = h,
      ramb_col_buf_ctrl_set_bits = map the (ramb_col_buf_ctrl_set_slots st),
      ramb_negclk_bit = the (ramb_negclk_slot st),
      ram_config_powerup_bit = the (ram_config_powerup_slot st)\<rparr>"

definition parse_ramb_tile_bit_config :: "FileSection \<Rightarrow> error + RambTileBitConfig" where
  "parse_ramb_tile_bit_config sec =
     (if length (header sec) \<noteq> 2 then Inl InvalidHeader
      else
        bindE (py_int (header sec ! 0)) (\<lambda>w.
        bindE (py_int (header sec ! 1)) (\<lambda>h.
        bindE (run_lines ramb_line ramb_slots_init (body sec)) (\<lambda>st.
          if ramb_incomplete st then Inl IncompleteSchema
          else Inr (ramb_config_of w h st)))))"

definition process_ramb_tile_bit_config ::
    "DeviceConfig \<Rightarrow> FileSection \<Rightarrow> error option \<times> DeviceConfig" where
  "process_ramb_tile_bit_config d sec =
     (if frozen d then (Some FrozenViolation, d)
      else (case parse_ramb_tile_bit_config sec of
              Inl e \<Rightarrow> (Some e, d)
            | Inr cfg \<Rightarrow> (None, d\<lparr>ramb_tile_bits_config := Some cfg\<rparr>)))"

record ramt_slots =
  ramt_negclk_slot :: "coord option"
  ram_config_slots :: "coord option list"
  ram_cascade_slots :: "coord option list"

definition ramt_slots_init :: ramt_slots where
  "ramt_slots_init =
     \<lparr>ramt_negclk_slot = None, ram_config_slots = replicate 4 None,
      ram_cascade_slots = replicate 4 None\<rparr>"

text \<open>The cascade bits are numbered from \<^verbatim>\<open>ram_cascade_bit_offset = 4\<close>.\<close>

definition ramt_line :: "ramt_slots \<Rightarrow> string list \<Rightarrow> error + ramt_slots" where
  "ramt_line st line =
     bindE (py_getitem line 0) (\<lambda>name.
       if name = ''NegClk''
       then bindE (coordinate_at line 1) (\<lambda>c. Inr (st\<lparr>ramt_negclk_slot := Some c\<rparr>))
       else (case match_num ''RamCascade.CBIT_'' name of
         Some ram_num \<Rightarrow>
           bindE (coordinate_at line 1) (\<lambda>c.
           bindE (py_setitem (ram_cascade_slots st) (int ram_num - 4) (Some c)) (\<lambda>l.
             Inr (st\<lparr>ram_cascade_slots := l\<rparr>)))
       | None \<Rightarrow> (case match_num ''RamConfig.CBIT_'' name of
         Some ram_num \<Rightarrow>
           bindE (coordinate_at line 1) (\<lambda>c.
           bindE (py_setitem (ram_config_slots st) (int ram_num) (Some c)) (\<lambda>l.
             Inr (st\<lparr>ram_config_slots := l\<rparr>)))
       | None \<Rightarrow> Inr st)))"

definition ramt_incomplete :: "ramt_slots \<Rightarrow> bool" where
  "ramt_incomplete st \<longleftrightarrow>
     ramt_negclk_slot st = None \<or> None \<in> set (ram_config_slots st)
     \<or> None \<in> set (ram_cascade_slots st)"

definition ramt_config_of :: "int \<Rightarrow> int \<Rightarrow> ramt_slots \<Rightarrow> RamtTileBitConfig" where
  "ramt_config_of w h st =
     \<lparr>width = w, height = h,
      ramt_negclk_bit = the (ramt_negclk_slot st),
      ram_config_bits = map the (ram_config_slots st),
      ram_cascade_bits = map the (ram_cascade_slots st)\<rparr>"

definition parse_ramt_tile_bit_config :: "FileSection \<Rightarrow> error + RamtTileBitConfig" where
  "parse_ramt_tile_bit_config sec =
     (if length (header sec) \<noteq> 2 then Inl InvalidHeader
      else
        bindE (py_int (header sec ! 0)) (\<lambda>w.
        bindE (py_int (header sec ! 1)) (\<lambda>h.
        bindE (run_lines ramt_line ramt_slots_init (body sec)) (\<lambda>st.
          if ramt_incomplete st then Inl IncompleteSchema
          else Inr (ramt_config_of w h st)))))"

definition process_ramt_tile_bit_config ::
    "DeviceConfig \<Rightarrow> FileSection \<Rightarrow> error option \<times> DeviceConfig" where
  "process_ramt_tile_bit_config d sec =
     (if frozen d then (Some FrozenViolation, d)
      else (case parse_ramt_tile_bit_config sec of
              Inl e \<Rightarrow> (Some e, d)
            | Inr cfg \<Rightarrow> (None, d\<lparr>ramt_tile_bits_config := Some cfg\<rparr>)))"

subsection \<open>Tiles\<close>

text \<open>The constructors; \<open>obj\<close> is the number of the new object.\<close>

definition LogicTile_init :: "nat \<Rightarrow> int \<Rightarrow> int \<Rightarrow> LogicTileBitConfig option \<Rightarrow> LogicTile" where
  "LogicTile_init obj x y cfg =
     \<lparr>tile_frozen = False, tile_obj = obj, tile_x = x, tile_y = y, tile_wires = [],
      routing_switches = [], buffers = [],
      logic_bit_config = cfg, carry_in_set = 0, col_buf_ctrl = 0,
      lc_bits = replicate 8 0, neg_clk = False\<rparr>"

definition IoTile_init :: "nat \<Rightarrow> int \<Rightarrow> int \<Rightarrow> IoTileBitConfig option \<Rightarrow> IoTile" where
  "IoTile_init obj x y cfg =
     \<lparr>tile_frozen = False, tile_obj = obj, tile_x = x, tile_y = y, tile_wires = [],
      routing_switches = [], buffers = [],
      io_bit_config = cfg, io_col_buf_ctrl = 0, iob_0_pintype = 0, iob_1_pintype = 0,
      icegate = False, io_ctrl_ie_0 = False, io_ctrl_ie_1 = False, io_ctrl_lvds = False,
      io_ctrl_ren_0 = False, io_ctrl_ren_1 = False, io_negclk = False, pll_config = 0\<rparr>"

definition RambTile_init :: "nat \<Rightarrow> int \<Rightarrow> int \<Rightarrow> RambTileBitConfig option \<Rightarrow> RambTile" where
  "RambTile_init obj x y cfg =
     \<lparr>tile_frozen = False, tile_obj = obj, tile_x = x, tile_y = y, tile_wires = [],
      routing_switches = [], buffers = [],
      ramb_tile_bit_config = cfg, ramb_col_buf_ctrl = 0, ramb_negclk = False,
      ram_config_powerup = False\<rparr>"

definition RamtTile_init :: "nat \<Rightarrow> int \<Rightarrow> int \<Rightarrow> RamtTileBitConfig option \<Rightarrow> RamtTile" where
  "RamtTile_init obj x y cfg =
     \<lparr>tile_frozen = False, tile_obj = obj, tile_x = x, tile_y = y, tile_wires = [],
      routing_switches = [], buffers = [],
      ramt_tile_bit_config = cfg, ramt_negclk = False, ram_config = 0, ram_cascade = 0\<rparr>"

text \<open>The methods of the base class \<^verbatim>\<open>Tile\<close>, for a tile of any kind.\<close>

definition add_wire :: "'a Tile_scheme \<Rightarrow> string \<Rightarrow> error + 'a Tile_scheme" where
  "add_wire t wire =
     (if tile_frozen t then Inl FrozenViolation
      else Inr (t\<lparr>tile_wires := tile_wires t @ [wire]\<rparr>))"

definition add_routing_switch :: "'a Tile_scheme \<Rightarrow> RoutingResource \<Rightarrow> error + 'a Tile_scheme" where
  "add_routing_switch t routing_switch =
     (if tile_frozen t then Inl FrozenViolation
      else Inr (t\<lparr>routing_switches := routing_switches t @ [routing_switch]\<rparr>))"

definition add_buffer :: "'a Tile_scheme \<Rightarrow> RoutingResource \<Rightarrow> error + 'a Tile_scheme" where
  "add_buffer t buffer =
     (if tile_frozen t then Inl FrozenViolation
      else Inr (t\<lparr>buffers := buffers t @ [buffer]\<rparr>))"

definition Tile_freeze :: "'a Tile_scheme \<Rightarrow> 'a Tile_scheme" where
  "Tile_freeze t = t\<lparr>tile_frozen := True\<rparr>"

definition reset_routing_resources :: "'a Tile_scheme \<Rightarrow> 'a Tile_scheme" where
  "reset_routing_resources t =
     t\<lparr>routing_switches := map disconnect (routing_switches t),
       buffers := map disconnect (buffers t)\<rparr>"

definition LogicTile_reset :: "LogicTile \<Rightarrow> LogicTile" where
  "LogicTile_reset t =
     (reset_routing_resources t)
       \<lparr>carry_in_set := 0, col_buf_ctrl := 0, lc_bits := replicate 8 0, neg_clk := False\<rparr>"

definition IoTile_reset :: "IoTile \<Rightarrow> IoTile" where
  "IoTile_reset t =
     (reset_routing_resources t)
       \<lparr>io_col_buf_ctrl := 0, iob_0_pintype := 0, iob_1_pintype := 0, icegate := False,
        io_ctrl_ie_0 := False, io_ctrl_ie_1 := False, io_ctrl_lvds := False,
        io_ctrl_ren_0 := False, io_ctrl_ren_1 := False, io_negclk := False,
        pll_config := 0\<rparr>"

definition RambTile_reset :: "RambTile \<Rightarrow> RambTile" where
  "RambTile_reset t =
     (reset_routing_resources t)
       \<lparr>ramb_col_buf_ctrl := 0, ramb_negclk := False, ram_config_powerup := False\<rparr>"

definition RamtTile_reset :: "RamtTile \<Rightarrow> RamtTile" where
  "RamtTile_reset t =
     (reset_routing_resources t)\<lparr>ramt_negclk := False, ram_config := 0, ram_cascade := 0\<rparr>"

text \<open>Dynamic dispatch on the object found in a grid cell.\<close>

fun any_obj :: "AnyTile \<Rightarrow> nat" where
  "any_obj (Logic t) = tile_obj t"
| "any_obj (Io t) = tile_obj t"
| "any_obj (Ramb t) = tile_obj t"
| "any_obj (Ramt t) = tile_obj t"

fun any_freeze :: "AnyTile \<Rightarrow> AnyTile" where
  "any_freeze (Logic t) = Logic (Tile_freeze t)"
| "any_freeze (Io t) = Io (Tile_freeze t)"
| "any_freeze (Ramb t) = Ramb (Tile_freeze t)"
| "any_freeze (Ramt t) = Ramt (Tile_freeze t)"

fun any_add_wire :: "AnyTile \<Rightarrow> string \<Rightarrow> error + AnyTile" where
  "any_add_wire (Logic t) w = bindE (add_wire t w) (\<lambda>t'. Inr (Logic t'))"
| "any_add_wire (Io t) w = bindE (add_wire t w) (\<lambda>t'. Inr (Io t'))"
| "any_add_wire (Ramb t) w = bindE (add_wire t w) (\<lambda>t'. Inr (Ramb t'))"
| "any_add_wire (Ramt t) w = bindE (add_wire t w) (\<lambda>t'. Inr (Ramt t'))"

fun any_add_routing_switch :: "AnyTile \<Rightarrow> RoutingResource \<Rightarrow> error + AnyTile" where
  "any_add_routing_switch (Logic t) r = bindE (add_routing_switch t r) (\<lambda>t'. Inr (Logic t'))"
| "any_add_routing_switch (Io t) r = bindE (add_routing_switch t r) (\<lambda>t'. Inr (Io t'))"
| "any_add_routing_switch (Ramb t) r = bindE (add_routing_switch t r) (\<lambda>t'. Inr (Ramb t'))"
| "any_add_routing_switch (Ramt t) r = bindE (add_routing_switch t r) (\<lambda>t'. Inr (Ramt t'))"

fun any_add_buffer :: "AnyTile \<Rightarrow> RoutingResource \<Rightarrow> error + AnyTile" where
  "any_add_buffer (Logic t) r = bindE (add_buffer t r) (\<lambda>t'. Inr (Logic t'))"
| "any_add_buffer (Io t) r = bindE (add_buffer t r) (\<lambda>t'. Inr (Io t'))"
| "any_add_buffer (Ramb t) r = bindE (add_buffer t r) (\<lambda>t'. Inr (Ramb t'))"
| "any_add_buffer (Ramt t) r = bindE (add_buffer t r) (\<lambda>t'. Inr (Ramt t'))"

subsection \<open>Tile placement\<close>

text \<open>
  \<^verbatim>\<open>self._tiles[y][x]\<close> read and written. The row is looked up first, then the column;
  each index follows the interpreter's rule for a negative index.
\<close>

definition get_tile :: "AnyTile option list list \<Rightarrow> int \<Rightarrow> int \<Rightarrow> error + AnyTile option" where
  "get_tile g x y = bindE (py_getitem g y) (\<lambda>row. py_getitem row x)"

definition put_tile ::
    "AnyTile option list list \<Rightarrow> int \<Rightarrow> int \<Rightarrow> AnyTile option \<Rightarrow> error + AnyTile option list list" where
  "put_tile g x y v =
     bindE (py_getitem g y) (\<lambda>row.
     bindE (py_setitem row x v) (\<lambda>row'. py_setitem g y row'))"

text \<open>
  \<^verbatim>\<open>self._tiles[y][x] = T(x, y, cfg)\<close>: the right-hand side is evaluated first, so the
  tile object exists (and the object counter has advanced) also when the assignment
  raises IndexError.
\<close>

definition place :: "DeviceConfig \<Rightarrow> int \<Rightarrow> int \<Rightarrow> AnyTile \<Rightarrow> error option \<times> DeviceConfig" where
  "place d x y t =
     (case put_tile (tiles d) x y (Some t) of
        Inl e \<Rightarrow> (Some e, d\<lparr>next_obj := Suc (next_obj d)\<rparr>)
      | Inr g \<Rightarrow> (None, d\<lparr>next_obj := Suc (next_obj d), tiles := g\<rparr>))"

definition process_logic_tile :: "DeviceConfig \<Rightarrow> FileSection \<Rightarrow> error option \<times> DeviceConfig" where
  "process_logic_tile d sec =
     (if frozen d then (Some FrozenViolation, d)
      else if length (header sec) \<noteq> 2 then (Some InvalidHeader, d)
      else (case py_int (header sec ! 0) of
              Inl e \<Rightarrow> (Some e, d)
            | Inr x \<Rightarrow>
                (case py_int (header sec ! 1) of
                   Inl e \<Rightarrow> (Some e, d)
                 | Inr y \<Rightarrow> place d x y (Logic (LogicTile_init (next_obj d) x y (logic_tile_bit_config d))))))"

definition process_io_tile :: "DeviceConfig \<Rightarrow> FileSection \<Rightarrow> error option \<times> DeviceConfig" where
  "process_io_tile d sec =
     (if frozen d then (Some FrozenViolation, d)
      else if length (header sec) \<noteq> 2 then (Some InvalidHeader, d)
      else (case py_int (header sec ! 0) of
              Inl e \<Rightarrow> (Some e, d)
            | Inr x \<Rightarrow>
                (case py_int (header sec ! 1) of
                   Inl e \<Rightarrow> (Some e, d)
                 | Inr y \<Rightarrow> place d x y (Io (IoTile_init (next_obj d) x y (io_tile_bit_config d))))))"

definition process_ramb_tile :: "DeviceConfig \<Rightarrow> FileSection \<Rightarrow> error option \<times> DeviceConfig" where
  "process_ramb_tile d sec =
     (if frozen d then (Some FrozenViolation, d)
      else if length (header sec) \<noteq> 2 then (Some InvalidHeader, d)
      else (case py_int (header sec ! 0) of
              Inl e \<Rightarrow> (Some e, d)
            | Inr x \<Rightarrow>
                (case py_int (header sec ! 1) of
                   Inl e \<Rightarrow> (Some e, d)
                 | Inr y \<Rightarrow> place d x y (Ramb (RambTile_init (next_obj d) x y (ramb_tile_bits_config d))))))"

definition process_ramt_tile :: "DeviceConfig \<Rightarrow> FileSection \<Rightarrow> error option \<times> DeviceConfig" where
  "process_ramt_tile d sec =
     (if frozen d then (Some FrozenViolation, d)
      else if length (header sec) \<noteq> 2 then (Some InvalidHeader, d)
      else (case py_int (header sec ! 0) of
              Inl e \<Rightarrow> (Some e, d)
            | Inr x \<Rightarrow>
                (case py_int (header sec ! 1) of
                   Inl e \<Rightarrow> (Some e, d)
                 | Inr y \<Rightarrow> place d x y (Ramt (RamtTile_init (next_obj d) x y (ramt_tile_bits_config d))))))"

subsection \<open>Nets\<close>

definition Net_init :: "nat \<Rightarrow> int \<Rightarrow> Net" where
  "Net_init obj idx = \<lparr>net_frozen = False, net_obj = obj, net_index = idx, net_wires = []\<rparr>"

definition Net_add_wire :: "Net \<Rightarrow> nat \<Rightarrow> string \<Rightarrow> error + Net" where
  "Net_add_wire net tile wire =
     (if net_frozen net then Inl FrozenViolation
      else Inr (net\<lparr>net_wires := AList.update tile wire (net_wires net)\<rparr>))"

definition Net_freeze :: "Net \<Rightarrow> Net" where
  "Net_freeze net = net\<lparr>net_frozen := True\<rparr>"

text \<open>\<^verbatim>\<open>if name not in self._wires: self._wires[name] = Wire(name)\<close>\<close>

definition intern_wire :: "DeviceConfig \<Rightarrow> string \<Rightarrow> DeviceConfig" where
  "intern_wire d name = (if name \<in> set (wires d) then d else d\<lparr>wires := wires d @ [name]\<rparr>)"

text \<open>
  The body of the loop of \<^verbatim>\<open>process_net\<close>, and the loop. A line changes the wire table,
  then the tile, then the net, so the device and the net are returned as the last
  completed statement left them.
\<close>

definition net_alias ::
    "DeviceConfig \<Rightarrow> Net \<Rightarrow> string list \<Rightarrow> error option \<times> DeviceConfig \<times> Net" where
  "net_alias d net alias_config =
     (if length alias_config \<noteq> 3 then (Some InvalidHeader, d, net)
      else (case bindE (py_int (alias_config ! 0)) (\<lambda>x.
                 bindE (py_int (alias_config ! 1)) (\<lambda>y. Inr (x, y))) of
        Inl e \<Rightarrow> (Some e, d, net)
      | Inr (x, y) \<Rightarrow>
          (let name = alias_config ! 2; d1 = intern_wire d name
           in case bindE (get_tile (tiles d1) x y) (\<lambda>cell.
                     case cell of
                       None \<Rightarrow> Inl AttributeError
                     | Some t \<Rightarrow>
                         bindE (any_add_wire t name) (\<lambda>t'.
                         bindE (put_tile (tiles d1) x y (Some t')) (\<lambda>g. Inr (t', g)))) of
                Inl e \<Rightarrow> (Some e, d1, net)
              | Inr (t', g) \<Rightarrow>
                  (case Net_add_wire net (any_obj t') name of
                     Inl e \<Rightarrow> (Some e, d1\<lparr>tiles := g\<rparr>, net)
                   | Inr net' \<Rightarrow> (None, d1\<lparr>tiles := g\<rparr>, net')))))"

fun net_aliases ::
    "DeviceConfig \<Rightarrow> Net \<Rightarrow> string list list \<Rightarrow> error option \<times> DeviceConfig \<times> Net" where
  "net_aliases d net [] = (None, d, net)"
| "net_aliases d net (alias_config # rest) =
     (case net_alias d net alias_config of
        (Some e, d1, net1) \<Rightarrow> (Some e, d1, net1)
      | (None, d1, net1) \<Rightarrow> net_aliases d1 net1 rest)"

definition process_net :: "DeviceConfig \<Rightarrow> FileSection \<Rightarrow> error option \<times> DeviceConfig" where
  "process_net d sec =
     (if frozen d then (Some FrozenViolation, d)
      else (case bindE (py_getitem (header sec) 0) py_int of
        Inl e \<Rightarrow> (Some e, d)
      | Inr idx \<Rightarrow>
          (case net_aliases (d\<lparr>next_obj := Suc (next_obj d)\<rparr>)
                  (Net_init (next_obj d) idx) (body sec) of
             (Some e, d1, net) \<Rightarrow> (Some e, d1)
           | (None, d1, net) \<Rightarrow>
               (case py_setitem (nets d1) idx (Some net) of
                  Inl e \<Rightarrow> (Some e, d1)
                | Inr ns \<Rightarrow> (None, d1\<lparr>nets := ns\<rparr>)))))"

subsection \<open>Routing switches and buffers\<close>

text \<open>
  The loop building \<^verbatim>\<open>src_net_to_bit_vals_dict\<close>. Assigning to a key already present
  replaces its value and keeps its place, as \<open>AList.update\<close> does.
\<close>

fun routing_entries ::
    "Net option list \<Rightarrow> (net_ref \<times> int) list \<Rightarrow> string list list \<Rightarrow> error + (net_ref \<times> int) list" where
  "routing_entries ns dict [] = Inr dict"
| "routing_entries ns dict (line # rest) =
     bindE (py_getitem line 0) (\<lambda>tok0.
     bindE (py_int2 tok0) (\<lambda>config_bit_values.
     bindE (py_getitem line 1) (\<lambda>tok1.
     bindE (py_int tok1) (\<lambda>src_net_idx.
     bindE (py_getitem ns src_net_idx) (\<lambda>src_net.
       routing_entries ns (AList.update (map_option net_obj src_net) config_bit_values dict)
         rest)))))"

definition parse_routing_resource ::
    "DeviceConfig \<Rightarrow> FileSection \<Rightarrow> error + (int \<times> int \<times> RoutingResource)" where
  "parse_routing_resource d sec =
     (if length (header sec) < 4 then Inl InvalidHeader
      else
        bindE (py_int (header sec ! 0)) (\<lambda>x.
        bindE (py_int (header sec ! 1)) (\<lambda>y.
        bindE (py_int (header sec ! 2)) (\<lambda>dst_net_idx.
        bindE (coordinates_of (drop 3 (header sec))) (\<lambda>cs.
        bindE (routing_entries (nets d) [] (body sec)) (\<lambda>dict.
        bindE (py_getitem (nets d) dst_net_idx) (\<lambda>dst.
          Inr (x, y,
               \<lparr>dst_net = map_option net_obj dst,
                config_bit_coordinates = rev cs,
                src_net_to_bit_vals_dict = dict,
                connection = None\<rparr>))))))))"

definition process_routing_switch ::
    "DeviceConfig \<Rightarrow> FileSection \<Rightarrow> error option \<times> DeviceConfig" where
  "process_routing_switch d sec =
     (if frozen d then (Some FrozenViolation, d)
      else (case bindE (parse_routing_resource d sec) (\<lambda>(x, y, routing_switch).
                  bindE (get_tile (tiles d) x y) (\<lambda>cell.
                    case cell of
                      None \<Rightarrow> Inl AttributeError
                    | Some t \<Rightarrow>
                        bindE (any_add_routing_switch t routing_switch) (\<lambda>t'.
                          put_tile (tiles d) x y (Some t')))) of
              Inl e \<Rightarrow> (Some e, d)
            | Inr g \<Rightarrow> (None, d\<lparr>tiles := g\<rparr>)))"

definition process_buffer ::
    "DeviceConfig \<Rightarrow> FileSection \<Rightarrow> error option \<times> DeviceConfig" where
  "process_buffer d sec =
     (if frozen d then (Some FrozenViolation, d)
      else (case bindE (parse_routing_resource d sec) (\<lambda>(x, y, buffer).
                  bindE (get_tile (tiles d) x y) (\<lambda>cell.
                    case cell of
                      None \<Rightarrow> Inl AttributeError
                    | Some t \<Rightarrow>
                        bindE (any_add_buffer t buffer) (\<lambda>t'.
                          put_tile (tiles d) x y (Some t')))) of
              Inl e \<Rightarrow> (Some e, d)
            | Inr g \<Rightarrow> (None, d\<lparr>tiles := g\<rparr>)))"

subsection \<open>Freeze and reset\<close>

text \<open>
  \<^verbatim>\<open>DeviceConfig.freeze\<close> sets the device's flag, freezes every tile present, then
  calls \<^verbatim>\<open>net.freeze()\<close> on each entry of the net array in turn; on an entry
  \<^verbatim>\<open>None\<close> that call raises AttributeError, and the nets after it stay as they were.
\<close>

fun freeze_nets :: "Net option list \<Rightarrow> error option \<times> Net option list" where
  "freeze_nets [] = (None, [])"
| "freeze_nets (None # ns) = (Some AttributeError, None # ns)"
| "freeze_nets (Some net # ns) =
     (case freeze_nets ns of (e, ns') \<Rightarrow> (e, Some (Net_freeze net) # ns'))"

definition freeze :: "DeviceConfig \<Rightarrow> error option \<times> DeviceConfig" where
  "freeze d =
     (case freeze_nets (nets d) of
        (e, ns) \<Rightarrow>
          (e, d\<lparr>frozen := True,
                tiles := map (map (map_option any_freeze)) (tiles d),
                nets := ns\<rparr>))"

text \<open>
  \<^verbatim>\<open>DeviceConfig.reset\<close> runs \<^verbatim>\<open>for tile in self._tiles: tile.reset()\<close>. The elements
  of \<^verbatim>\<open>self._tiles\<close> are the rows of the grid, which are lists, and a list has no
  method \<^verbatim>\<open>reset\<close>: the first iteration raises AttributeError. Only a grid of height 0
  leaves the loop without an iteration.
\<close>

definition reset :: "DeviceConfig \<Rightarrow> error option \<times> DeviceConfig" where
  "reset d = (case tiles d of [] \<Rightarrow> (None, d) | row # rows \<Rightarrow> (Some AttributeError, d))"

section \<open>Encoding and decoding a tile\<close>

subsection \<open>The bitstream builder\<close>

text \<open>
  \<^verbatim>\<open>_BitstreamBuilder\<close> holds \<^verbatim>\<open>height\<close> rows of \<^verbatim>\<open>width\<close> bits, each row a list
  of its own. \<^verbatim>\<open>set_bit\<close> stores \<^verbatim>\<open>int(bool(value))\<close>; a Boolean attribute is passed
  as \<open>of_bool\<close>, since \<^verbatim>\<open>True == 1\<close>. The cells only ever hold 0 or 1, so
  \<^verbatim>\<open>str(bit)\<close> is one of two characters.
\<close>

type_synonym BitstreamBuilder = "int list list"

definition BitstreamBuilder_init :: "int \<Rightarrow> int \<Rightarrow> BitstreamBuilder" where
  "BitstreamBuilder_init w h = replicate (nat h) (replicate (nat w) 0)"

definition set_bit :: "BitstreamBuilder \<Rightarrow> coord \<Rightarrow> int \<Rightarrow> error + BitstreamBuilder" where
  "set_bit cfg coord v =
     bindE (py_getitem cfg (int (snd coord))) (\<lambda>row.
     bindE (py_setitem row (int (fst coord)) (if v \<noteq> 0 then 1 else 0)) (\<lambda>row'.
       py_setitem cfg (int (snd coord)) row'))"

definition str_bit :: "int \<Rightarrow> string" where
  "str_bit b = (if b = 0 then ''0'' else ''1'')"

definition get_config_string :: "BitstreamBuilder \<Rightarrow> string" where
  "get_config_string cfg =
     strip (concat (map (\<lambda>row. concat (map str_bit row) @ [CHR 0x0A]) cfg))"

text \<open>
  The loop that writes a multi-bit attribute, which the source repeats for each of them:
  \<^verbatim>\<open>for bit in coords: builder.set_bit(bit, v & 1); v >>= 1\<close>.
\<close>

fun set_bits :: "BitstreamBuilder \<Rightarrow> coord list \<Rightarrow> int \<Rightarrow> error + BitstreamBuilder" where
  "set_bits b [] v = Inr b"
| "set_bits b (c # cs) v = bindE (set_bit b c (v AND 1)) (\<lambda>b'. set_bits b' cs (drop_bit 1 v))"

text \<open>\<^verbatim>\<open>_config_bitstream_routing_resources\<close>: the switches, then the buffers.\<close>

fun config_routing_resources ::
    "BitstreamBuilder \<Rightarrow> RoutingResource list \<Rightarrow> error + BitstreamBuilder" where
  "config_routing_resources b [] = Inr b"
| "config_routing_resources b (rr # rrs) =
     bindE (get_config_bits rr) (\<lambda>config_bits.
     bindE (set_bits b (config_bit_coordinates rr) config_bits) (\<lambda>b'.
       config_routing_resources b' rrs))"

definition config_bitstream_routing_resources ::
    "BitstreamBuilder \<Rightarrow> 'a Tile_scheme \<Rightarrow> error + BitstreamBuilder" where
  "config_bitstream_routing_resources b t =
     bindE (config_routing_resources b (routing_switches t)) (\<lambda>b'.
       config_routing_resources b' (buffers t))"

subsection \<open>Reading a bitmap\<close>

text \<open>
  A tile decodes the lines of its section. \<^verbatim>\<open>int(bitstream[y][x])\<close> is \<open>read_bit\<close>, and
  the loop that reads a multi-bit attribute is \<open>get_bits\<close>, started with value 0 and
  \<^verbatim>\<open>bit_pos = 1\<close>: a character that reads as 1 sets the bit, any other digit does not.
\<close>

definition read_bit :: "string list \<Rightarrow> coord \<Rightarrow> error + int" where
  "read_bit bitstream coord =
     bindE (py_getitem bitstream (int (snd coord))) (\<lambda>row.
     bindE (py_getitem row (int (fst coord))) (\<lambda>c. py_int [c]))"

fun get_bits :: "string list \<Rightarrow> coord list \<Rightarrow> int \<Rightarrow> int \<Rightarrow> error + int" where
  "get_bits bitstream [] acc bit_pos = Inr acc"
| "get_bits bitstream (c # cs) acc bit_pos =
     bindE (read_bit bitstream c) (\<lambda>v.
       get_bits bitstream cs (if v = 1 then acc OR bit_pos else acc) (push_bit 1 bit_pos))"

text \<open>
  \<^verbatim>\<open>_process_bitstream_routing_resources\<close>: each resource in turn is set from its
  control bits; the first exception leaves the later resources as they were.
\<close>

fun process_routing_resources ::
    "string list \<Rightarrow> RoutingResource list \<Rightarrow> error option \<times> RoutingResource list" where
  "process_routing_resources bitstream [] = (None, [])"
| "process_routing_resources bitstream (rr # rrs) =
     (case get_bits bitstream (config_bit_coordinates rr) 0 1 of
        Inl e \<Rightarrow> (Some e, rr # rrs)
      | Inr bit_config \<Rightarrow>
          (case set_config_bits rr bit_config of
             (Some e, rr') \<Rightarrow> (Some e, rr' # rrs)
           | (None, rr') \<Rightarrow>
               (case process_routing_resources bitstream rrs of
                  (e, rrs') \<Rightarrow> (e, rr' # rrs'))))"

definition process_bitstream_routing_resources ::
    "string list \<Rightarrow> 'a Tile_scheme \<Rightarrow> error option \<times> 'a Tile_scheme" where
  "process_bitstream_routing_resources bitstream t =
     (case process_routing_resources bitstream (routing_switches t) of
        (Some e, sw) \<Rightarrow> (Some e, t\<lparr>routing_switches := sw\<rparr>)
      | (None, sw) \<Rightarrow>
          (case process_routing_resources bitstream (buffers t) of
             (e, bf) \<Rightarrow> (e, t\<lparr>routing_switches := sw, buffers := bf\<rparr>)))"

subsection \<open>Logic tiles\<close>

text \<open>\<^verbatim>\<open>for idx, lc_bit in enumerate(self.lc_bits)\<close>, writing and reading.\<close>

fun set_lc_bits ::
    "BitstreamBuilder \<Rightarrow> coord list list \<Rightarrow> nat \<Rightarrow> int list \<Rightarrow> error + BitstreamBuilder" where
  "set_lc_bits b sets idx [] = Inr b"
| "set_lc_bits b sets idx (lc_bit # rest) =
     bindE (py_getitem sets (int idx)) (\<lambda>cs.
     bindE (set_bits b cs lc_bit) (\<lambda>b'. set_lc_bits b' sets (Suc idx) rest))"

fun get_lc_bits ::
    "string list \<Rightarrow> coord list list \<Rightarrow> nat \<Rightarrow> int list \<Rightarrow> error option \<times> int list" where
  "get_lc_bits bitstream [] idx lcs = (None, lcs)"
| "get_lc_bits bitstream (cs # rest) idx lcs =
     (case bindE (get_bits bitstream cs 0 1) (\<lambda>lc_config. py_setitem lcs (int idx) lc_config) of
        Inl e \<Rightarrow> (Some e, lcs)
      | Inr lcs' \<Rightarrow> get_lc_bits bitstream rest (Suc idx) lcs')"

definition LogicTile_generate_bitstream :: "LogicTile \<Rightarrow> error + string" where
  "LogicTile_generate_bitstream t =
     (case logic_bit_config t of
        None \<Rightarrow> Inl AttributeError
      | Some cfg \<Rightarrow>
          bindE (set_bit (BitstreamBuilder_init (width cfg) (height cfg))
                   (carry_in_set_bit cfg) (carry_in_set t)) (\<lambda>b.
          bindE (set_bits b (col_buf_ctrl_set_bits cfg) (col_buf_ctrl t)) (\<lambda>b.
          bindE (set_lc_bits b (lc_set_bits cfg) 0 (lc_bits t)) (\<lambda>b.
          bindE (set_bit b (neg_clk_set_bit cfg) (of_bool (neg_clk t))) (\<lambda>b.
          bindE (config_bitstream_routing_resources b t) (\<lambda>b.
            Inr (get_config_string b)))))))"

definition LogicTile_process_bitstream ::
    "LogicTile \<Rightarrow> string list \<Rightarrow> error option \<times> LogicTile" where
  "LogicTile_process_bitstream t bitstream =
     (case process_bitstream_routing_resources bitstream t of
        (Some e, t) \<Rightarrow> (Some e, t)
      | (None, t) \<Rightarrow>
     (case logic_bit_config t of
        None \<Rightarrow> (Some AttributeError, t)
      | Some cfg \<Rightarrow>
     (case read_bit bitstream (carry_in_set_bit cfg) of
        Inl e \<Rightarrow> (Some e, t)
      | Inr v \<Rightarrow> (case t\<lparr>carry_in_set := v\<rparr> of t \<Rightarrow>
     (case get_bits bitstream (col_buf_ctrl_set_bits cfg) 0 1 of
        Inl e \<Rightarrow> (Some e, t)
      | Inr v \<Rightarrow> (case t\<lparr>col_buf_ctrl := v\<rparr> of t \<Rightarrow>
     (case get_lc_bits bitstream (lc_set_bits cfg) 0 (lc_bits t) of
        (Some e, lcs) \<Rightarrow> (Some e, t\<lparr>lc_bits := lcs\<rparr>)
      | (None, lcs) \<Rightarrow> (case t\<lparr>lc_bits := lcs\<rparr> of t \<Rightarrow>
     (case read_bit bitstream (neg_clk_set_bit cfg) of
        Inl e \<Rightarrow> (Some e, t)
      | Inr v \<Rightarrow> (None, t\<lparr>neg_clk := v \<noteq> 0\<rparr>))))))))))"

subsection \<open>IO tiles\<close>

definition IoTile_generate_bitstream :: "IoTile \<Rightarrow> error + string" where
  "IoTile_generate_bitstream t =
     (case io_bit_config t of
        None \<Rightarrow> Inl AttributeError
      | Some cfg \<Rightarrow>
          bindE (py_getitem (io_col_buf_ctrl_set_bits cfg) 0) (\<lambda>c0.
          bindE (set_bit (BitstreamBuilder_init (width cfg) (height cfg)) c0 (io_col_buf_ctrl t)) (\<lambda>b.
          bindE (set_bits b (iob_0_pintype_bits cfg) (iob_0_pintype t)) (\<lambda>b.
          bindE (set_bits b (iob_1_pintype_bits cfg) (iob_1_pintype t)) (\<lambda>b.
          bindE (set_bit b (icegate_bit cfg) (of_bool (icegate t))) (\<lambda>b.
          bindE (set_bit b (io_ctrl_ie_0_bit cfg) (of_bool (io_ctrl_ie_0 t))) (\<lambda>b.
          bindE (set_bit b (io_ctrl_ie_1_bit cfg) (of_bool (io_ctrl_ie_1 t))) (\<lambda>b.
          bindE (set_bit b (io_ctrl_lvds_bit cfg) (of_bool (io_ctrl_lvds t))) (\<lambda>b.
          bindE (set_bit b (io_ctrl_ren_0_bit cfg) (of_bool (io_ctrl_ren_0 t))) (\<lambda>b.
          bindE (set_bit b (io_ctrl_ren_1_bit cfg) (of_bool (io_ctrl_ren_1 t))) (\<lambda>b.
          bindE (set_bit b (io_negclk_bit cfg) (of_bool (io_negclk t))) (\<lambda>b.
          bindE (set_bits b (pll_config_bits cfg) (pll_config t)) (\<lambda>b.
          bindE (config_bitstream_routing_resources b t) (\<lambda>b.
            Inr (get_config_string b)))))))))))))))"

definition IoTile_process_bitstream :: "IoTile \<Rightarrow> string list \<Rightarrow> error option \<times> IoTile" where
  "IoTile_process_bitstream t bitstream =
     (case process_bitstream_routing_resources bitstream t of
        (Some e, t) \<Rightarrow> (Some e, t)
      | (None, t) \<Rightarrow>
     (case io_bit_config t of
        None \<Rightarrow> (Some AttributeError, t)
      | Some cfg \<Rightarrow>
     (case get_bits bitstream (io_col_buf_ctrl_set_bits cfg) 0 1 of
        Inl e \<Rightarrow> (Some e, t)
      | Inr v \<Rightarrow> (case t\<lparr>io_col_buf_ctrl := v\<rparr> of t \<Rightarrow>
     (case get_bits bitstream (iob_0_pintype_bits cfg) 0 1 of
        Inl e \<Rightarrow> (Some e, t)
      | Inr v \<Rightarrow> (case t\<lparr>iob_0_pintype := v\<rparr> of t \<Rightarrow>
     (case get_bits bitstream (iob_1_pintype_bits cfg) 0 1 of
        Inl e \<Rightarrow> (Some e, t)
      | Inr v \<Rightarrow> (case t\<lparr>iob_1_pintype := v\<rparr> of t \<Rightarrow>
     (case read_bit bitstream (icegate_bit cfg) of
        Inl e \<Rightarrow> (Some e, t)
      | Inr v \<Rightarrow> (case t\<lparr>icegate := v \<noteq> 0\<rparr> of t \<Rightarrow>
     (case read_bit bitstream (io_ctrl_ie_0_bit cfg) of
        Inl e \<Rightarrow> (Some e, t)
      | Inr v \<Rightarrow> (case t\<lparr>io_ctrl_ie_0 := v \<noteq> 0\<rparr> of t \<Rightarrow>
     (case read_bit bitstream (io_ctrl_ie_1_bit cfg) of
        Inl e \<Rightarrow> (Some e, t)
      | Inr v \<Rightarrow> (case t\<lparr>io_ctrl_ie_1 := v \<noteq> 0\<rparr> of t \<Rightarrow>
     (case read_bit bitstream (io_ctrl_lvds_bit cfg) of
        Inl e \<Rightarrow> (Some e, t)
      | Inr v \<Rightarrow> (case t\<lparr>io_ctrl_lvds := v \<noteq> 0\<rparr> of t \<Rightarrow>
     (case read_bit bitstream (io_ctrl_ren_0_bit cfg) of
        Inl e \<Rightarrow> (Some e, t)
      | Inr v \<Rightarrow> (case t\<lparr>io_ctrl_ren_0 := v \<noteq> 0\<rparr> of t \<Rightarrow>
     (case read_bit bitstream (io_ctrl_ren_1_bit cfg) of
        Inl e \<Rightarrow> (Some e, t)
      | Inr v \<Rightarrow> (case t\<lparr>io_ctrl_ren_1 := v \<noteq> 0\<rparr> of t \<Rightarrow>
     (case read_bit bitstream (io_negclk_bit cfg) of
        Inl e \<Rightarrow> (Some e, t)
      | Inr v \<Rightarrow> (case t\<lparr>io_negclk := v \<noteq> 0\<rparr> of t \<Rightarrow>
     (case get_bits bitstream (pll_config_bits cfg) 0 1 of
        Inl e \<Rightarrow> (Some e, t)
      | Inr v \<Rightarrow> (None, t\<lparr>pll_config := v\<rparr>))))))))))))))))))))))))"

subsection \<open>From the encoded string to the lines of a section\<close>

text \<open>
  \<^verbatim>\<open>read_file\<close> strips every line of the file and drops the empty ones; the lines that
  follow a section's header are its body. \<open>section_lines\<close> is that reading of the
  string a tile has encoded (a row of bits starts with neither \<^verbatim>\<open>#\<close> nor \<^verbatim>\<open>.\<close>).
\<close>

fun split_newline :: "string \<Rightarrow> string list" where
  "split_newline [] = [[]]"
| "split_newline (c # cs) =
     (if c = CHR 0x0A then [] # split_newline cs
      else (case split_newline cs of l # ls \<Rightarrow> (c # l) # ls | [] \<Rightarrow> [[c]]))"

definition section_lines :: "string \<Rightarrow> string list" where
  "section_lines s = filter (\<lambda>l. l \<noteq> []) (map strip (split_newline s))"

subsection \<open>The routing resources of a device\<close>

text \<open>\<^verbatim>\<open>chain(self._routing_switches, self._buffers)\<close>, for every tile in the grid.\<close>

fun any_routing_resources :: "AnyTile \<Rightarrow> RoutingResource list" where
  "any_routing_resources (Logic t) = routing_switches t @ buffers t"
| "any_routing_resources (Io t) = routing_switches t @ buffers t"
| "any_routing_resources (Ramb t) = routing_switches t @ buffers t"
| "any_routing_resources (Ramt t) = routing_switches t @ buffers t"

definition device_routing_resources :: "DeviceConfig \<Rightarrow> RoutingResource list" where
  "device_routing_resources d =
     concat (map (\<lambda>cell. case cell of None \<Rightarrow> [] | Some t \<Rightarrow> any_routing_resources t)
       (concat (tiles d)))"

section \<open>Notions for the bit-order law\<close>

text \<open>
  The bit a builder holds at a coordinate; a builder of \<open>h\<close> rows of \<open>w\<close> bits; a
  coordinate inside that rectangle; the coordinates a logic tile's schema binds, in the
  order the encoder writes them, and those of the tile's routing resources.
\<close>

definition cell :: "BitstreamBuilder \<Rightarrow> coord \<Rightarrow> int" where
  "cell b c = b ! snd c ! fst c"

definition grid :: "nat \<Rightarrow> nat \<Rightarrow> BitstreamBuilder \<Rightarrow> bool" where
  "grid w h b \<longleftrightarrow> length b = h \<and> (\<forall>row \<in> set b. length row = w \<and> set row \<subseteq> {0, 1})"

definition inside :: "nat \<Rightarrow> nat \<Rightarrow> coord \<Rightarrow> bool" where
  "inside w h c \<longleftrightarrow> fst c < w \<and> snd c < h"

definition logic_coordinates :: "LogicTileBitConfig \<Rightarrow> coord list" where
  "logic_coordinates cfg =
     carry_in_set_bit cfg # col_buf_ctrl_set_bits cfg @ concat (lc_set_bits cfg)
       @ [neg_clk_set_bit cfg]"

definition routing_coordinates :: "'a Tile_scheme \<Rightarrow> coord list" where
  "routing_coordinates t =
     concat (map config_bit_coordinates (routing_switches t @ buffers t))"

text \<open>
  A string with no whitespace at its ends and at least one character; rows joined by
  newlines; the characters of a row of bits.
\<close>

definition clean :: "string \<Rightarrow> bool" where
  "clean r \<longleftrightarrow> r \<noteq> [] \<and> (\<forall>c \<in> set r. \<not> py_isspace c)"

fun join_lines :: "string list \<Rightarrow> string" where
  "join_lines [] = []"
| "join_lines [r] = r"
| "join_lines (r # r' # rs) = r @ CHR 0x0A # join_lines (r' # rs)"

definition row_string :: "int list \<Rightarrow> string" where
  "row_string row = map (\<lambda>v. if v = 0 then CHR ''0'' else CHR ''1'') row"

section \<open>Notions for schema ingestion\<close>

text \<open>
  The loop of a schema method assigns a slot each time a line names it. To say what the
  loop computes without running it, each line is read alone, on the slots as they are
  before the loop, and the slots it binds are laid over those bound so far: a new binding
  takes the place of an older one of the same slot, and a slot the line leaves at
  \<^verbatim>\<open>None\<close> keeps what it had.
\<close>

definition rebind :: "'a option \<Rightarrow> 'a option \<Rightarrow> 'a option" where
  "rebind new old = (case new of Some v \<Rightarrow> Some v | None \<Rightarrow> old)"

fun overlay_lines ::
    "('s \<Rightarrow> 's \<Rightarrow> 's) \<Rightarrow> (string list \<Rightarrow> error + 's) \<Rightarrow> 's \<Rightarrow> string list list \<Rightarrow> error + 's" where
  "overlay_lines ov alone st [] = Inr st"
| "overlay_lines ov alone st (line # rest) =
     bindE (alone line) (\<lambda>new. overlay_lines ov alone (ov st new) rest)"

definition line_reads :: "(string list \<Rightarrow> error + 's) \<Rightarrow> string list \<Rightarrow> bool" where
  "line_reads alone l = (case alone l of Inr new \<Rightarrow> True | Inl e \<Rightarrow> False)"

definition line_populates ::
    "(string list \<Rightarrow> error + 's) \<Rightarrow> ('s \<Rightarrow> bool list) \<Rightarrow> string list \<Rightarrow> nat \<Rightarrow> bool" where
  "line_populates alone pop l i = (case alone l of Inr new \<Rightarrow> pop new ! i | Inl e \<Rightarrow> False)"

definition is_bound :: "'a option \<Rightarrow> bool" where
  "is_bound s \<longleftrightarrow> s \<noteq> None"

definition okE :: "('a \<Rightarrow> bool) \<Rightarrow> error + 'a \<Rightarrow> bool" where
  "okE P m = (case m of Inl e \<Rightarrow> True | Inr v \<Rightarrow> P v)"

text \<open>
  For each of the four schemas: the overlay, slot by slot; the lengths of the slot lists,
  which the loop preserves; and, in the order of the final check, which slots are bound.
\<close>

definition logic_overlay :: "logic_slots \<Rightarrow> logic_slots \<Rightarrow> logic_slots" where
  "logic_overlay old new =
     \<lparr>carry_in_set_slot = rebind (carry_in_set_slot new) (carry_in_set_slot old),
      col_buf_ctrl_set_slots = map2 rebind (col_buf_ctrl_set_slots new) (col_buf_ctrl_set_slots old),
      lc_set_slots = map2 rebind (lc_set_slots new) (lc_set_slots old),
      neg_clk_set_slot = rebind (neg_clk_set_slot new) (neg_clk_set_slot old)\<rparr>"

definition logic_wf :: "logic_slots \<Rightarrow> bool" where
  "logic_wf st \<longleftrightarrow> length (col_buf_ctrl_set_slots st) = 8 \<and> length (lc_set_slots st) = 8"

definition logic_populated :: "logic_slots \<Rightarrow> bool list" where
  "logic_populated st =
     [is_bound (carry_in_set_slot st)]
       @ map is_bound (col_buf_ctrl_set_slots st)
       @ map is_bound (lc_set_slots st)
       @ [is_bound (neg_clk_set_slot st)]"

definition io_overlay :: "io_slots \<Rightarrow> io_slots \<Rightarrow> io_slots" where
  "io_overlay old new =
     \<lparr>io_col_buf_ctrl_set_slots = map2 rebind (io_col_buf_ctrl_set_slots new) (io_col_buf_ctrl_set_slots old),
      iob_0_pintype_slots = map2 rebind (iob_0_pintype_slots new) (iob_0_pintype_slots old),
      iob_1_pintype_slots = map2 rebind (iob_1_pintype_slots new) (iob_1_pintype_slots old),
      icegate_slot = rebind (icegate_slot new) (icegate_slot old),
      io_ctrl_ie_0_slot = rebind (io_ctrl_ie_0_slot new) (io_ctrl_ie_0_slot old),
      io_ctrl_ie_1_slot = rebind (io_ctrl_ie_1_slot new) (io_ctrl_ie_1_slot old),
      io_ctrl_lvds_slot = rebind (io_ctrl_lvds_slot new) (io_ctrl_lvds_slot old),
      io_ctrl_ren_0_slot = rebind (io_ctrl_ren_0_slot new) (io_ctrl_ren_0_slot old),
      io_ctrl_ren_1_slot = rebind (io_ctrl_ren_1_slot new) (io_ctrl_ren_1_slot old),
      io_negclk_slot = rebind (io_negclk_slot new) (io_negclk_slot old),
      pll_config_slots = map2 rebind (pll_config_slots new) (pll_config_slots old)\<rparr>"

definition io_wf :: "io_slots \<Rightarrow> bool" where
  "io_wf st \<longleftrightarrow> length (io_col_buf_ctrl_set_slots st) = 8 \<and> length (iob_0_pintype_slots st) = 6 \<and> length (iob_1_pintype_slots st) = 6 \<and> length (pll_config_slots st) = 9"

definition io_populated :: "io_slots \<Rightarrow> bool list" where
  "io_populated st =
     map is_bound (io_col_buf_ctrl_set_slots st)
       @ map is_bound (iob_0_pintype_slots st)
       @ map is_bound (iob_1_pintype_slots st)
       @ [is_bound (icegate_slot st)]
       @ [is_bound (io_ctrl_ie_0_slot st)]
       @ [is_bound (io_ctrl_ie_1_slot st)]
       @ [is_bound (io_ctrl_lvds_slot st)]
       @ [is_bound (io_ctrl_ren_0_slot st)]
       @ [is_bound (io_ctrl_ren_1_slot st)]
       @ [is_bound (io_negclk_slot st)]
       @ map is_bound (pll_config_slots st)"

definition ramb_overlay :: "ramb_slots \<Rightarrow> ramb_slots \<Rightarrow> ramb_slots" where
  "ramb_overlay old new =
     \<lparr>ramb_col_buf_ctrl_set_slots = map2 rebind (ramb_col_buf_ctrl_set_slots new) (ramb_col_buf_ctrl_set_slots old),
      ramb_negclk_slot = rebind (ramb_negclk_slot new) (ramb_negclk_slot old),
      ram_config_powerup_slot = rebind (ram_config_powerup_slot new) (ram_config_powerup_slot old)\<rparr>"

definition ramb_wf :: "ramb_slots \<Rightarrow> bool" where
  "ramb_wf st \<longleftrightarrow> length (ramb_col_buf_ctrl_set_slots st) = 8"

definition ramb_populated :: "ramb_slots \<Rightarrow> bool list" where
  "ramb_populated st =
     map is_bound (ramb_col_buf_ctrl_set_slots st)
       @ [is_bound (ramb_negclk_slot st)]
       @ [is_bound (ram_config_powerup_slot st)]"

definition ramt_overlay :: "ramt_slots \<Rightarrow> ramt_slots \<Rightarrow> ramt_slots" where
  "ramt_overlay old new =
     \<lparr>ramt_negclk_slot = rebind (ramt_negclk_slot new) (ramt_negclk_slot old),
      ram_config_slots = map2 rebind (ram_config_slots new) (ram_config_slots old),
      ram_cascade_slots = map2 rebind (ram_cascade_slots new) (ram_cascade_slots old)\<rparr>"

definition ramt_wf :: "ramt_slots \<Rightarrow> bool" where
  "ramt_wf st \<longleftrightarrow> length (ram_config_slots st) = 4 \<and> length (ram_cascade_slots st) = 4"

definition ramt_populated :: "ramt_slots \<Rightarrow> bool list" where
  "ramt_populated st =
     [is_bound (ramt_negclk_slot st)]
       @ map is_bound (ram_config_slots st)
       @ map is_bound (ram_cascade_slots st)"

section \<open>Example inputs\<close>

text \<open>
  The device that the header \<^verbatim>\<open>.device 1k 2 2 3\<close> builds, a routing resource with two
  control bits and two candidates, and a device that holds it in a logic tile.
\<close>

definition example_device :: DeviceConfig where
  "example_device =
     \<lparr>frozen = False, device_type = ''1k'',
      tiles = [[None, None], [None, None]],
      nets = [None, None, None], wires = [],
      logic_tile_bit_config = None, io_tile_bit_config = None,
      ramb_tile_bits_config = None, ramt_tile_bits_config = None, next_obj = 0\<rparr>"

definition example_rr :: RoutingResource where
  "example_rr =
     \<lparr>dst_net = Some 0, config_bit_coordinates = [(0, 0), (1, 0)],
      src_net_to_bit_vals_dict = [(Some 1, 1), (Some 2, 2)], connection = None\<rparr>"

definition example_routed_device :: DeviceConfig where
  "example_routed_device =
     example_device\<lparr>tiles :=
       [[Some (Logic ((LogicTile_init 0 0 0 None)\<lparr>routing_switches := [example_rr]\<rparr>)), None],
        [None, None]]\<rparr>"

text \<open>
  A logic-tile schema section of width 8 and height 10, the same section with a second
  \<^verbatim>\<open>CarryInSet\<close> line, and the same section without its \<^verbatim>\<open>NegClk\<close> line.
\<close>

definition example_logic_tile_bits :: FileSection where
  "example_logic_tile_bits =
     \<lparr>section_type = ''logic_tile_bits'', header = [''8'', ''10''],
      body =
       [[''CarryInSet'', ''B0[0]''],
        [''ColBufCtrl.glb_netwk_0'', ''B1[0]''],
        [''ColBufCtrl.glb_netwk_1'', ''B1[1]''],
        [''ColBufCtrl.glb_netwk_2'', ''B1[2]''],
        [''ColBufCtrl.glb_netwk_3'', ''B1[3]''],
        [''ColBufCtrl.glb_netwk_4'', ''B1[4]''],
        [''ColBufCtrl.glb_netwk_5'', ''B1[5]''],
        [''ColBufCtrl.glb_netwk_6'', ''B1[6]''],
        [''ColBufCtrl.glb_netwk_7'', ''B1[7]''],
        [''LC_0'', ''B2[0]'', ''B2[1]''],
        [''LC_1'', ''B3[0]'', ''B3[1]''],
        [''LC_2'', ''B4[0]'', ''B4[1]''],
        [''LC_3'', ''B5[0]'', ''B5[1]''],
        [''LC_4'', ''B6[0]'', ''B6[1]''],
        [''LC_5'', ''B7[0]'', ''B7[1]''],
        [''LC_6'', ''B8[0]'', ''B8[1]''],
        [''LC_7'', ''B9[0]'', ''B9[1]''],
        [''NegClk'', ''B0[1]'']]\<rparr>"

definition example_duplicate_tile_bits :: FileSection where
  "example_duplicate_tile_bits =
     example_logic_tile_bits\<lparr>body := body example_logic_tile_bits @ [[''CarryInSet'', ''B0[5]'']]\<rparr>"

definition example_incomplete_tile_bits :: FileSection where
  "example_incomplete_tile_bits =
     example_logic_tile_bits\<lparr>body := butlast (body example_logic_tile_bits)\<rparr>"


text \<open>
  An IO-tile schema of width 8 and height 5 with pairwise distinct coordinates, and an IO
  tile bound to it whose \<^verbatim>\<open>col_buf_ctrl\<close> is 2.
\<close>

definition example_io_config :: IoTileBitConfig where
  "example_io_config =
     \<lparr>width = 8, height = 5,
      io_col_buf_ctrl_set_bits = [(0, 0), (1, 0), (2, 0), (3, 0), (4, 0), (5, 0), (6, 0), (7, 0)],
      iob_0_pintype_bits = [(0, 1), (1, 1), (2, 1), (3, 1), (4, 1), (5, 1)],
      iob_1_pintype_bits = [(0, 2), (1, 2), (2, 2), (3, 2), (4, 2), (5, 2)],
      icegate_bit = (6, 1), io_ctrl_ie_0_bit = (7, 1), io_ctrl_ie_1_bit = (6, 2),
      io_ctrl_lvds_bit = (7, 2), io_ctrl_ren_0_bit = (0, 3), io_ctrl_ren_1_bit = (1, 3),
      io_negclk_bit = (2, 3),
      pll_config_bits =
        [(0, 4), (1, 4), (2, 4), (3, 4), (4, 4), (5, 4), (6, 4), (7, 4), (3, 3)]\<rparr>"

definition example_io_tile :: IoTile where
  "example_io_tile = (IoTile_init 0 0 0 (Some example_io_config))\<lparr>io_col_buf_ctrl := 2\<rparr>"

text \<open>
  A logic-tile schema (the one the example section above declares), a logic tile bound to
  it with a connected routing switch and nonzero multi-bit attributes, and a fresh tile of
  the same topology.
\<close>

definition example_logic_config :: LogicTileBitConfig where
  "example_logic_config =
     \<lparr>width = 8, height = 10, carry_in_set_bit = (0, 0),
      col_buf_ctrl_set_bits = [(0, 1), (1, 1), (2, 1), (3, 1), (4, 1), (5, 1), (6, 1), (7, 1)],
      lc_set_bits = [[(0, 2), (1, 2)], [(0, 3), (1, 3)], [(0, 4), (1, 4)], [(0, 5), (1, 5)],
        [(0, 6), (1, 6)], [(0, 7), (1, 7)], [(0, 8), (1, 8)], [(0, 9), (1, 9)]],
      neg_clk_set_bit = (1, 0)\<rparr>"

definition example_logic_tile :: LogicTile where
  "example_logic_tile =
     (LogicTile_init 0 0 0 (Some example_logic_config))
       \<lparr>routing_switches :=
          [\<lparr>dst_net = Some 0, config_bit_coordinates = [(2, 0), (3, 0)],
            src_net_to_bit_vals_dict = [(Some 1, 1), (Some 2, 2)], connection = Some 2\<rparr>],
        col_buf_ctrl := 165, lc_bits := [1, 2, 3, 0, 1, 2, 3, 0]\<rparr>"

definition example_blank_logic_tile :: LogicTile where
  "example_blank_logic_tile =
     (LogicTile_init 1 0 0 (Some example_logic_config))
       \<lparr>routing_switches :=
          [\<lparr>dst_net = Some 0, config_bit_coordinates = [(2, 0), (3, 0)],
            src_net_to_bit_vals_dict = [(Some 1, 1), (Some 2, 2)], connection = None\<rparr>]\<rparr>"


section \<open>Properties of routing resources\<close>

lemma find_None_iff_no_pattern:
  "find (\<lambda>(src_net, bit_vals). bit_vals = v) d = None \<longleftrightarrow> v \<notin> snd ` set d"
  by (induction d) auto

lemma set_config_bits_unlisted:
  "v \<noteq> 0 \<Longrightarrow> v \<notin> snd ` set (src_net_to_bit_vals_dict rr)
     \<Longrightarrow> set_config_bits rr v = (Some InvalidPattern, rr)"
proof -
  assume nz: "v \<noteq> 0" and unlisted: "v \<notin> snd ` set (src_net_to_bit_vals_dict rr)"
  from unlisted
  have "find (\<lambda>(src_net, bit_vals). bit_vals = v) (src_net_to_bit_vals_dict rr) = None"
    by (simp only: find_None_iff_no_pattern) simp
  with nz show ?thesis by (simp add: set_config_bits_def)
qed

lemma find_Some_pattern:
  "find (\<lambda>(src_net, bit_vals). bit_vals = v) d = Some (k, w) \<Longrightarrow> w = v \<and> (k, v) \<in> set d"
  by (induction d) (auto split: if_splits)

text \<open>
  Claim C6. \<^verbatim>\<open>connect(src_net)\<close> raises "Invalid source net" exactly when
  \<^verbatim>\<open>src_net\<close> is no key of the candidate table, and otherwise the connection becomes
  \<^verbatim>\<open>src_net\<close> whatever it was before; \<^verbatim>\<open>set_config_bits(0)\<close> always disconnects;
  and \<^verbatim>\<open>set_config_bits(v)\<close> for a nonzero \<open>v\<close> that is the stored pattern of no
  candidate raises "Invalid routing resource bit config" and leaves the resource,
  its connection included, as it was.
\<close>

theorem routing_law:
  "(fst (connect rr src_net) = Some UnknownSource
      \<longleftrightarrow> src_net \<notin> set (map fst (src_net_to_bit_vals_dict rr)))
   \<and> (src_net \<in> set (map fst (src_net_to_bit_vals_dict rr))
      \<longrightarrow> connect rr src_net = (None, rr\<lparr>connection := src_net\<rparr>))
   \<and> (src_net \<notin> set (map fst (src_net_to_bit_vals_dict rr))
      \<longrightarrow> connect rr src_net = (Some UnknownSource, rr))
   \<and> set_config_bits rr 0 = (None, rr\<lparr>connection := None\<rparr>)
   \<and> (v \<noteq> 0 \<and> v \<notin> set (map snd (src_net_to_bit_vals_dict rr))
      \<longrightarrow> set_config_bits rr v = (Some InvalidPattern, rr))"
  by (simp add: connect_def set_config_bits_unlisted) (simp add: set_config_bits_def)

theorem routing_law_witness:
  "connect \<lparr>dst_net = Some 0, config_bit_coordinates = [(0, 0), (1, 0)],
       src_net_to_bit_vals_dict = [(Some 1, 1), (Some 2, 2)], connection = Some 2\<rparr> (Some 1)
     = (None, \<lparr>dst_net = Some 0, config_bit_coordinates = [(0, 0), (1, 0)],
       src_net_to_bit_vals_dict = [(Some 1, 1), (Some 2, 2)], connection = Some 1\<rparr>)
   \<and> connect \<lparr>dst_net = Some 0, config_bit_coordinates = [(0, 0), (1, 0)],
       src_net_to_bit_vals_dict = [(Some 1, 1), (Some 2, 2)], connection = Some 2\<rparr> (Some 7)
     = (Some UnknownSource, \<lparr>dst_net = Some 0, config_bit_coordinates = [(0, 0), (1, 0)],
       src_net_to_bit_vals_dict = [(Some 1, 1), (Some 2, 2)], connection = Some 2\<rparr>)
   \<and> set_config_bits \<lparr>dst_net = Some 0, config_bit_coordinates = [(0, 0), (1, 0)],
       src_net_to_bit_vals_dict = [(Some 1, 1), (Some 2, 2)], connection = Some 2\<rparr> 3
     = (Some InvalidPattern, \<lparr>dst_net = Some 0, config_bit_coordinates = [(0, 0), (1, 0)],
       src_net_to_bit_vals_dict = [(Some 1, 1), (Some 2, 2)], connection = Some 2\<rparr>)"
  using routing_law [of "\<lparr>dst_net = Some 0, config_bit_coordinates = [(0, 0), (1, 0)],
       src_net_to_bit_vals_dict = [(Some 1, 1), (Some 2, 2)], connection = Some 2\<rparr>" "Some 1" 3]
    routing_law [of "\<lparr>dst_net = Some 0, config_bit_coordinates = [(0, 0), (1, 0)],
       src_net_to_bit_vals_dict = [(Some 1, 1), (Some 2, 2)], connection = Some 2\<rparr>" "Some 7" 3]
  by simp

lemma pattern_of_distinct:
  "distinct (map fst d) \<Longrightarrow> (k, v) \<in> set d \<Longrightarrow> (k, w) \<in> set d \<Longrightarrow> v = w"
  by (induction d) (auto simp: rev_image_eqI)

text \<open>
  Claim C10. A candidate whose stored pattern is 0 can be connected, but the control bits
  then read 0, the same as for a disconnected resource; setting the control bits to 0
  disconnects; and no value given to \<^verbatim>\<open>set_config_bits\<close> ever selects that candidate.
  The keys of a dictionary are distinct.
\<close>

theorem zero_pattern_candidate:
  assumes cand: "(Some n, 0) \<in> set (src_net_to_bit_vals_dict rr)"
      and keys: "distinct (map fst (src_net_to_bit_vals_dict rr))"
  shows "connect rr (Some n) = (None, rr\<lparr>connection := Some n\<rparr>)
     \<and> get_config_bits (rr\<lparr>connection := Some n\<rparr>) = Inr 0
     \<and> get_config_bits (disconnect rr) = Inr 0
     \<and> set_config_bits (rr\<lparr>connection := Some n\<rparr>) 0 = (None, rr\<lparr>connection := None\<rparr>)
     \<and> (\<forall>v. connection rr \<noteq> Some n \<longrightarrow> connection (snd (set_config_bits rr v)) \<noteq> Some n)"
proof -
  from cand have "Some n \<in> set (map fst (src_net_to_bit_vals_dict rr))"
    by (metis fst_conv image_eqI list.set_map)
  then have c1: "connect rr (Some n) = (None, rr\<lparr>connection := Some n\<rparr>)"
    by (simp add: connect_def)
  from cand keys have "map_of (src_net_to_bit_vals_dict rr) (Some n) = Some 0"
    by simp
  then have c2: "get_config_bits (rr\<lparr>connection := Some n\<rparr>) = Inr 0"
    by (simp add: get_config_bits_def)
  have c3: "get_config_bits (disconnect rr) = Inr 0"
    by (simp add: get_config_bits_def disconnect_def)
  have c4: "set_config_bits (rr\<lparr>connection := Some n\<rparr>) 0 = (None, rr\<lparr>connection := None\<rparr>)"
    by (simp add: set_config_bits_def)
  have c5: "connection (snd (set_config_bits rr v)) \<noteq> Some n" if nc: "connection rr \<noteq> Some n" for v
  proof (cases "v = 0")
    case True
    then show ?thesis by (simp add: set_config_bits_def)
  next
    case False
    show ?thesis
    proof (cases "find (\<lambda>(src_net, bit_vals). bit_vals = v) (src_net_to_bit_vals_dict rr)")
      case None
      with False nc show ?thesis by (simp add: set_config_bits_def)
    next
      case (Some p)
      obtain k w where p: "p = (k, w)" by (cases p)
      from Some p have kv: "w = v \<and> (k, v) \<in> set (src_net_to_bit_vals_dict rr)"
        using find_Some_pattern by fastforce
      have "k \<noteq> Some n"
      proof
        assume "k = Some n"
        with kv cand keys have "v = 0" using pattern_of_distinct by fastforce
        with False show False by simp
      qed
      with Some p False show ?thesis by (simp add: set_config_bits_def)
    qed
  qed
  from c1 c2 c3 c4 c5 show ?thesis by blast
qed

theorem zero_pattern_candidate_witness:
  "connect \<lparr>dst_net = Some 0, config_bit_coordinates = [(0, 0), (1, 0)],
       src_net_to_bit_vals_dict = [(Some 1, 0), (Some 2, 2)], connection = None\<rparr> (Some 1)
     = (None, \<lparr>dst_net = Some 0, config_bit_coordinates = [(0, 0), (1, 0)],
       src_net_to_bit_vals_dict = [(Some 1, 0), (Some 2, 2)], connection = Some 1\<rparr>)
   \<and> get_config_bits \<lparr>dst_net = Some 0, config_bit_coordinates = [(0, 0), (1, 0)],
       src_net_to_bit_vals_dict = [(Some 1, 0), (Some 2, 2)], connection = Some 1\<rparr> = Inr 0"
  using zero_pattern_candidate [of 1 "\<lparr>dst_net = Some 0, config_bit_coordinates = [(0, 0), (1, 0)],
       src_net_to_bit_vals_dict = [(Some 1, 0), (Some 2, 2)], connection = None\<rparr>"]
  by simp

section \<open>Evaluating the primitives\<close>

lemmas py_int_defs = py_int_def py_int_base_def strip_def py_isspace_def py_magnitude_def
  digit_in_def digit_of_def

lemma py_index_in_range:
  "- int n \<le> i \<Longrightarrow> i < int n \<Longrightarrow> py_index n i = Inr (nat (if i < 0 then i + int n else i))"
  by (simp add: py_index_def Let_def)

lemma py_index_out_of_range:
  "i < - int n \<or> int n \<le> i \<Longrightarrow> py_index n i = Inl IndexError"
  by (auto simp: py_index_def Let_def)

lemma example_device_init:
  "DeviceConfig_init \<lparr>section_type = ''device'', header = [''1k'', ''2'', ''2'', ''3''], body = []\<rparr>
     = Inr example_device"
  by (simp add: DeviceConfig_init_def example_device_def py_int_def py_int_base_def strip_def
      py_isspace_def py_magnitude_def digit_in_def digit_of_def bindE_def numeral_2_eq_2 numeral_3_eq_3)

section \<open>Freeze and reset\<close>

lemma freeze_nets_error:
  "fst (freeze_nets ns) = (if None \<in> set ns then Some AttributeError else None)"
  by (induction ns rule: freeze_nets.induct) (auto split: prod.splits)

text \<open>
  Claim C9. \<^verbatim>\<open>freeze()\<close> raises (AttributeError, on \<^verbatim>\<open>None.freeze()\<close>) when some slot
  of the net array is still \<^verbatim>\<open>None\<close>, and completes without an exception exactly when
  every slot holds a net; either way the device's flag is set, and the grid is mapped
  tile by tile with its empty cells left alone.
\<close>

theorem freeze_unpopulated_net:
  "(None \<in> set (nets d) \<longrightarrow> fst (freeze d) = Some AttributeError)
   \<and> (None \<notin> set (nets d) \<longrightarrow> fst (freeze d) = None)
   \<and> frozen (snd (freeze d))
   \<and> tiles (snd (freeze d)) = map (map (map_option any_freeze)) (tiles d)"
  using freeze_nets_error [of "nets d"]
  by (auto simp: freeze_def split: prod.splits)

theorem freeze_unpopulated_net_witness:
  "fst (freeze example_device) = Some AttributeError
   \<and> fst (freeze (example_device\<lparr>nets := [Some (Net_init 0 0)]\<rparr>)) = None"
  using freeze_unpopulated_net [of example_device]
    freeze_unpopulated_net [of "example_device\<lparr>nets := [Some (Net_init 0 0)]\<rparr>"]
  by (simp add: example_device_def)

lemma LogicTile_reset_defaults:
  "carry_in_set (LogicTile_reset t) = 0 \<and> col_buf_ctrl (LogicTile_reset t) = 0
   \<and> lc_bits (LogicTile_reset t) = replicate 8 0 \<and> \<not> neg_clk (LogicTile_reset t)
   \<and> (\<forall>rr \<in> set (routing_switches (LogicTile_reset t) @ buffers (LogicTile_reset t)).
        connection rr = None)
   \<and> logic_bit_config (LogicTile_reset t) = logic_bit_config t
   \<and> tile_wires (LogicTile_reset t) = tile_wires t
   \<and> map src_net_to_bit_vals_dict (routing_switches (LogicTile_reset t))
       = map src_net_to_bit_vals_dict (routing_switches t)"
  by (auto simp: LogicTile_reset_def reset_routing_resources_def disconnect_def)

text \<open>
  Claim C2, at the failing input. On a device whose grid has at least one row,
  \<^verbatim>\<open>reset()\<close> raises AttributeError at its first iteration and changes nothing: no
  attribute of any tile is set to its default and no routing resource is disconnected.
  The method \<^verbatim>\<open>reset\<close> of a tile, which the loop never reaches, does both.
\<close>

theorem reset_raises:
  "reset (d\<lparr>tiles := row # rows\<rparr>) = (Some AttributeError, d\<lparr>tiles := row # rows\<rparr>)"
  by (simp add: reset_def)

lemma ingestion_frozen:
  "frozen d \<Longrightarrow>
     process_logic_tile_bit_config d sec = (Some FrozenViolation, d)
   \<and> process_io_tile_bit_config d sec = (Some FrozenViolation, d)
   \<and> process_ramb_tile_bit_config d sec = (Some FrozenViolation, d)
   \<and> process_ramt_tile_bit_config d sec = (Some FrozenViolation, d)
   \<and> process_logic_tile d sec = (Some FrozenViolation, d)
   \<and> process_io_tile d sec = (Some FrozenViolation, d)
   \<and> process_ramb_tile d sec = (Some FrozenViolation, d)
   \<and> process_ramt_tile d sec = (Some FrozenViolation, d)
   \<and> process_net d sec = (Some FrozenViolation, d)
   \<and> process_routing_switch d sec = (Some FrozenViolation, d)
   \<and> process_buffer d sec = (Some FrozenViolation, d)"
  by (simp add: process_logic_tile_bit_config_def process_io_tile_bit_config_def
      process_ramb_tile_bit_config_def process_ramt_tile_bit_config_def
      process_logic_tile_def process_io_tile_def process_ramb_tile_def process_ramt_tile_def
      process_net_def process_routing_switch_def process_buffer_def)

lemma frozen_freeze: "frozen (snd (freeze d))"
  by (simp add: freeze_def split: prod.splits)

text \<open>
  Claim C5. After \<^verbatim>\<open>freeze()\<close> (whether or not it raised, see C9) the device is frozen:
  each of the eleven ingestion methods raises "You cannot manipulate a frozen object!"
  and leaves the device as it was. A routing resource has no frozen flag: for every
  resource of every tile of the frozen device, \<^verbatim>\<open>connect\<close> to any of its candidates
  and \<^verbatim>\<open>disconnect\<close> go through.
\<close>

theorem freeze_law:
  "frozen (snd (freeze d))
   \<and> process_logic_tile_bit_config (snd (freeze d)) sec = (Some FrozenViolation, snd (freeze d))
   \<and> process_io_tile_bit_config (snd (freeze d)) sec = (Some FrozenViolation, snd (freeze d))
   \<and> process_ramb_tile_bit_config (snd (freeze d)) sec = (Some FrozenViolation, snd (freeze d))
   \<and> process_ramt_tile_bit_config (snd (freeze d)) sec = (Some FrozenViolation, snd (freeze d))
   \<and> process_logic_tile (snd (freeze d)) sec = (Some FrozenViolation, snd (freeze d))
   \<and> process_io_tile (snd (freeze d)) sec = (Some FrozenViolation, snd (freeze d))
   \<and> process_ramb_tile (snd (freeze d)) sec = (Some FrozenViolation, snd (freeze d))
   \<and> process_ramt_tile (snd (freeze d)) sec = (Some FrozenViolation, snd (freeze d))
   \<and> process_net (snd (freeze d)) sec = (Some FrozenViolation, snd (freeze d))
   \<and> process_routing_switch (snd (freeze d)) sec = (Some FrozenViolation, snd (freeze d))
   \<and> process_buffer (snd (freeze d)) sec = (Some FrozenViolation, snd (freeze d))
   \<and> (\<forall>rr \<in> set (device_routing_resources (snd (freeze d))).
        (\<forall>src_net \<in> set (map fst (src_net_to_bit_vals_dict rr)).
           connect rr src_net = (None, rr\<lparr>connection := src_net\<rparr>))
        \<and> disconnect rr = rr\<lparr>connection := None\<rparr>)"
  using ingestion_frozen [OF frozen_freeze, of d sec]
  by (simp add: frozen_freeze connect_def disconnect_def)

lemma example_routed_frozen_resources:
  "device_routing_resources (snd (freeze example_routed_device)) = [example_rr]"
  by (simp add: device_routing_resources_def freeze_def example_routed_device_def
      example_device_def LogicTile_init_def Tile_freeze_def split: prod.splits)

theorem freeze_law_witness:
  "process_net (snd (freeze example_routed_device))
       \<lparr>section_type = ''net'', header = [''0''], body = []\<rparr>
     = (Some FrozenViolation, snd (freeze example_routed_device))
   \<and> connect example_rr (Some 2) = (None, example_rr\<lparr>connection := Some 2\<rparr>)
   \<and> disconnect example_rr = example_rr\<lparr>connection := None\<rparr>"
proof -
  have m: "example_rr \<in> set (device_routing_resources (snd (freeze example_routed_device)))"
    by (simp add: example_routed_frozen_resources)
  have k: "Some 2 \<in> set (map fst (src_net_to_bit_vals_dict example_rr))"
    by (simp add: example_rr_def)
  from freeze_law [of example_routed_device "\<lparr>section_type = ''net'', header = [''0''], body = []\<rparr>"]
    m k show ?thesis by blast
qed

section \<open>Tile placement\<close>

lemma put_tile_in_range:
  assumes "- int (length g) \<le> y" "y < int (length g)"
    and "\<forall>row \<in> set g. length row = w" and "- int w \<le> x" "x < int w"
  shows "put_tile g x y v =
     Inr (g[nat (if y < 0 then y + int (length g) else y) :=
            (g ! nat (if y < 0 then y + int (length g) else y))
              [nat (if x < 0 then x + int w else x) := v]])"
proof -
  let ?j = "nat (if y < 0 then y + int (length g) else y)"
  from assms(1,2) have j: "?j < length g" by auto
  then have "length (g ! ?j) = w" using assms(3) by simp
  with assms j show ?thesis
    by (simp add: put_tile_def py_getitem_def py_setitem_def py_index_in_range bindE_def
        del: if_split cong: if_cong)
qed

lemma put_tile_out_of_range:
  assumes "\<forall>row \<in> set g. length row = w"
    and "y < - int (length g) \<or> int (length g) \<le> y \<or> x < - int w \<or> int w \<le> x"
  shows "put_tile g x y v = Inl IndexError"
proof (cases "y < - int (length g) \<or> int (length g) \<le> y")
  case True
  then show ?thesis
    by (simp add: put_tile_def py_getitem_def py_index_out_of_range bindE_def)
next
  case False
  then have yr: "- int (length g) \<le> y" "y < int (length g)" by auto
  let ?j = "nat (if y < 0 then y + int (length g) else y)"
  from yr have j: "?j < length g" by auto
  then have len: "length (g ! ?j) = w" using assms(1) by simp
  from False assms(2) have "x < - int w \<or> int w \<le> x" by blast
  with len have "py_index (length (g ! ?j)) x = Inl IndexError"
    by (simp add: py_index_out_of_range)
  with yr show ?thesis
    by (simp add: put_tile_def py_getitem_def py_setitem_def py_index_in_range bindE_def
        del: if_split cong: if_cong)
qed

lemma place_in_range:
  assumes "- int (length (tiles d)) \<le> y" "y < int (length (tiles d))"
    and "\<forall>row \<in> set (tiles d). length row = w" and "- int w \<le> x" "x < int w"
  shows "place d x y t =
     (None, d\<lparr>next_obj := Suc (next_obj d),
        tiles := (tiles d)[nat (if y < 0 then y + int (length (tiles d)) else y) :=
            (tiles d ! nat (if y < 0 then y + int (length (tiles d)) else y))
              [nat (if x < 0 then x + int w else x) := Some t]]\<rparr>)"
  using put_tile_in_range [OF assms, of "Some t"] by (simp add: place_def del: if_split cong: if_cong)

lemma place_out_of_range:
  assumes "\<forall>row \<in> set (tiles d). length row = w"
    and "y < - int (length (tiles d)) \<or> int (length (tiles d)) \<le> y \<or> x < - int w \<or> int w \<le> x"
  shows "place d x y t = (Some IndexError, d\<lparr>next_obj := Suc (next_obj d)\<rparr>)"
  using put_tile_out_of_range [OF assms, of "Some t"] by (simp add: place_def)

text \<open>
  Claim C3, as amended. The placement methods do not look at the schema: on a device
  that is not frozen, a placement of a tile kind whose schema has not been ingested (the
  other schemas may have been), at in-range coordinates, raises nothing and inserts a
  tile whose \<^verbatim>\<open>_bit_config\<close> is \<^verbatim>\<open>None\<close>.
\<close>

theorem placement_without_schema:
  assumes nf: "\<not> frozen d" and hdr: "header sec = [sx, sy]"
    and px: "py_int sx = Inr x" and py: "py_int sy = Inr y"
    and rect: "\<forall>row \<in> set (tiles d). length row = w"
    and yr: "0 \<le> y" "y < int (length (tiles d))" and xr: "0 \<le> x" "x < int w"
  shows "(logic_tile_bit_config d = None \<longrightarrow>
       process_logic_tile d sec =
         (None, d\<lparr>next_obj := Suc (next_obj d),
            tiles := (tiles d)[nat y := (tiles d ! nat y)
              [nat x := Some (Logic (LogicTile_init (next_obj d) x y None))]]\<rparr>))
     \<and> (io_tile_bit_config d = None \<longrightarrow>
       process_io_tile d sec =
         (None, d\<lparr>next_obj := Suc (next_obj d),
            tiles := (tiles d)[nat y := (tiles d ! nat y)
              [nat x := Some (Io (IoTile_init (next_obj d) x y None))]]\<rparr>))
     \<and> (ramb_tile_bits_config d = None \<longrightarrow>
       process_ramb_tile d sec =
         (None, d\<lparr>next_obj := Suc (next_obj d),
            tiles := (tiles d)[nat y := (tiles d ! nat y)
              [nat x := Some (Ramb (RambTile_init (next_obj d) x y None))]]\<rparr>))
     \<and> (ramt_tile_bits_config d = None \<longrightarrow>
       process_ramt_tile d sec =
         (None, d\<lparr>next_obj := Suc (next_obj d),
            tiles := (tiles d)[nat y := (tiles d ! nat y)
              [nat x := Some (Ramt (RamtTile_init (next_obj d) x y None))]]\<rparr>))"
proof -
  from yr xr have r: "- int (length (tiles d)) \<le> y" "y < int (length (tiles d))"
      "- int w \<le> x" "x < int w" by auto
  from place_in_range [OF r(1,2) rect r(3,4)] yr xr
  have "place d x y t =
     (None, d\<lparr>next_obj := Suc (next_obj d),
        tiles := (tiles d)[nat y := (tiles d ! nat y)[nat x := Some t]]\<rparr>)" for t
    by simp
  with nf hdr px py show ?thesis
    by (simp add: process_logic_tile_def process_io_tile_def process_ramb_tile_def
        process_ramt_tile_def)
qed

theorem placement_without_schema_counterexample:
  "process_logic_tile example_device
       \<lparr>section_type = ''logic_tile'', header = [''0'', ''0''], body = []\<rparr>
     = (None, example_device\<lparr>next_obj := 1,
          tiles := [[Some (Logic (LogicTile_init 0 0 0 None)), None], [None, None]]\<rparr>)"
  by (simp add: process_logic_tile_def place_def put_tile_def py_getitem_def py_setitem_def
      py_index_def bindE_def example_device_def py_int_defs)

theorem placement_without_schema_witness:
  "process_io_tile (example_device\<lparr>logic_tile_bit_config := Some example_logic_config\<rparr>)
       \<lparr>section_type = ''io_tile'', header = [''1'', ''0''], body = []\<rparr>
     = (None, example_device\<lparr>logic_tile_bit_config := Some example_logic_config, next_obj := 1,
          tiles := [[None, Some (Io (IoTile_init 0 1 0 None))], [None, None]]\<rparr>)"
proof -
  have p: "py_int ''1'' = Inr 1" "py_int ''0'' = Inr 0" by (simp_all add: py_int_defs)
  from placement_without_schema [of "example_device\<lparr>logic_tile_bit_config := Some example_logic_config\<rparr>"
      "\<lparr>section_type = ''io_tile'', header = [''1'', ''0''], body = []\<rparr>" "''1''" "''0''" 1 0 2]
    p show ?thesis by (simp add: example_device_def)
qed

text \<open>
  Claim C7, as amended. The grid is indexed as \<^verbatim>\<open>self._tiles[y][x]\<close>. A placement with
  \<open>y\<close> outside \<open>-height \<le> y < height\<close> or \<open>x\<close> outside \<open>-width \<le> x < width\<close> raises
  IndexError and leaves every cell as it was; inside these bounds each of the four
  methods succeeds and stores its new tile in the addressed cell, a negative coordinate
  addressing the cell counted from the end of its axis.
\<close>

theorem placement_out_of_range:
  assumes nf: "\<not> frozen d" and hdr: "header sec = [sx, sy]"
    and px: "py_int sx = Inr x" and py: "py_int sy = Inr y"
    and rect: "\<forall>row \<in> set (tiles d). length row = w"
  shows "(y < - int (length (tiles d)) \<or> int (length (tiles d)) \<le> y \<or> x < - int w \<or> int w \<le> x
      \<longrightarrow> process_logic_tile d sec = (Some IndexError, d\<lparr>next_obj := Suc (next_obj d)\<rparr>)
        \<and> process_io_tile d sec = (Some IndexError, d\<lparr>next_obj := Suc (next_obj d)\<rparr>)
        \<and> process_ramb_tile d sec = (Some IndexError, d\<lparr>next_obj := Suc (next_obj d)\<rparr>)
        \<and> process_ramt_tile d sec = (Some IndexError, d\<lparr>next_obj := Suc (next_obj d)\<rparr>)
        \<and> tiles (d\<lparr>next_obj := Suc (next_obj d)\<rparr>) = tiles d)
    \<and> (- int (length (tiles d)) \<le> y \<and> y < int (length (tiles d)) \<and> - int w \<le> x \<and> x < int w
      \<longrightarrow> process_logic_tile d sec =
          (None, d\<lparr>next_obj := Suc (next_obj d),
            tiles := (tiles d)[nat (if y < 0 then y + int (length (tiles d)) else y) :=
              (tiles d ! nat (if y < 0 then y + int (length (tiles d)) else y))
                [nat (if x < 0 then x + int w else x) :=
                  Some (Logic (LogicTile_init (next_obj d) x y (logic_tile_bit_config d)))]]\<rparr>)
        \<and> process_io_tile d sec =
          (None, d\<lparr>next_obj := Suc (next_obj d),
            tiles := (tiles d)[nat (if y < 0 then y + int (length (tiles d)) else y) :=
              (tiles d ! nat (if y < 0 then y + int (length (tiles d)) else y))
                [nat (if x < 0 then x + int w else x) :=
                  Some (Io (IoTile_init (next_obj d) x y (io_tile_bit_config d)))]]\<rparr>)
        \<and> process_ramb_tile d sec =
          (None, d\<lparr>next_obj := Suc (next_obj d),
            tiles := (tiles d)[nat (if y < 0 then y + int (length (tiles d)) else y) :=
              (tiles d ! nat (if y < 0 then y + int (length (tiles d)) else y))
                [nat (if x < 0 then x + int w else x) :=
                  Some (Ramb (RambTile_init (next_obj d) x y (ramb_tile_bits_config d)))]]\<rparr>)
        \<and> process_ramt_tile d sec =
          (None, d\<lparr>next_obj := Suc (next_obj d),
            tiles := (tiles d)[nat (if y < 0 then y + int (length (tiles d)) else y) :=
              (tiles d ! nat (if y < 0 then y + int (length (tiles d)) else y))
                [nat (if x < 0 then x + int w else x) :=
                  Some (Ramt (RamtTile_init (next_obj d) x y (ramt_tile_bits_config d)))]]\<rparr>))"
  using nf hdr px py place_out_of_range [OF rect] place_in_range [OF _ _ rect]
  by (simp add: process_logic_tile_def process_io_tile_def process_ramb_tile_def
      process_ramt_tile_def del: if_split cong: if_cong)

theorem placement_out_of_range_counterexample:
  "process_logic_tile example_device
       \<lparr>section_type = ''logic_tile'', header = [''-1'', ''-1''], body = []\<rparr>
     = (None, example_device\<lparr>next_obj := 1,
          tiles := [[None, None], [None, Some (Logic (LogicTile_init 0 (- 1) (- 1) None))]]\<rparr>)"
  by (simp add: process_logic_tile_def place_def put_tile_def py_getitem_def py_setitem_def
      py_index_def bindE_def example_device_def py_int_defs)

theorem placement_out_of_range_witness:
  "process_ramb_tile example_device
       \<lparr>section_type = ''ramb_tile'', header = [''2'', ''0''], body = []\<rparr>
     = (Some IndexError, example_device\<lparr>next_obj := 1\<rparr>)
   \<and> process_ramt_tile example_device
       \<lparr>section_type = ''ramt_tile'', header = [''-2'', ''1''], body = []\<rparr>
     = (None, example_device\<lparr>next_obj := 1,
          tiles := [[None, None], [Some (Ramt (RamtTile_init 0 (- 2) 1 None)), None]]\<rparr>)"
proof -
  have p: "py_int ''2'' = Inr 2" "py_int ''0'' = Inr 0" "py_int ''-2'' = Inr (- 2)"
      "py_int ''1'' = Inr 1" by (simp_all add: py_int_defs)
  from placement_out_of_range [of example_device
      "\<lparr>section_type = ''ramb_tile'', header = [''2'', ''0''], body = []\<rparr>" "''2''" "''0''" 2 0 2]
    placement_out_of_range [of example_device
      "\<lparr>section_type = ''ramt_tile'', header = [''-2'', ''1''], body = []\<rparr>" "''-2''" "''1''" "- 2" 1 2]
    p show ?thesis by (simp add: example_device_def)
qed

section \<open>Schema ingestion\<close>

subsection \<open>Overlays\<close>

lemma rebind_simps: "rebind None old = old" "rebind (Some v) old = Some v"
  by (simp_all add: rebind_def)

lemma is_bound_simps: "is_bound None = False" "is_bound (Some v) = True"
  by (simp_all add: is_bound_def)

lemma populated_rebind: "is_bound (rebind a b) \<longleftrightarrow> is_bound a \<or> is_bound b"
  by (cases a) (simp_all add: rebind_simps is_bound_simps)

lemma populated_map2_rebind:
  "map is_bound (map2 rebind xs ys) = map2 (\<or>) (map is_bound xs) (map is_bound ys)"
proof (induction xs arbitrary: ys)
  case Nil
  then show ?case by simp
next
  case (Cons x xs)
  then show ?case by (cases ys) (simp_all add: populated_rebind)
qed

lemma populated_zip_rebind:
  "map (is_bound \<circ> (\<lambda>(x, y). rebind x y)) (zip xs ys)
     = map2 (\<or>) (map is_bound xs) (map is_bound ys)"
  using populated_map2_rebind [of xs ys] by simp

lemma unbound_in_list: "False \<in> is_bound ` set xs \<longleftrightarrow> None \<in> set xs"
  by (auto simp: is_bound_def image_iff)

lemma not_bound: "\<not> is_bound s \<longleftrightarrow> s = None"
  by (simp add: is_bound_def)

lemma all_bound_replicate: "map is_bound (replicate n None) = replicate n False"
  by (simp add: is_bound_simps)

lemma map2_rebind_replicate:
  "length xs = n \<Longrightarrow> map2 rebind (replicate n None) xs = xs"
  by (induction xs arbitrary: n) (auto simp: rebind_simps)

lemma map2_rebind_update:
  "length xs = n \<Longrightarrow> map2 rebind ((replicate n None)[j := Some c]) xs = xs[j := Some c]"
proof (induction xs arbitrary: n j)
  case Nil
  then show ?case by simp
next
  case (Cons x xs)
  then obtain m where n: "n = Suc m" by (cases n) auto
  with Cons show ?case
    by (cases j) (auto simp: map2_rebind_replicate rebind_simps)
qed

lemma bindE_simps:
  "bindE (Inr x) f = f x"
  "bindE (Inl e) f = Inl e"
  "bindE (bindE m f) g = bindE m (\<lambda>x. bindE (f x) g)"
  "bindE (if b then p else q) g = (if b then bindE p g else bindE q g)"
  "bindE (case opt of None \<Rightarrow> z | Some n \<Rightarrow> h n) g
     = (case opt of None \<Rightarrow> bindE z g | Some n \<Rightarrow> bindE (h n) g)"
  by (simp_all add: bindE_def split: sum.splits option.splits)

lemma okE_simps:
  "okE P (Inr x) = P x"
  "okE P (Inl e) = True"
  "okE P (bindE m f) = okE (\<lambda>x. okE P (f x)) m"
  "okE P (if b then p else q) = (if b then okE P p else okE P q)"
  "okE P (case opt of None \<Rightarrow> z | Some n \<Rightarrow> h n)
     = (case opt of None \<Rightarrow> okE P z | Some n \<Rightarrow> okE P (h n))"
  "okE (\<lambda>x. True) m = True"
  "(case opt of None \<Rightarrow> True | Some n \<Rightarrow> True) = True"
  by (simp_all add: okE_def bindE_def split: sum.splits option.splits)

lemma run_lines_overlay:
  assumes init: "good init"
    and law: "\<And>st l. good st \<Longrightarrow> step st l = bindE (step init l) (\<lambda>new. Inr (ov st new))"
    and pres: "\<And>st new l. good st \<Longrightarrow> step init l = Inr new \<Longrightarrow> good (ov st new)"
  shows "run_lines step init ls = overlay_lines ov (step init) init ls"
proof -
  have "good st \<Longrightarrow> run_lines step st ls = overlay_lines ov (step init) st ls" for st
  proof (induction ls arbitrary: st)
    case Nil
    then show ?case by simp
  next
    case (Cons l ls)
    show ?case
    proof (cases "step init l")
      case (Inl e)
      with law [OF Cons.prems, of l] show ?thesis by (simp add: bindE_def)
    next
      case (Inr new)
      with law [OF Cons.prems, of l] have s: "step st l = Inr (ov st new)"
        by (simp add: bindE_def)
      from pres [OF Cons.prems Inr] have "good (ov st new)" .
      from Cons.IH [OF this] s Inr show ?thesis by (simp add: bindE_def)
    qed
  qed
  from this [OF init] show ?thesis .
qed

lemma overlay_lines_reads:
  "(\<forall>l \<in> set ls. line_reads alone l) \<longleftrightarrow> (\<exists>st'. overlay_lines ov alone st ls = Inr st')"
proof (induction ls arbitrary: st)
  case Nil
  then show ?case by simp
next
  case (Cons l ls)
  show ?case
  proof (cases "alone l")
    case (Inl e)
    then show ?thesis by (simp add: line_reads_def bindE_def)
  next
    case (Inr new)
    with Cons [of "ov st new"] show ?thesis by (simp add: line_reads_def bindE_def)
  qed
qed

lemma overlay_lines_populated:
  assumes step: "\<And>st new l. good st \<Longrightarrow> alone l = Inr new \<Longrightarrow>
        good (ov st new) \<and> pop (ov st new) = map2 (\<or>) (pop new) (pop st)"
    and len: "\<And>st. good st \<Longrightarrow> length (pop st) = n"
    and lenn: "\<And>new l. alone l = Inr new \<Longrightarrow> length (pop new) = n"
    and good: "good st" and run: "overlay_lines ov alone st ls = Inr st'"
  shows "good st' \<and> (\<forall>i < n. pop st' ! i
       \<longleftrightarrow> pop st ! i \<or> (\<exists>l \<in> set ls. line_populates alone pop l i))"
  using good run
proof (induction ls arbitrary: st)
  case Nil
  then show ?case by simp
next
  case (Cons l ls)
  from Cons.prems(2) obtain new where new: "alone l = Inr new"
      and rest: "overlay_lines ov alone (ov st new) ls = Inr st'"
    by (cases "alone l") (simp_all add: bindE_def)
  from step [OF Cons.prems(1) new]
  have w: "good (ov st new)" and p: "pop (ov st new) = map2 (\<or>) (pop new) (pop st)"
    by simp_all
  from Cons.IH [OF w rest]
  have ih: "good st'" "\<forall>i < n. pop st' ! i
       \<longleftrightarrow> pop (ov st new) ! i \<or> (\<exists>l \<in> set ls. line_populates alone pop l i)"
    by simp_all
  have "pop (ov st new) ! i \<longleftrightarrow> pop new ! i \<or> pop st ! i" if "i < n" for i
    using that p len [OF Cons.prems(1)] lenn [OF new] by simp
  with ih new show ?case
    by (auto simp: line_populates_def)
qed

subsection \<open>Logic-tile schema\<close>

text \<open>
  A line read on any slots fails exactly when it fails read alone, and otherwise gives the
  overlay of what it binds alone; so the loop is the overlay of its lines, and a slot is
  bound at the end exactly when some line binds it.
\<close>

lemma logic_overlay_simps:
  assumes "logic_wf st"
  shows "logic_overlay st logic_slots_init = st"
    and "logic_overlay st (logic_slots_init\<lparr>carry_in_set_slot := Some c\<rparr>)
      = st\<lparr>carry_in_set_slot := Some c\<rparr>"
    and "logic_overlay st (logic_slots_init\<lparr>col_buf_ctrl_set_slots := (replicate 8 None)[j := Some c]\<rparr>)
      = st\<lparr>col_buf_ctrl_set_slots := (col_buf_ctrl_set_slots st)[j := Some c]\<rparr>"
    and "logic_overlay st (logic_slots_init\<lparr>lc_set_slots := (replicate 8 None)[j := Some cs]\<rparr>)
      = st\<lparr>lc_set_slots := (lc_set_slots st)[j := Some cs]\<rparr>"
    and "logic_overlay st (logic_slots_init\<lparr>neg_clk_set_slot := Some c\<rparr>)
      = st\<lparr>neg_clk_set_slot := Some c\<rparr>"
  using assms
  by (cases st; simp add: logic_overlay_def logic_slots_init_def logic_wf_def rebind_simps
      map2_rebind_replicate map2_rebind_update)+

lemma logic_init_lists:
  "col_buf_ctrl_set_slots logic_slots_init = replicate 8 None"
  "lc_set_slots logic_slots_init = replicate 8 None"
  by (simp_all add: logic_slots_init_def)

lemma logic_wf_init:
  "logic_wf logic_slots_init"
  "logic_wf (logic_slots_init\<lparr>carry_in_set_slot := v0\<rparr>)"
  "logic_wf (logic_slots_init\<lparr>col_buf_ctrl_set_slots := (replicate 8 None)[j := w1]\<rparr>)"
  "logic_wf (logic_slots_init\<lparr>lc_set_slots := (replicate 8 None)[j := w2]\<rparr>)"
  "logic_wf (logic_slots_init\<lparr>neg_clk_set_slot := v3\<rparr>)"
  by (simp_all add: logic_wf_def logic_slots_init_def)

lemma logic_line_law:
  assumes "logic_wf st"
  shows "logic_line st l = bindE (logic_line logic_slots_init l) (\<lambda>new. Inr (logic_overlay st new))"
proof -
  from assms have len: "length (col_buf_ctrl_set_slots st) = 8" "length (lc_set_slots st) = 8"
    by (simp_all add: logic_wf_def)
  show ?thesis
    by (simp add: logic_line_def py_setitem_def bindE_simps len logic_init_lists
        logic_overlay_simps [OF assms] cong: if_cong option.case_cong)
qed

lemma logic_line_wf: "okE logic_wf (logic_line logic_slots_init l)"
  by (simp add: logic_line_def py_setitem_def okE_simps logic_init_lists logic_wf_init
      cong: if_cong option.case_cong)

lemma logic_overlay_wf:
  assumes "logic_wf st" and "logic_line logic_slots_init l = Inr new"
  shows "logic_wf (logic_overlay st new)
     \<and> logic_populated (logic_overlay st new)
         = map2 (\<or>) (logic_populated new) (logic_populated st)"
proof -
  from logic_line_wf [of l] assms(2) have "logic_wf new" by (simp add: okE_def)
  with assms(1) show ?thesis
    by (simp add: logic_wf_def logic_overlay_def logic_populated_def populated_rebind
        populated_zip_rebind)
qed

lemma logic_run_lines:
  "run_lines logic_line logic_slots_init ls
     = overlay_lines logic_overlay (logic_line logic_slots_init) logic_slots_init ls"
  using logic_wf_init(1) logic_line_law logic_overlay_wf
  by (intro run_lines_overlay [where good = logic_wf]) blast+

lemma logic_populated_length: "logic_wf st \<Longrightarrow> length (logic_populated st) = 18"
  by (simp add: logic_wf_def logic_populated_def)

lemma logic_populated_init: "i < 18 \<Longrightarrow> \<not> logic_populated logic_slots_init ! i"
proof -
  have "set (logic_populated logic_slots_init) \<subseteq> {False}"
    by (auto simp: logic_populated_def logic_slots_init_def is_bound_simps)
  moreover assume "i < 18"
  then have "logic_populated logic_slots_init ! i \<in> set (logic_populated logic_slots_init)"
    using logic_populated_length [OF logic_wf_init(1)] by (intro nth_mem) simp
  ultimately show ?thesis by blast
qed

lemma logic_incomplete_populated:
  "logic_incomplete st \<longleftrightarrow> False \<in> set (logic_populated st)"
  by (auto simp: logic_incomplete_def logic_populated_def unbound_in_list not_bound)

lemma logic_lines_populated:
  assumes "overlay_lines logic_overlay (logic_line logic_slots_init) logic_slots_init ls = Inr st"
  shows "logic_wf st \<and> (\<forall>i < 18. logic_populated st ! i
       \<longleftrightarrow> (\<exists>l \<in> set ls. line_populates (logic_line logic_slots_init) logic_populated l i))"
proof -
  have "logic_wf st \<and> (\<forall>i < 18. logic_populated st ! i
       \<longleftrightarrow> logic_populated logic_slots_init ! i
         \<or> (\<exists>l \<in> set ls. line_populates (logic_line logic_slots_init) logic_populated l i))"
  proof (rule overlay_lines_populated [where good = logic_wf and pop = logic_populated
        and n = 18 and alone = "logic_line logic_slots_init" and ov = logic_overlay
        and st = logic_slots_init])
    show "\<And>st new l. logic_wf st \<Longrightarrow> logic_line logic_slots_init l = Inr new \<Longrightarrow>
        logic_wf (logic_overlay st new)
        \<and> logic_populated (logic_overlay st new)
            = map2 (\<or>) (logic_populated new) (logic_populated st)"
      by (rule logic_overlay_wf)
    show "\<And>st. logic_wf st \<Longrightarrow> length (logic_populated st) = 18"
      by (rule logic_populated_length)
    show "\<And>new l. logic_line logic_slots_init l = Inr new \<Longrightarrow> length (logic_populated new) = 18"
    proof -
      fix new l
      assume "logic_line logic_slots_init l = Inr new"
      with logic_line_wf [of l] have "logic_wf new" by (simp add: okE_def)
      then show "length (logic_populated new) = 18" by (rule logic_populated_length)
    qed
    show "logic_wf logic_slots_init" by (rule logic_wf_init(1))
    show "overlay_lines logic_overlay (logic_line logic_slots_init) logic_slots_init ls = Inr st"
      by (rule assms)
  qed
  then show ?thesis by (simp add: logic_populated_init)
qed

subsection \<open>IO-tile schema\<close>

lemma io_overlay_simps:
  assumes "io_wf st"
  shows "io_overlay st io_slots_init = st"
    and "io_overlay st (io_slots_init\<lparr>io_col_buf_ctrl_set_slots := (replicate 8 None)[j := Some c]\<rparr>)
      = st\<lparr>io_col_buf_ctrl_set_slots := (io_col_buf_ctrl_set_slots st)[j := Some c]\<rparr>"
    and "io_overlay st (io_slots_init\<lparr>iob_0_pintype_slots := (replicate 6 None)[j := Some c]\<rparr>)
      = st\<lparr>iob_0_pintype_slots := (iob_0_pintype_slots st)[j := Some c]\<rparr>"
    and "io_overlay st (io_slots_init\<lparr>iob_1_pintype_slots := (replicate 6 None)[j := Some c]\<rparr>)
      = st\<lparr>iob_1_pintype_slots := (iob_1_pintype_slots st)[j := Some c]\<rparr>"
    and "io_overlay st (io_slots_init\<lparr>icegate_slot := Some c\<rparr>)
      = st\<lparr>icegate_slot := Some c\<rparr>"
    and "io_overlay st (io_slots_init\<lparr>io_ctrl_ie_0_slot := Some c\<rparr>)
      = st\<lparr>io_ctrl_ie_0_slot := Some c\<rparr>"
    and "io_overlay st (io_slots_init\<lparr>io_ctrl_ie_1_slot := Some c\<rparr>)
      = st\<lparr>io_ctrl_ie_1_slot := Some c\<rparr>"
    and "io_overlay st (io_slots_init\<lparr>io_ctrl_lvds_slot := Some c\<rparr>)
      = st\<lparr>io_ctrl_lvds_slot := Some c\<rparr>"
    and "io_overlay st (io_slots_init\<lparr>io_ctrl_ren_0_slot := Some c\<rparr>)
      = st\<lparr>io_ctrl_ren_0_slot := Some c\<rparr>"
    and "io_overlay st (io_slots_init\<lparr>io_ctrl_ren_1_slot := Some c\<rparr>)
      = st\<lparr>io_ctrl_ren_1_slot := Some c\<rparr>"
    and "io_overlay st (io_slots_init\<lparr>io_negclk_slot := Some c\<rparr>)
      = st\<lparr>io_negclk_slot := Some c\<rparr>"
    and "io_overlay st (io_slots_init\<lparr>pll_config_slots := (replicate 9 None)[j := Some c]\<rparr>)
      = st\<lparr>pll_config_slots := (pll_config_slots st)[j := Some c]\<rparr>"
  using assms
  by (cases st; simp add: io_overlay_def io_slots_init_def io_wf_def rebind_simps
      map2_rebind_replicate map2_rebind_update)+

lemma io_init_lists:
  "io_col_buf_ctrl_set_slots io_slots_init = replicate 8 None"
  "iob_0_pintype_slots io_slots_init = replicate 6 None"
  "iob_1_pintype_slots io_slots_init = replicate 6 None"
  "pll_config_slots io_slots_init = replicate 9 None"
  by (simp_all add: io_slots_init_def)

lemma io_wf_init:
  "io_wf io_slots_init"
  "io_wf (io_slots_init\<lparr>io_col_buf_ctrl_set_slots := (replicate 8 None)[j := w0]\<rparr>)"
  "io_wf (io_slots_init\<lparr>iob_0_pintype_slots := (replicate 6 None)[j := w1]\<rparr>)"
  "io_wf (io_slots_init\<lparr>iob_1_pintype_slots := (replicate 6 None)[j := w2]\<rparr>)"
  "io_wf (io_slots_init\<lparr>icegate_slot := v3\<rparr>)"
  "io_wf (io_slots_init\<lparr>io_ctrl_ie_0_slot := v4\<rparr>)"
  "io_wf (io_slots_init\<lparr>io_ctrl_ie_1_slot := v5\<rparr>)"
  "io_wf (io_slots_init\<lparr>io_ctrl_lvds_slot := v6\<rparr>)"
  "io_wf (io_slots_init\<lparr>io_ctrl_ren_0_slot := v7\<rparr>)"
  "io_wf (io_slots_init\<lparr>io_ctrl_ren_1_slot := v8\<rparr>)"
  "io_wf (io_slots_init\<lparr>io_negclk_slot := v9\<rparr>)"
  "io_wf (io_slots_init\<lparr>pll_config_slots := (replicate 9 None)[j := w10]\<rparr>)"
  by (simp_all add: io_wf_def io_slots_init_def)

lemma io_line_law:
  assumes "io_wf st"
  shows "io_line st l = bindE (io_line io_slots_init l) (\<lambda>new. Inr (io_overlay st new))"
proof -
  from assms have len: "length (io_col_buf_ctrl_set_slots st) = 8" "length (iob_0_pintype_slots st) = 6" "length (iob_1_pintype_slots st) = 6" "length (pll_config_slots st) = 9"
    by (simp_all add: io_wf_def)
  show ?thesis
    by (simp add: io_line_def py_setitem_def bindE_simps len io_init_lists
        io_overlay_simps [OF assms] cong: if_cong option.case_cong)
qed

lemma io_line_wf: "okE io_wf (io_line io_slots_init l)"
  by (simp add: io_line_def py_setitem_def okE_simps io_init_lists io_wf_init
      cong: if_cong option.case_cong)

lemma io_overlay_wf:
  assumes "io_wf st" and "io_line io_slots_init l = Inr new"
  shows "io_wf (io_overlay st new)
     \<and> io_populated (io_overlay st new)
         = map2 (\<or>) (io_populated new) (io_populated st)"
proof -
  from io_line_wf [of l] assms(2) have "io_wf new" by (simp add: okE_def)
  with assms(1) show ?thesis
    by (simp add: io_wf_def io_overlay_def io_populated_def populated_rebind
        populated_zip_rebind)
qed

lemma io_run_lines:
  "run_lines io_line io_slots_init ls
     = overlay_lines io_overlay (io_line io_slots_init) io_slots_init ls"
  using io_wf_init(1) io_line_law io_overlay_wf
  by (intro run_lines_overlay [where good = io_wf]) blast+

lemma io_populated_length: "io_wf st \<Longrightarrow> length (io_populated st) = 36"
  by (simp add: io_wf_def io_populated_def)

lemma io_populated_init: "i < 36 \<Longrightarrow> \<not> io_populated io_slots_init ! i"
proof -
  have "set (io_populated io_slots_init) \<subseteq> {False}"
    by (auto simp: io_populated_def io_slots_init_def is_bound_simps)
  moreover assume "i < 36"
  then have "io_populated io_slots_init ! i \<in> set (io_populated io_slots_init)"
    using io_populated_length [OF io_wf_init(1)] by (intro nth_mem) simp
  ultimately show ?thesis by blast
qed

lemma io_incomplete_populated:
  "io_incomplete st \<longleftrightarrow> False \<in> set (io_populated st)"
  by (auto simp: io_incomplete_def io_populated_def unbound_in_list not_bound)

lemma io_lines_populated:
  assumes "overlay_lines io_overlay (io_line io_slots_init) io_slots_init ls = Inr st"
  shows "io_wf st \<and> (\<forall>i < 36. io_populated st ! i
       \<longleftrightarrow> (\<exists>l \<in> set ls. line_populates (io_line io_slots_init) io_populated l i))"
proof -
  have "io_wf st \<and> (\<forall>i < 36. io_populated st ! i
       \<longleftrightarrow> io_populated io_slots_init ! i
         \<or> (\<exists>l \<in> set ls. line_populates (io_line io_slots_init) io_populated l i))"
  proof (rule overlay_lines_populated [where good = io_wf and pop = io_populated
        and n = 36 and alone = "io_line io_slots_init" and ov = io_overlay
        and st = io_slots_init])
    show "\<And>st new l. io_wf st \<Longrightarrow> io_line io_slots_init l = Inr new \<Longrightarrow>
        io_wf (io_overlay st new)
        \<and> io_populated (io_overlay st new)
            = map2 (\<or>) (io_populated new) (io_populated st)"
      by (rule io_overlay_wf)
    show "\<And>st. io_wf st \<Longrightarrow> length (io_populated st) = 36"
      by (rule io_populated_length)
    show "\<And>new l. io_line io_slots_init l = Inr new \<Longrightarrow> length (io_populated new) = 36"
    proof -
      fix new l
      assume "io_line io_slots_init l = Inr new"
      with io_line_wf [of l] have "io_wf new" by (simp add: okE_def)
      then show "length (io_populated new) = 36" by (rule io_populated_length)
    qed
    show "io_wf io_slots_init" by (rule io_wf_init(1))
    show "overlay_lines io_overlay (io_line io_slots_init) io_slots_init ls = Inr st"
      by (rule assms)
  qed
  then show ?thesis by (simp add: io_populated_init)
qed

subsection \<open>RAM-bottom schema\<close>

lemma ramb_overlay_simps:
  assumes "ramb_wf st"
  shows "ramb_overlay st ramb_slots_init = st"
    and "ramb_overlay st (ramb_slots_init\<lparr>ramb_col_buf_ctrl_set_slots := (replicate 8 None)[j := Some c]\<rparr>)
      = st\<lparr>ramb_col_buf_ctrl_set_slots := (ramb_col_buf_ctrl_set_slots st)[j := Some c]\<rparr>"
    and "ramb_overlay st (ramb_slots_init\<lparr>ramb_negclk_slot := Some c\<rparr>)
      = st\<lparr>ramb_negclk_slot := Some c\<rparr>"
    and "ramb_overlay st (ramb_slots_init\<lparr>ram_config_powerup_slot := Some c\<rparr>)
      = st\<lparr>ram_config_powerup_slot := Some c\<rparr>"
  using assms
  by (cases st; simp add: ramb_overlay_def ramb_slots_init_def ramb_wf_def rebind_simps
      map2_rebind_replicate map2_rebind_update)+

lemma ramb_init_lists:
  "ramb_col_buf_ctrl_set_slots ramb_slots_init = replicate 8 None"
  by (simp_all add: ramb_slots_init_def)

lemma ramb_wf_init:
  "ramb_wf ramb_slots_init"
  "ramb_wf (ramb_slots_init\<lparr>ramb_col_buf_ctrl_set_slots := (replicate 8 None)[j := w0]\<rparr>)"
  "ramb_wf (ramb_slots_init\<lparr>ramb_negclk_slot := v1\<rparr>)"
  "ramb_wf (ramb_slots_init\<lparr>ram_config_powerup_slot := v2\<rparr>)"
  by (simp_all add: ramb_wf_def ramb_slots_init_def)

lemma ramb_line_law:
  assumes "ramb_wf st"
  shows "ramb_line st l = bindE (ramb_line ramb_slots_init l) (\<lambda>new. Inr (ramb_overlay st new))"
proof -
  from assms have len: "length (ramb_col_buf_ctrl_set_slots st) = 8"
    by (simp_all add: ramb_wf_def)
  show ?thesis
    by (simp add: ramb_line_def py_setitem_def bindE_simps len ramb_init_lists
        ramb_overlay_simps [OF assms] cong: if_cong option.case_cong)
qed

lemma ramb_line_wf: "okE ramb_wf (ramb_line ramb_slots_init l)"
  by (simp add: ramb_line_def py_setitem_def okE_simps ramb_init_lists ramb_wf_init
      cong: if_cong option.case_cong)

lemma ramb_overlay_wf:
  assumes "ramb_wf st" and "ramb_line ramb_slots_init l = Inr new"
  shows "ramb_wf (ramb_overlay st new)
     \<and> ramb_populated (ramb_overlay st new)
         = map2 (\<or>) (ramb_populated new) (ramb_populated st)"
proof -
  from ramb_line_wf [of l] assms(2) have "ramb_wf new" by (simp add: okE_def)
  with assms(1) show ?thesis
    by (simp add: ramb_wf_def ramb_overlay_def ramb_populated_def populated_rebind
        populated_zip_rebind)
qed

lemma ramb_run_lines:
  "run_lines ramb_line ramb_slots_init ls
     = overlay_lines ramb_overlay (ramb_line ramb_slots_init) ramb_slots_init ls"
  using ramb_wf_init(1) ramb_line_law ramb_overlay_wf
  by (intro run_lines_overlay [where good = ramb_wf]) blast+

lemma ramb_populated_length: "ramb_wf st \<Longrightarrow> length (ramb_populated st) = 10"
  by (simp add: ramb_wf_def ramb_populated_def)

lemma ramb_populated_init: "i < 10 \<Longrightarrow> \<not> ramb_populated ramb_slots_init ! i"
proof -
  have "set (ramb_populated ramb_slots_init) \<subseteq> {False}"
    by (auto simp: ramb_populated_def ramb_slots_init_def is_bound_simps)
  moreover assume "i < 10"
  then have "ramb_populated ramb_slots_init ! i \<in> set (ramb_populated ramb_slots_init)"
    using ramb_populated_length [OF ramb_wf_init(1)] by (intro nth_mem) simp
  ultimately show ?thesis by blast
qed

lemma ramb_incomplete_populated:
  "ramb_incomplete st \<longleftrightarrow> False \<in> set (ramb_populated st)"
  by (auto simp: ramb_incomplete_def ramb_populated_def unbound_in_list not_bound)

lemma ramb_lines_populated:
  assumes "overlay_lines ramb_overlay (ramb_line ramb_slots_init) ramb_slots_init ls = Inr st"
  shows "ramb_wf st \<and> (\<forall>i < 10. ramb_populated st ! i
       \<longleftrightarrow> (\<exists>l \<in> set ls. line_populates (ramb_line ramb_slots_init) ramb_populated l i))"
proof -
  have "ramb_wf st \<and> (\<forall>i < 10. ramb_populated st ! i
       \<longleftrightarrow> ramb_populated ramb_slots_init ! i
         \<or> (\<exists>l \<in> set ls. line_populates (ramb_line ramb_slots_init) ramb_populated l i))"
  proof (rule overlay_lines_populated [where good = ramb_wf and pop = ramb_populated
        and n = 10 and alone = "ramb_line ramb_slots_init" and ov = ramb_overlay
        and st = ramb_slots_init])
    show "\<And>st new l. ramb_wf st \<Longrightarrow> ramb_line ramb_slots_init l = Inr new \<Longrightarrow>
        ramb_wf (ramb_overlay st new)
        \<and> ramb_populated (ramb_overlay st new)
            = map2 (\<or>) (ramb_populated new) (ramb_populated st)"
      by (rule ramb_overlay_wf)
    show "\<And>st. ramb_wf st \<Longrightarrow> length (ramb_populated st) = 10"
      by (rule ramb_populated_length)
    show "\<And>new l. ramb_line ramb_slots_init l = Inr new \<Longrightarrow> length (ramb_populated new) = 10"
    proof -
      fix new l
      assume "ramb_line ramb_slots_init l = Inr new"
      with ramb_line_wf [of l] have "ramb_wf new" by (simp add: okE_def)
      then show "length (ramb_populated new) = 10" by (rule ramb_populated_length)
    qed
    show "ramb_wf ramb_slots_init" by (rule ramb_wf_init(1))
    show "overlay_lines ramb_overlay (ramb_line ramb_slots_init) ramb_slots_init ls = Inr st"
      by (rule assms)
  qed
  then show ?thesis by (simp add: ramb_populated_init)
qed

subsection \<open>RAM-top schema\<close>

lemma ramt_overlay_simps:
  assumes "ramt_wf st"
  shows "ramt_overlay st ramt_slots_init = st"
    and "ramt_overlay st (ramt_slots_init\<lparr>ramt_negclk_slot := Some c\<rparr>)
      = st\<lparr>ramt_negclk_slot := Some c\<rparr>"
    and "ramt_overlay st (ramt_slots_init\<lparr>ram_config_slots := (replicate 4 None)[j := Some c]\<rparr>)
      = st\<lparr>ram_config_slots := (ram_config_slots st)[j := Some c]\<rparr>"
    and "ramt_overlay st (ramt_slots_init\<lparr>ram_cascade_slots := (replicate 4 None)[j := Some c]\<rparr>)
      = st\<lparr>ram_cascade_slots := (ram_cascade_slots st)[j := Some c]\<rparr>"
  using assms
  by (cases st; simp add: ramt_overlay_def ramt_slots_init_def ramt_wf_def rebind_simps
      map2_rebind_replicate map2_rebind_update)+

lemma ramt_init_lists:
  "ram_config_slots ramt_slots_init = replicate 4 None"
  "ram_cascade_slots ramt_slots_init = replicate 4 None"
  by (simp_all add: ramt_slots_init_def)

lemma ramt_wf_init:
  "ramt_wf ramt_slots_init"
  "ramt_wf (ramt_slots_init\<lparr>ramt_negclk_slot := v0\<rparr>)"
  "ramt_wf (ramt_slots_init\<lparr>ram_config_slots := (replicate 4 None)[j := w1]\<rparr>)"
  "ramt_wf (ramt_slots_init\<lparr>ram_cascade_slots := (replicate 4 None)[j := w2]\<rparr>)"
  by (simp_all add: ramt_wf_def ramt_slots_init_def)

lemma ramt_line_law:
  assumes "ramt_wf st"
  shows "ramt_line st l = bindE (ramt_line ramt_slots_init l) (\<lambda>new. Inr (ramt_overlay st new))"
proof -
  from assms have len: "length (ram_config_slots st) = 4" "length (ram_cascade_slots st) = 4"
    by (simp_all add: ramt_wf_def)
  show ?thesis
    by (simp add: ramt_line_def py_setitem_def bindE_simps len ramt_init_lists
        ramt_overlay_simps [OF assms] cong: if_cong option.case_cong)
qed

lemma ramt_line_wf: "okE ramt_wf (ramt_line ramt_slots_init l)"
  by (simp add: ramt_line_def py_setitem_def okE_simps ramt_init_lists ramt_wf_init
      cong: if_cong option.case_cong)

lemma ramt_overlay_wf:
  assumes "ramt_wf st" and "ramt_line ramt_slots_init l = Inr new"
  shows "ramt_wf (ramt_overlay st new)
     \<and> ramt_populated (ramt_overlay st new)
         = map2 (\<or>) (ramt_populated new) (ramt_populated st)"
proof -
  from ramt_line_wf [of l] assms(2) have "ramt_wf new" by (simp add: okE_def)
  with assms(1) show ?thesis
    by (simp add: ramt_wf_def ramt_overlay_def ramt_populated_def populated_rebind
        populated_zip_rebind)
qed

lemma ramt_run_lines:
  "run_lines ramt_line ramt_slots_init ls
     = overlay_lines ramt_overlay (ramt_line ramt_slots_init) ramt_slots_init ls"
  using ramt_wf_init(1) ramt_line_law ramt_overlay_wf
  by (intro run_lines_overlay [where good = ramt_wf]) blast+

lemma ramt_populated_length: "ramt_wf st \<Longrightarrow> length (ramt_populated st) = 9"
  by (simp add: ramt_wf_def ramt_populated_def)

lemma ramt_populated_init: "i < 9 \<Longrightarrow> \<not> ramt_populated ramt_slots_init ! i"
proof -
  have "set (ramt_populated ramt_slots_init) \<subseteq> {False}"
    by (auto simp: ramt_populated_def ramt_slots_init_def is_bound_simps)
  moreover assume "i < 9"
  then have "ramt_populated ramt_slots_init ! i \<in> set (ramt_populated ramt_slots_init)"
    using ramt_populated_length [OF ramt_wf_init(1)] by (intro nth_mem) simp
  ultimately show ?thesis by blast
qed

lemma ramt_incomplete_populated:
  "ramt_incomplete st \<longleftrightarrow> False \<in> set (ramt_populated st)"
  by (auto simp: ramt_incomplete_def ramt_populated_def unbound_in_list not_bound)

lemma ramt_lines_populated:
  assumes "overlay_lines ramt_overlay (ramt_line ramt_slots_init) ramt_slots_init ls = Inr st"
  shows "ramt_wf st \<and> (\<forall>i < 9. ramt_populated st ! i
       \<longleftrightarrow> (\<exists>l \<in> set ls. line_populates (ramt_line ramt_slots_init) ramt_populated l i))"
proof -
  have "ramt_wf st \<and> (\<forall>i < 9. ramt_populated st ! i
       \<longleftrightarrow> ramt_populated ramt_slots_init ! i
         \<or> (\<exists>l \<in> set ls. line_populates (ramt_line ramt_slots_init) ramt_populated l i))"
  proof (rule overlay_lines_populated [where good = ramt_wf and pop = ramt_populated
        and n = 9 and alone = "ramt_line ramt_slots_init" and ov = ramt_overlay
        and st = ramt_slots_init])
    show "\<And>st new l. ramt_wf st \<Longrightarrow> ramt_line ramt_slots_init l = Inr new \<Longrightarrow>
        ramt_wf (ramt_overlay st new)
        \<and> ramt_populated (ramt_overlay st new)
            = map2 (\<or>) (ramt_populated new) (ramt_populated st)"
      by (rule ramt_overlay_wf)
    show "\<And>st. ramt_wf st \<Longrightarrow> length (ramt_populated st) = 9"
      by (rule ramt_populated_length)
    show "\<And>new l. ramt_line ramt_slots_init l = Inr new \<Longrightarrow> length (ramt_populated new) = 9"
    proof -
      fix new l
      assume "ramt_line ramt_slots_init l = Inr new"
      with ramt_line_wf [of l] have "ramt_wf new" by (simp add: okE_def)
      then show "length (ramt_populated new) = 9" by (rule ramt_populated_length)
    qed
    show "ramt_wf ramt_slots_init" by (rule ramt_wf_init(1))
    show "overlay_lines ramt_overlay (ramt_line ramt_slots_init) ramt_slots_init ls = Inr st"
      by (rule assms)
  qed
  then show ?thesis by (simp add: ramt_populated_init)
qed

subsection \<open>The four schema methods\<close>

lemma logic_ingestion:
  assumes nf: "\<not> frozen d" and hdr: "length (header sec) = 2"
    and pw: "py_int (header sec ! 0) = Inr w" and ph: "py_int (header sec ! 1) = Inr h"
  shows "run_lines logic_line logic_slots_init (body sec)
       = overlay_lines logic_overlay (logic_line logic_slots_init) logic_slots_init (body sec)
     \<and> ((\<forall>l \<in> set (body sec). line_reads (logic_line logic_slots_init) l)
        \<and> (\<exists>i < 18. \<forall>l \<in> set (body sec).
              \<not> line_populates (logic_line logic_slots_init) logic_populated l i)
       \<longrightarrow> process_logic_tile_bit_config d sec = (Some IncompleteSchema, d))
     \<and> ((\<forall>l \<in> set (body sec). line_reads (logic_line logic_slots_init) l)
        \<and> (\<forall>i < 18. \<exists>l \<in> set (body sec).
              line_populates (logic_line logic_slots_init) logic_populated l i)
       \<longrightarrow> (\<exists>st. overlay_lines logic_overlay (logic_line logic_slots_init) logic_slots_init (body sec)
               = Inr st
             \<and> process_logic_tile_bit_config d sec
               = (None, d\<lparr>logic_tile_bit_config := Some (logic_config_of w h st)\<rparr>)))"
proof -
  let ?alone = "logic_line logic_slots_init"
  let ?run = "overlay_lines logic_overlay ?alone logic_slots_init (body sec)"
  have a: "run_lines logic_line logic_slots_init (body sec) = ?run"
    by (rule logic_run_lines)
  have res: "process_logic_tile_bit_config d sec =
      (if logic_incomplete st then (Some IncompleteSchema, d)
       else (None, d\<lparr>logic_tile_bit_config := Some (logic_config_of w h st)\<rparr>))"
    if "?run = Inr st" for st
    using that nf hdr pw ph a
    by (simp add: process_logic_tile_bit_config_def parse_logic_tile_bit_config_def bindE_def)
  have b: "process_logic_tile_bit_config d sec = (Some IncompleteSchema, d)"
    if r: "\<forall>l \<in> set (body sec). line_reads ?alone l"
      and u: "\<exists>i < 18. \<forall>l \<in> set (body sec). \<not> line_populates ?alone logic_populated l i"
  proof -
    from r obtain st where st: "?run = Inr st"
      using overlay_lines_reads [of "body sec" ?alone logic_overlay logic_slots_init] by blast
    from u obtain i where i: "i < 18"
        "\<forall>l \<in> set (body sec). \<not> line_populates ?alone logic_populated l i"
      by blast
    from logic_lines_populated [OF st] i have w: "logic_wf st" and "\<not> logic_populated st ! i"
      by blast+
    moreover from w i(1) have "logic_populated st ! i \<in> set (logic_populated st)"
      by (intro nth_mem) (simp add: logic_populated_length)
    ultimately have "False \<in> set (logic_populated st)" by simp
    then have "logic_incomplete st" by (simp add: logic_incomplete_populated)
    with res [OF st] show ?thesis by simp
  qed
  have c: "\<exists>st. ?run = Inr st
      \<and> process_logic_tile_bit_config d sec
        = (None, d\<lparr>logic_tile_bit_config := Some (logic_config_of w h st)\<rparr>)"
    if r: "\<forall>l \<in> set (body sec). line_reads ?alone l"
      and p: "\<forall>i < 18. \<exists>l \<in> set (body sec). line_populates ?alone logic_populated l i"
  proof -
    from r obtain st where st: "?run = Inr st"
      using overlay_lines_reads [of "body sec" ?alone logic_overlay logic_slots_init] by blast
    from logic_lines_populated [OF st] p have w: "logic_wf st"
      and all: "\<forall>i < 18. logic_populated st ! i"
      by blast+
    have "False \<notin> set (logic_populated st)"
    proof
      assume "False \<in> set (logic_populated st)"
      then obtain i where "i < length (logic_populated st)" "\<not> logic_populated st ! i"
        by (metis in_set_conv_nth)
      with all w show False by (simp add: logic_populated_length)
    qed
    then have "\<not> logic_incomplete st" by (simp add: logic_incomplete_populated)
    with res [OF st] st show ?thesis by simp
  qed
  from a b c show ?thesis by blast
qed

lemma io_ingestion:
  assumes nf: "\<not> frozen d" and hdr: "length (header sec) = 2"
    and pw: "py_int (header sec ! 0) = Inr w" and ph: "py_int (header sec ! 1) = Inr h"
  shows "run_lines io_line io_slots_init (body sec)
       = overlay_lines io_overlay (io_line io_slots_init) io_slots_init (body sec)
     \<and> ((\<forall>l \<in> set (body sec). line_reads (io_line io_slots_init) l)
        \<and> (\<exists>i < 36. \<forall>l \<in> set (body sec).
              \<not> line_populates (io_line io_slots_init) io_populated l i)
       \<longrightarrow> process_io_tile_bit_config d sec = (Some IncompleteSchema, d))
     \<and> ((\<forall>l \<in> set (body sec). line_reads (io_line io_slots_init) l)
        \<and> (\<forall>i < 36. \<exists>l \<in> set (body sec).
              line_populates (io_line io_slots_init) io_populated l i)
       \<longrightarrow> (\<exists>st. overlay_lines io_overlay (io_line io_slots_init) io_slots_init (body sec)
               = Inr st
             \<and> process_io_tile_bit_config d sec
               = (None, d\<lparr>io_tile_bit_config := Some (io_config_of w h st)\<rparr>)))"
proof -
  let ?alone = "io_line io_slots_init"
  let ?run = "overlay_lines io_overlay ?alone io_slots_init (body sec)"
  have a: "run_lines io_line io_slots_init (body sec) = ?run"
    by (rule io_run_lines)
  have res: "process_io_tile_bit_config d sec =
      (if io_incomplete st then (Some IncompleteSchema, d)
       else (None, d\<lparr>io_tile_bit_config := Some (io_config_of w h st)\<rparr>))"
    if "?run = Inr st" for st
    using that nf hdr pw ph a
    by (simp add: process_io_tile_bit_config_def parse_io_tile_bit_config_def bindE_def)
  have b: "process_io_tile_bit_config d sec = (Some IncompleteSchema, d)"
    if r: "\<forall>l \<in> set (body sec). line_reads ?alone l"
      and u: "\<exists>i < 36. \<forall>l \<in> set (body sec). \<not> line_populates ?alone io_populated l i"
  proof -
    from r obtain st where st: "?run = Inr st"
      using overlay_lines_reads [of "body sec" ?alone io_overlay io_slots_init] by blast
    from u obtain i where i: "i < 36"
        "\<forall>l \<in> set (body sec). \<not> line_populates ?alone io_populated l i"
      by blast
    from io_lines_populated [OF st] i have w: "io_wf st" and "\<not> io_populated st ! i"
      by blast+
    moreover from w i(1) have "io_populated st ! i \<in> set (io_populated st)"
      by (intro nth_mem) (simp add: io_populated_length)
    ultimately have "False \<in> set (io_populated st)" by simp
    then have "io_incomplete st" by (simp add: io_incomplete_populated)
    with res [OF st] show ?thesis by simp
  qed
  have c: "\<exists>st. ?run = Inr st
      \<and> process_io_tile_bit_config d sec
        = (None, d\<lparr>io_tile_bit_config := Some (io_config_of w h st)\<rparr>)"
    if r: "\<forall>l \<in> set (body sec). line_reads ?alone l"
      and p: "\<forall>i < 36. \<exists>l \<in> set (body sec). line_populates ?alone io_populated l i"
  proof -
    from r obtain st where st: "?run = Inr st"
      using overlay_lines_reads [of "body sec" ?alone io_overlay io_slots_init] by blast
    from io_lines_populated [OF st] p have w: "io_wf st"
      and all: "\<forall>i < 36. io_populated st ! i"
      by blast+
    have "False \<notin> set (io_populated st)"
    proof
      assume "False \<in> set (io_populated st)"
      then obtain i where "i < length (io_populated st)" "\<not> io_populated st ! i"
        by (metis in_set_conv_nth)
      with all w show False by (simp add: io_populated_length)
    qed
    then have "\<not> io_incomplete st" by (simp add: io_incomplete_populated)
    with res [OF st] st show ?thesis by simp
  qed
  from a b c show ?thesis by blast
qed

lemma ramb_ingestion:
  assumes nf: "\<not> frozen d" and hdr: "length (header sec) = 2"
    and pw: "py_int (header sec ! 0) = Inr w" and ph: "py_int (header sec ! 1) = Inr h"
  shows "run_lines ramb_line ramb_slots_init (body sec)
       = overlay_lines ramb_overlay (ramb_line ramb_slots_init) ramb_slots_init (body sec)
     \<and> ((\<forall>l \<in> set (body sec). line_reads (ramb_line ramb_slots_init) l)
        \<and> (\<exists>i < 10. \<forall>l \<in> set (body sec).
              \<not> line_populates (ramb_line ramb_slots_init) ramb_populated l i)
       \<longrightarrow> process_ramb_tile_bit_config d sec = (Some IncompleteSchema, d))
     \<and> ((\<forall>l \<in> set (body sec). line_reads (ramb_line ramb_slots_init) l)
        \<and> (\<forall>i < 10. \<exists>l \<in> set (body sec).
              line_populates (ramb_line ramb_slots_init) ramb_populated l i)
       \<longrightarrow> (\<exists>st. overlay_lines ramb_overlay (ramb_line ramb_slots_init) ramb_slots_init (body sec)
               = Inr st
             \<and> process_ramb_tile_bit_config d sec
               = (None, d\<lparr>ramb_tile_bits_config := Some (ramb_config_of w h st)\<rparr>)))"
proof -
  let ?alone = "ramb_line ramb_slots_init"
  let ?run = "overlay_lines ramb_overlay ?alone ramb_slots_init (body sec)"
  have a: "run_lines ramb_line ramb_slots_init (body sec) = ?run"
    by (rule ramb_run_lines)
  have res: "process_ramb_tile_bit_config d sec =
      (if ramb_incomplete st then (Some IncompleteSchema, d)
       else (None, d\<lparr>ramb_tile_bits_config := Some (ramb_config_of w h st)\<rparr>))"
    if "?run = Inr st" for st
    using that nf hdr pw ph a
    by (simp add: process_ramb_tile_bit_config_def parse_ramb_tile_bit_config_def bindE_def)
  have b: "process_ramb_tile_bit_config d sec = (Some IncompleteSchema, d)"
    if r: "\<forall>l \<in> set (body sec). line_reads ?alone l"
      and u: "\<exists>i < 10. \<forall>l \<in> set (body sec). \<not> line_populates ?alone ramb_populated l i"
  proof -
    from r obtain st where st: "?run = Inr st"
      using overlay_lines_reads [of "body sec" ?alone ramb_overlay ramb_slots_init] by blast
    from u obtain i where i: "i < 10"
        "\<forall>l \<in> set (body sec). \<not> line_populates ?alone ramb_populated l i"
      by blast
    from ramb_lines_populated [OF st] i have w: "ramb_wf st" and "\<not> ramb_populated st ! i"
      by blast+
    moreover from w i(1) have "ramb_populated st ! i \<in> set (ramb_populated st)"
      by (intro nth_mem) (simp add: ramb_populated_length)
    ultimately have "False \<in> set (ramb_populated st)" by simp
    then have "ramb_incomplete st" by (simp add: ramb_incomplete_populated)
    with res [OF st] show ?thesis by simp
  qed
  have c: "\<exists>st. ?run = Inr st
      \<and> process_ramb_tile_bit_config d sec
        = (None, d\<lparr>ramb_tile_bits_config := Some (ramb_config_of w h st)\<rparr>)"
    if r: "\<forall>l \<in> set (body sec). line_reads ?alone l"
      and p: "\<forall>i < 10. \<exists>l \<in> set (body sec). line_populates ?alone ramb_populated l i"
  proof -
    from r obtain st where st: "?run = Inr st"
      using overlay_lines_reads [of "body sec" ?alone ramb_overlay ramb_slots_init] by blast
    from ramb_lines_populated [OF st] p have w: "ramb_wf st"
      and all: "\<forall>i < 10. ramb_populated st ! i"
      by blast+
    have "False \<notin> set (ramb_populated st)"
    proof
      assume "False \<in> set (ramb_populated st)"
      then obtain i where "i < length (ramb_populated st)" "\<not> ramb_populated st ! i"
        by (metis in_set_conv_nth)
      with all w show False by (simp add: ramb_populated_length)
    qed
    then have "\<not> ramb_incomplete st" by (simp add: ramb_incomplete_populated)
    with res [OF st] st show ?thesis by simp
  qed
  from a b c show ?thesis by blast
qed

lemma ramt_ingestion:
  assumes nf: "\<not> frozen d" and hdr: "length (header sec) = 2"
    and pw: "py_int (header sec ! 0) = Inr w" and ph: "py_int (header sec ! 1) = Inr h"
  shows "run_lines ramt_line ramt_slots_init (body sec)
       = overlay_lines ramt_overlay (ramt_line ramt_slots_init) ramt_slots_init (body sec)
     \<and> ((\<forall>l \<in> set (body sec). line_reads (ramt_line ramt_slots_init) l)
        \<and> (\<exists>i < 9. \<forall>l \<in> set (body sec).
              \<not> line_populates (ramt_line ramt_slots_init) ramt_populated l i)
       \<longrightarrow> process_ramt_tile_bit_config d sec = (Some IncompleteSchema, d))
     \<and> ((\<forall>l \<in> set (body sec). line_reads (ramt_line ramt_slots_init) l)
        \<and> (\<forall>i < 9. \<exists>l \<in> set (body sec).
              line_populates (ramt_line ramt_slots_init) ramt_populated l i)
       \<longrightarrow> (\<exists>st. overlay_lines ramt_overlay (ramt_line ramt_slots_init) ramt_slots_init (body sec)
               = Inr st
             \<and> process_ramt_tile_bit_config d sec
               = (None, d\<lparr>ramt_tile_bits_config := Some (ramt_config_of w h st)\<rparr>)))"
proof -
  let ?alone = "ramt_line ramt_slots_init"
  let ?run = "overlay_lines ramt_overlay ?alone ramt_slots_init (body sec)"
  have a: "run_lines ramt_line ramt_slots_init (body sec) = ?run"
    by (rule ramt_run_lines)
  have res: "process_ramt_tile_bit_config d sec =
      (if ramt_incomplete st then (Some IncompleteSchema, d)
       else (None, d\<lparr>ramt_tile_bits_config := Some (ramt_config_of w h st)\<rparr>))"
    if "?run = Inr st" for st
    using that nf hdr pw ph a
    by (simp add: process_ramt_tile_bit_config_def parse_ramt_tile_bit_config_def bindE_def)
  have b: "process_ramt_tile_bit_config d sec = (Some IncompleteSchema, d)"
    if r: "\<forall>l \<in> set (body sec). line_reads ?alone l"
      and u: "\<exists>i < 9. \<forall>l \<in> set (body sec). \<not> line_populates ?alone ramt_populated l i"
  proof -
    from r obtain st where st: "?run = Inr st"
      using overlay_lines_reads [of "body sec" ?alone ramt_overlay ramt_slots_init] by blast
    from u obtain i where i: "i < 9"
        "\<forall>l \<in> set (body sec). \<not> line_populates ?alone ramt_populated l i"
      by blast
    from ramt_lines_populated [OF st] i have w: "ramt_wf st" and "\<not> ramt_populated st ! i"
      by blast+
    moreover from w i(1) have "ramt_populated st ! i \<in> set (ramt_populated st)"
      by (intro nth_mem) (simp add: ramt_populated_length)
    ultimately have "False \<in> set (ramt_populated st)" by simp
    then have "ramt_incomplete st" by (simp add: ramt_incomplete_populated)
    with res [OF st] show ?thesis by simp
  qed
  have c: "\<exists>st. ?run = Inr st
      \<and> process_ramt_tile_bit_config d sec
        = (None, d\<lparr>ramt_tile_bits_config := Some (ramt_config_of w h st)\<rparr>)"
    if r: "\<forall>l \<in> set (body sec). line_reads ?alone l"
      and p: "\<forall>i < 9. \<exists>l \<in> set (body sec). line_populates ?alone ramt_populated l i"
  proof -
    from r obtain st where st: "?run = Inr st"
      using overlay_lines_reads [of "body sec" ?alone ramt_overlay ramt_slots_init] by blast
    from ramt_lines_populated [OF st] p have w: "ramt_wf st"
      and all: "\<forall>i < 9. ramt_populated st ! i"
      by blast+
    have "False \<notin> set (ramt_populated st)"
    proof
      assume "False \<in> set (ramt_populated st)"
      then obtain i where "i < length (ramt_populated st)" "\<not> ramt_populated st ! i"
        by (metis in_set_conv_nth)
      with all w show False by (simp add: ramt_populated_length)
    qed
    then have "\<not> ramt_incomplete st" by (simp add: ramt_incomplete_populated)
    with res [OF st] st show ?thesis by simp
  qed
  from a b c show ?thesis by blast
qed

text \<open>
  Claim C4, as amended. On a building device and a section whose header holds the two
  dimensions, for each of the four schema methods:

  \<^item> the loop over the body lines is the overlay of the lines, each read alone: a line
    that binds a slot an earlier line has bound, whichever slot of whichever schema and
    wherever in the body, raises nothing and its binding takes the place of the earlier one;

  \<^item> if every line can be read and some slot is bound by no line, the method raises
    "Incomplete ... tile config" and leaves the device as it was;

  \<^item> if every line can be read and every slot is bound by some line, be it by several,
    the method raises nothing and stores the schema of the overlay.

  The slots are numbered in the order of the final check: 18 for a logic tile, 36 for an IO
  tile, 10 for a RAM-bottom tile and 9 for a RAM-top tile.
\<close>

theorem schema_ingestion:
  assumes nf: "\<not> frozen d" and hdr: "length (header sec) = 2"
    and pw: "py_int (header sec ! 0) = Inr w" and ph: "py_int (header sec ! 1) = Inr h"
  shows "run_lines logic_line logic_slots_init (body sec)
       = overlay_lines logic_overlay (logic_line logic_slots_init) logic_slots_init (body sec)
     \<and> ((\<forall>l \<in> set (body sec). line_reads (logic_line logic_slots_init) l)
        \<and> (\<exists>i < 18. \<forall>l \<in> set (body sec).
              \<not> line_populates (logic_line logic_slots_init) logic_populated l i)
       \<longrightarrow> process_logic_tile_bit_config d sec = (Some IncompleteSchema, d))
     \<and> ((\<forall>l \<in> set (body sec). line_reads (logic_line logic_slots_init) l)
        \<and> (\<forall>i < 18. \<exists>l \<in> set (body sec).
              line_populates (logic_line logic_slots_init) logic_populated l i)
       \<longrightarrow> (\<exists>st. overlay_lines logic_overlay (logic_line logic_slots_init) logic_slots_init (body sec)
               = Inr st
             \<and> process_logic_tile_bit_config d sec
               = (None, d\<lparr>logic_tile_bit_config := Some (logic_config_of w h st)\<rparr>)))
   \<and> run_lines io_line io_slots_init (body sec)
       = overlay_lines io_overlay (io_line io_slots_init) io_slots_init (body sec)
     \<and> ((\<forall>l \<in> set (body sec). line_reads (io_line io_slots_init) l)
        \<and> (\<exists>i < 36. \<forall>l \<in> set (body sec).
              \<not> line_populates (io_line io_slots_init) io_populated l i)
       \<longrightarrow> process_io_tile_bit_config d sec = (Some IncompleteSchema, d))
     \<and> ((\<forall>l \<in> set (body sec). line_reads (io_line io_slots_init) l)
        \<and> (\<forall>i < 36. \<exists>l \<in> set (body sec).
              line_populates (io_line io_slots_init) io_populated l i)
       \<longrightarrow> (\<exists>st. overlay_lines io_overlay (io_line io_slots_init) io_slots_init (body sec)
               = Inr st
             \<and> process_io_tile_bit_config d sec
               = (None, d\<lparr>io_tile_bit_config := Some (io_config_of w h st)\<rparr>)))
   \<and> run_lines ramb_line ramb_slots_init (body sec)
       = overlay_lines ramb_overlay (ramb_line ramb_slots_init) ramb_slots_init (body sec)
     \<and> ((\<forall>l \<in> set (body sec). line_reads (ramb_line ramb_slots_init) l)
        \<and> (\<exists>i < 10. \<forall>l \<in> set (body sec).
              \<not> line_populates (ramb_line ramb_slots_init) ramb_populated l i)
       \<longrightarrow> process_ramb_tile_bit_config d sec = (Some IncompleteSchema, d))
     \<and> ((\<forall>l \<in> set (body sec). line_reads (ramb_line ramb_slots_init) l)
        \<and> (\<forall>i < 10. \<exists>l \<in> set (body sec).
              line_populates (ramb_line ramb_slots_init) ramb_populated l i)
       \<longrightarrow> (\<exists>st. overlay_lines ramb_overlay (ramb_line ramb_slots_init) ramb_slots_init (body sec)
               = Inr st
             \<and> process_ramb_tile_bit_config d sec
               = (None, d\<lparr>ramb_tile_bits_config := Some (ramb_config_of w h st)\<rparr>)))
   \<and> run_lines ramt_line ramt_slots_init (body sec)
       = overlay_lines ramt_overlay (ramt_line ramt_slots_init) ramt_slots_init (body sec)
     \<and> ((\<forall>l \<in> set (body sec). line_reads (ramt_line ramt_slots_init) l)
        \<and> (\<exists>i < 9. \<forall>l \<in> set (body sec).
              \<not> line_populates (ramt_line ramt_slots_init) ramt_populated l i)
       \<longrightarrow> process_ramt_tile_bit_config d sec = (Some IncompleteSchema, d))
     \<and> ((\<forall>l \<in> set (body sec). line_reads (ramt_line ramt_slots_init) l)
        \<and> (\<forall>i < 9. \<exists>l \<in> set (body sec).
              line_populates (ramt_line ramt_slots_init) ramt_populated l i)
       \<longrightarrow> (\<exists>st. overlay_lines ramt_overlay (ramt_line ramt_slots_init) ramt_slots_init (body sec)
               = Inr st
             \<and> process_ramt_tile_bit_config d sec
               = (None, d\<lparr>ramt_tile_bits_config := Some (ramt_config_of w h st)\<rparr>)))"
  using logic_ingestion [OF assms] io_ingestion [OF assms] ramb_ingestion [OF assms]
    ramt_ingestion [OF assms]
  by (intro conjI) blast+

theorem schema_ingestion_counterexample:
  "process_logic_tile_bit_config example_device example_duplicate_tile_bits =
     (None, example_device\<lparr>logic_tile_bit_config := Some
        \<lparr>width = 8, height = 10, carry_in_set_bit = (5, 0),
         col_buf_ctrl_set_bits = [(0, 1), (1, 1), (2, 1), (3, 1), (4, 1), (5, 1), (6, 1), (7, 1)],
         lc_set_bits = [[(0, 2), (1, 2)], [(0, 3), (1, 3)], [(0, 4), (1, 4)], [(0, 5), (1, 5)],
           [(0, 6), (1, 6)], [(0, 7), (1, 7)], [(0, 8), (1, 8)], [(0, 9), (1, 9)]],
         neg_clk_set_bit = (1, 0)\<rparr>\<rparr>)"
  by code_simp

theorem schema_ingestion_witness:
  "process_logic_tile_bit_config example_device example_incomplete_tile_bits
     = (Some IncompleteSchema, example_device)
   \<and> fst (process_logic_tile_bit_config example_device example_duplicate_tile_bits) = None"
proof -
  let ?alone = "logic_line logic_slots_init"
  have nf: "\<not> frozen example_device" by (simp add: example_device_def)
  have hdr: "length (header example_incomplete_tile_bits) = 2"
      "length (header example_duplicate_tile_bits) = 2"
    by (simp_all add: example_incomplete_tile_bits_def example_duplicate_tile_bits_def
        example_logic_tile_bits_def)
  have pw: "py_int (header example_incomplete_tile_bits ! 0) = Inr 8"
      "py_int (header example_duplicate_tile_bits ! 0) = Inr 8"
    by code_simp+
  have ph: "py_int (header example_incomplete_tile_bits ! 1) = Inr 10"
      "py_int (header example_duplicate_tile_bits ! 1) = Inr 10"
    by code_simp+
  have r1: "\<forall>l \<in> set (body example_incomplete_tile_bits). line_reads ?alone l"
    by code_simp
  have "\<forall>l \<in> set (body example_incomplete_tile_bits).
      \<not> line_populates ?alone logic_populated l 17"
    by code_simp
  then have u: "\<exists>i < 18. \<forall>l \<in> set (body example_incomplete_tile_bits).
      \<not> line_populates ?alone logic_populated l i"
    by (intro exI [of _ 17]) simp
  have "case overlay_lines logic_overlay ?alone logic_slots_init
          (body example_duplicate_tile_bits) of
        Inr st \<Rightarrow> list_all (\<lambda>b. b) (logic_populated st) | Inl e \<Rightarrow> False"
    by code_simp
  then obtain st where st: "overlay_lines logic_overlay ?alone logic_slots_init
          (body example_duplicate_tile_bits) = Inr st"
      and all: "list_all (\<lambda>b. b) (logic_populated st)"
    by (auto split: sum.splits)
  from st have r2: "\<forall>l \<in> set (body example_duplicate_tile_bits). line_reads ?alone l"
    using overlay_lines_reads
      [of "body example_duplicate_tile_bits" ?alone logic_overlay logic_slots_init]
    by blast
  from logic_lines_populated [OF st] have w: "logic_wf st"
    and iff: "\<forall>i < 18. logic_populated st ! i \<longleftrightarrow>
      (\<exists>l \<in> set (body example_duplicate_tile_bits). line_populates ?alone logic_populated l i)"
    by blast+
  from all w have "\<forall>i < 18. logic_populated st ! i"
    by (simp add: list_all_length logic_populated_length)
  with iff have p: "\<forall>i < 18. \<exists>l \<in> set (body example_duplicate_tile_bits).
      line_populates ?alone logic_populated l i"
    by blast
  note incomplete = schema_ingestion [OF nf hdr(1) pw(1) ph(1), THEN conjunct2, THEN conjunct1]
  note complete = schema_ingestion [OF nf hdr(2) pw(2) ph(2), THEN conjunct2, THEN conjunct2,
      THEN conjunct1]
  from incomplete r1 u
  have a: "process_logic_tile_bit_config example_device example_incomplete_tile_bits
     = (Some IncompleteSchema, example_device)"
    by (rule mp [OF _ conjI])
  from complete r2 p
  have "\<exists>st. overlay_lines logic_overlay ?alone logic_slots_init
         (body example_duplicate_tile_bits) = Inr st
       \<and> process_logic_tile_bit_config example_device example_duplicate_tile_bits
         = (None, example_device\<lparr>logic_tile_bit_config := Some (logic_config_of 8 10 st)\<rparr>)"
    by (rule mp [OF _ conjI])
  then obtain st' where
    "process_logic_tile_bit_config example_device example_duplicate_tile_bits
       = (None, example_device\<lparr>logic_tile_bit_config := Some (logic_config_of 8 10 st')\<rparr>)"
    by (elim exE conjE)
  then have b: "fst (process_logic_tile_bit_config example_device example_duplicate_tile_bits)
      = None"
    by (simp only: fst_conv)
  from a b show ?thesis by (rule conjI)
qed

section \<open>Round trip of an IO tile\<close>

text \<open>
  Claim C1, at the failing input. The example IO tile has \<^verbatim>\<open>col_buf_ctrl = 2\<close>, which
  fits the eight coordinates its schema binds. Encoding it and decoding the lines of the
  result into a fresh tile of the same schema raises nothing, and the decoded tile has
  \<^verbatim>\<open>col_buf_ctrl = 1\<close>: the encoder writes \<^verbatim>\<open>int(bool(col_buf_ctrl))\<close> at the first
  coordinate only, while the decoder reads all eight.
\<close>

theorem io_col_buf_ctrl_round_trip:
  "io_col_buf_ctrl example_io_tile = 2
   \<and> (case IoTile_generate_bitstream example_io_tile of
        Inl e \<Rightarrow> False
      | Inr s \<Rightarrow>
          IoTile_process_bitstream (IoTile_init 1 0 0 (Some example_io_config)) (section_lines s)
            = (None, (IoTile_init 1 0 0 (Some example_io_config))\<lparr>io_col_buf_ctrl := 1\<rparr>))"
  by code_simp

section \<open>The bit-order law\<close>

subsection \<open>Writing into the builder\<close>

lemma grid_init: "grid (nat w) (nat h) (BitstreamBuilder_init w h)"
  by (auto simp: grid_def BitstreamBuilder_init_def)

lemma set_bit_grid:
  assumes g: "grid w h b" and i: "inside w h c"
  shows "\<exists>b'. set_bit b c v = Inr b' \<and> grid w h b'
     \<and> cell b' c = (if v \<noteq> 0 then 1 else 0)
     \<and> (\<forall>c'. c' \<noteq> c \<longrightarrow> cell b' c' = cell b c')"
proof -
  let ?bit = "if v \<noteq> 0 then 1 else 0 :: int"
  let ?b' = "b[snd c := (b ! snd c)[fst c := ?bit]]"
  from g i have y: "snd c < length b" and x: "fst c < length (b ! snd c)"
    by (auto simp: grid_def inside_def)
  then have e: "set_bit b c v = Inr ?b'"
    by (simp add: set_bit_def py_getitem_def py_setitem_def py_index_def bindE_def)
  have "set ((b ! snd c)[fst c := ?bit]) \<subseteq> insert ?bit (set (b ! snd c))"
    by (rule set_update_subset_insert)
  moreover from g y have "set (b ! snd c) \<subseteq> {0, 1}" "length (b ! snd c) = w"
    by (auto simp: grid_def)
  ultimately have row: "length ((b ! snd c)[fst c := ?bit]) = w \<and> set ((b ! snd c)[fst c := ?bit]) \<subseteq> {0, 1}"
    by auto
  have "set ?b' \<subseteq> insert ((b ! snd c)[fst c := ?bit]) (set b)"
    by (rule set_update_subset_insert)
  with row g have "\<forall>r \<in> set ?b'. length r = w \<and> set r \<subseteq> {0, 1}"
    unfolding grid_def by blast
  with g have g': "grid w h ?b'"
    by (simp add: grid_def)
  from x y have c: "cell ?b' c = ?bit" by (simp add: cell_def)
  have o: "cell ?b' c' = cell b c'" if "c' \<noteq> c" for c'
  proof (cases "snd c' = snd c")
    case True
    with that have "fst c' \<noteq> fst c" by (simp add: prod_eq_iff)
    with True y show ?thesis by (simp add: cell_def)
  next
    case False
    then show ?thesis by (simp add: cell_def)
  qed
  from e g' c o show ?thesis by blast
qed

lemma set_bits_grid:
  assumes "grid w h b" and "\<forall>c \<in> set cs. inside w h c"
  shows "\<exists>b'. set_bits b cs v = Inr b' \<and> grid w h b'
     \<and> (\<forall>c. c \<notin> set cs \<longrightarrow> cell b' c = cell b c)
     \<and> (distinct cs \<longrightarrow> (\<forall>i < length cs. cell b' (cs ! i) = of_bool (bit v i)))"
  using assms
proof (induction cs arbitrary: b v)
  case Nil
  then show ?case by simp
next
  case (Cons c cs)
  from Cons.prems have i: "inside w h c" by simp
  from set_bit_grid [OF Cons.prems(1) i, of "v AND 1"]
  obtain b1 where b1: "set_bit b c (v AND 1) = Inr b1" "grid w h b1"
      "cell b1 c = (if v AND 1 \<noteq> 0 then 1 else 0)"
      "\<forall>c'. c' \<noteq> c \<longrightarrow> cell b1 c' = cell b c'"
    by blast
  from Cons.prems have "\<forall>c \<in> set cs. inside w h c" by simp
  from Cons.IH [OF b1(2) this, of "drop_bit 1 v"]
  obtain b2 where b2: "set_bits b1 cs (drop_bit 1 v) = Inr b2" "grid w h b2"
      "\<forall>c. c \<notin> set cs \<longrightarrow> cell b2 c = cell b1 c"
      "distinct cs \<longrightarrow> (\<forall>i < length cs. cell b2 (cs ! i) = of_bool (bit (drop_bit 1 v) i))"
    by blast
  have e: "set_bits b (c # cs) v = Inr b2"
    using b1(1) b2(1) by (simp add: bindE_def)
  have o: "\<forall>c'. c' \<notin> set (c # cs) \<longrightarrow> cell b2 c' = cell b c'"
    using b1(4) b2(3) by simp
  have d: "cell b2 ((c # cs) ! i) = of_bool (bit v i)"
    if dist: "distinct (c # cs)" and il: "i < length (c # cs)" for i
  proof (cases i)
    case 0
    from dist have "c \<notin> set cs" by simp
    with b2(3) have "cell b2 c = cell b1 c" by blast
    with b1(3) have "cell b2 c = (if v AND 1 \<noteq> 0 then 1 else 0)" by (simp only:)
    also have "\<dots> = of_bool (bit v 0)"
      by (simp add: and_one_eq bit_0 mod_2_eq_odd)
    finally show ?thesis using 0 by simp
  next
    case (Suc j)
    with il dist b2(4) have "cell b2 (cs ! j) = of_bool (bit (drop_bit 1 v) j)" by simp
    then show ?thesis using Suc by (simp add: bit_drop_bit_eq)
  qed
  from e b2(2) o d show ?case by blast
qed

lemma set_lc_bits_grid:
  assumes "grid w h b" and "\<forall>c \<in> set (concat (drop idx sets)). inside w h c"
    and "idx + length lcs \<le> length sets"
  shows "\<exists>b'. set_lc_bits b sets idx lcs = Inr b' \<and> grid w h b'
     \<and> (\<forall>c. c \<notin> set (concat (drop idx sets)) \<longrightarrow> cell b' c = cell b c)
     \<and> (distinct (concat (drop idx sets)) \<longrightarrow>
          (\<forall>k < length lcs. \<forall>i < length (sets ! (idx + k)).
             cell b' (sets ! (idx + k) ! i) = of_bool (bit (lcs ! k) i)))"
  using assms
proof (induction lcs arbitrary: b idx)
  case Nil
  then show ?case by simp
next
  case (Cons lc rest)
  from Cons.prems(3) have il: "idx < length sets" by simp
  then have dr: "drop idx sets = sets ! idx # drop (Suc idx) sets"
    by (simp add: Cons_nth_drop_Suc)
  have g: "py_getitem sets (int idx) = Inr (sets ! idx)"
    using il by (simp add: py_getitem_def py_index_def bindE_def)
  from Cons.prems(2) dr have in1: "\<forall>c \<in> set (sets ! idx). inside w h c"
    and in2: "\<forall>c \<in> set (concat (drop (Suc idx) sets)). inside w h c"
    by auto
  from set_bits_grid [OF Cons.prems(1) in1, of lc]
  obtain b1 where b1: "set_bits b (sets ! idx) lc = Inr b1" "grid w h b1"
      "\<forall>c. c \<notin> set (sets ! idx) \<longrightarrow> cell b1 c = cell b c"
      "distinct (sets ! idx) \<longrightarrow> (\<forall>i < length (sets ! idx). cell b1 (sets ! idx ! i) = of_bool (bit lc i))"
    by blast
  from Cons.prems(3) have "Suc idx + length rest \<le> length sets" by simp
  from Cons.IH [OF b1(2) in2 this]
  obtain b2 where b2: "set_lc_bits b1 sets (Suc idx) rest = Inr b2" "grid w h b2"
      "\<forall>c. c \<notin> set (concat (drop (Suc idx) sets)) \<longrightarrow> cell b2 c = cell b1 c"
      "distinct (concat (drop (Suc idx) sets)) \<longrightarrow>
          (\<forall>k < length rest. \<forall>i < length (sets ! (Suc idx + k)).
             cell b2 (sets ! (Suc idx + k) ! i) = of_bool (bit (rest ! k) i))"
    by blast
  have e: "set_lc_bits b sets idx (lc # rest) = Inr b2"
    using g b1(1) b2(1) by (simp add: bindE_def)
  have o: "\<forall>c. c \<notin> set (concat (drop idx sets)) \<longrightarrow> cell b2 c = cell b c"
    using b1(3) b2(3) dr by simp
  have v: "cell b2 (sets ! (idx + k) ! i) = of_bool (bit ((lc # rest) ! k) i)"
    if dist: "distinct (concat (drop idx sets))" and kl: "k < length (lc # rest)"
      and il: "i < length (sets ! (idx + k))" for k i
  proof (cases k)
    case 0
    from dist dr have d1: "distinct (sets ! idx)"
      and dj: "set (sets ! idx) \<inter> set (concat (drop (Suc idx) sets)) = {}"
      by auto
    from il 0 have "sets ! idx ! i \<in> set (sets ! idx)" by simp
    with dj have "sets ! idx ! i \<notin> set (concat (drop (Suc idx) sets))" by blast
    with b2(3) have "cell b2 (sets ! idx ! i) = cell b1 (sets ! idx ! i)" by blast
    with b1(4) d1 il 0 show ?thesis by simp
  next
    case (Suc j)
    from dist dr have "distinct (concat (drop (Suc idx) sets))" by simp
    with b2(4) kl il Suc show ?thesis by simp
  qed
  from e b2(2) o v show ?case by blast
qed

lemma config_routing_resources_grid:
  assumes "grid w h b" and "\<forall>c \<in> set (concat (map config_bit_coordinates rrs)). inside w h c"
    and "config_routing_resources b rrs = Inr b'"
  shows "grid w h b' \<and> (\<forall>c. c \<notin> set (concat (map config_bit_coordinates rrs)) \<longrightarrow> cell b' c = cell b c)"
  using assms
proof (induction rrs arbitrary: b)
  case Nil
  then show ?case by simp
next
  case (Cons rr rrs)
  from Cons.prems(3) obtain v where v: "get_config_bits rr = Inr v"
    by (cases "get_config_bits rr") (simp_all add: bindE_def)
  from Cons.prems(2) have in1: "\<forall>c \<in> set (config_bit_coordinates rr). inside w h c"
    and in2: "\<forall>c \<in> set (concat (map config_bit_coordinates rrs)). inside w h c"
    by auto
  from set_bits_grid [OF Cons.prems(1) in1, of v]
  obtain b1 where b1: "set_bits b (config_bit_coordinates rr) v = Inr b1" "grid w h b1"
      "\<forall>c. c \<notin> set (config_bit_coordinates rr) \<longrightarrow> cell b1 c = cell b c"
    by blast
  from Cons.prems(3) v b1(1) have "config_routing_resources b1 rrs = Inr b'"
    by (simp add: bindE_def)
  from Cons.IH [OF b1(2) in2 this] b1(3) show ?case by simp
qed

lemma config_bitstream_routing_resources_grid:
  assumes "grid w h b" and "\<forall>c \<in> set (routing_coordinates t). inside w h c"
    and "config_bitstream_routing_resources b t = Inr b'"
  shows "grid w h b' \<and> (\<forall>c. c \<notin> set (routing_coordinates t) \<longrightarrow> cell b' c = cell b c)"
proof -
  from assms(3) obtain b1 where b1: "config_routing_resources b (routing_switches t) = Inr b1"
      "config_routing_resources b1 (buffers t) = Inr b'"
    by (cases "config_routing_resources b (routing_switches t)")
      (simp_all add: config_bitstream_routing_resources_def bindE_def)
  from assms(2) have in1: "\<forall>c \<in> set (concat (map config_bit_coordinates (routing_switches t))). inside w h c"
    and in2: "\<forall>c \<in> set (concat (map config_bit_coordinates (buffers t))). inside w h c"
    by (auto simp: routing_coordinates_def)
  from config_routing_resources_grid [OF assms(1) in1 b1(1)]
  have 1: "grid w h b1" "\<forall>c. c \<notin> set (concat (map config_bit_coordinates (routing_switches t))) \<longrightarrow> cell b1 c = cell b c"
    by simp_all
  from config_routing_resources_grid [OF 1(1) in2 b1(2)] 1(2)
  show ?thesis by (simp add: routing_coordinates_def)
qed

lemma LogicTile_generate_cells:
  assumes cfg: "logic_bit_config t = Some cfg"
    and dist: "distinct (logic_coordinates cfg @ routing_coordinates t)"
    and range: "\<forall>c \<in> set (logic_coordinates cfg @ routing_coordinates t).
        inside (nat (width cfg)) (nat (height cfg)) c"
    and lens: "length (lc_bits t) = length (lc_set_bits cfg)"
    and gen: "LogicTile_generate_bitstream t = Inr s"
  shows "\<exists>b. s = get_config_string b \<and> grid (nat (width cfg)) (nat (height cfg)) b
     \<and> (\<forall>i < length (col_buf_ctrl_set_bits cfg).
          cell b (col_buf_ctrl_set_bits cfg ! i) = of_bool (bit (col_buf_ctrl t) i))
     \<and> (\<forall>k < length (lc_set_bits cfg). \<forall>i < length (lc_set_bits cfg ! k).
          cell b (lc_set_bits cfg ! k ! i) = of_bool (bit (lc_bits t ! k) i))"
proof -
  let ?w = "nat (width cfg)" and ?h = "nat (height cfg)"
  let ?cols = "col_buf_ctrl_set_bits cfg" and ?lcs = "lc_set_bits cfg"
  from range have r1: "inside ?w ?h (carry_in_set_bit cfg)"
    and r2: "\<forall>c \<in> set ?cols. inside ?w ?h c"
    and r3: "\<forall>c \<in> set (concat (drop 0 ?lcs)). inside ?w ?h c"
    and r4: "inside ?w ?h (neg_clk_set_bit cfg)"
    and r5: "\<forall>c \<in> set (routing_coordinates t). inside ?w ?h c"
    by (auto simp: logic_coordinates_def)
  from dist have d2: "distinct ?cols" and d3: "distinct (concat (drop 0 ?lcs))"
    and d23: "set ?cols \<inter> set (concat ?lcs) = {}"
    and d24: "neg_clk_set_bit cfg \<notin> set ?cols" "neg_clk_set_bit cfg \<notin> set (concat ?lcs)"
    and d25: "set ?cols \<inter> set (routing_coordinates t) = {}"
      "set (concat ?lcs) \<inter> set (routing_coordinates t) = {}"
    by (auto simp: logic_coordinates_def)
  from set_bit_grid [OF grid_init r1, of "carry_in_set t"]
  obtain b1 where b1: "set_bit (BitstreamBuilder_init (width cfg) (height cfg))
      (carry_in_set_bit cfg) (carry_in_set t) = Inr b1" "grid ?w ?h b1"
    by blast
  from set_bits_grid [OF b1(2) r2, of "col_buf_ctrl t"] d2
  obtain b2 where b2: "set_bits b1 ?cols (col_buf_ctrl t) = Inr b2" "grid ?w ?h b2"
      "\<forall>i < length ?cols. cell b2 (?cols ! i) = of_bool (bit (col_buf_ctrl t) i)"
    by blast
  from lens have "0 + length (lc_bits t) \<le> length ?lcs" by simp
  from set_lc_bits_grid [OF b2(2) r3 this] d3
  obtain b3 where b3: "set_lc_bits b2 ?lcs 0 (lc_bits t) = Inr b3" "grid ?w ?h b3"
      "\<forall>c. c \<notin> set (concat ?lcs) \<longrightarrow> cell b3 c = cell b2 c"
      "\<forall>k < length (lc_bits t). \<forall>i < length (?lcs ! k).
             cell b3 (?lcs ! k ! i) = of_bool (bit (lc_bits t ! k) i)"
    by auto
  from set_bit_grid [OF b3(2) r4, of "of_bool (neg_clk t)"]
  obtain b4 where b4: "set_bit b3 (neg_clk_set_bit cfg) (of_bool (neg_clk t)) = Inr b4"
      "grid ?w ?h b4" "\<forall>c'. c' \<noteq> neg_clk_set_bit cfg \<longrightarrow> cell b4 c' = cell b3 c'"
    by blast
  from gen cfg b1(1) b2(1) b3(1) b4(1)
  obtain b5 where b5: "config_bitstream_routing_resources b4 t = Inr b5" "s = get_config_string b5"
    by (cases "config_bitstream_routing_resources b4 t")
      (simp_all add: LogicTile_generate_bitstream_def bindE_def)
  from config_bitstream_routing_resources_grid [OF b4(2) r5 b5(1)]
  have g5: "grid ?w ?h b5" and o5: "\<forall>c. c \<notin> set (routing_coordinates t) \<longrightarrow> cell b5 c = cell b4 c"
    by simp_all
  have cols: "cell b5 (?cols ! i) = of_bool (bit (col_buf_ctrl t) i)" if "i < length ?cols" for i
  proof -
    from that have m: "?cols ! i \<in> set ?cols" by simp
    with d25(1) o5 have "cell b5 (?cols ! i) = cell b4 (?cols ! i)" by blast
    also from m d24(1) b4(3) have "\<dots> = cell b3 (?cols ! i)" by metis
    also from m d23 b3(3) have "\<dots> = cell b2 (?cols ! i)" by blast
    finally show ?thesis using b2(3) that by simp
  qed
  have lcs: "cell b5 (?lcs ! k ! i) = of_bool (bit (lc_bits t ! k) i)"
    if "k < length ?lcs" "i < length (?lcs ! k)" for k i
  proof -
    from that have m: "?lcs ! k ! i \<in> set (concat ?lcs)"
      by (metis concat_map_singleton in_set_conv_nth nth_mem set_concat UN_I)
    with d25(2) o5 have "cell b5 (?lcs ! k ! i) = cell b4 (?lcs ! k ! i)" by blast
    also from m d24(2) b4(3) have "\<dots> = cell b3 (?lcs ! k ! i)" by metis
    finally show ?thesis using b3(4) that lens by simp
  qed
  from b5(2) g5 cols lcs show ?thesis by blast
qed

subsection \<open>From the builder to the lines of the section\<close>

lemma isspace_newline: "py_isspace (CHR 0x0A)"
  by (simp add: py_isspace_def)

lemma clean_no_newline: "clean r \<Longrightarrow> CHR 0x0A \<notin> set r"
  using isspace_newline by (auto simp: clean_def)

lemma dropWhile_clean: "clean r \<Longrightarrow> dropWhile py_isspace (r @ s) = r @ s"
  by (cases r) (auto simp: clean_def)

lemma dropWhile_rev_clean: "clean r \<Longrightarrow> dropWhile py_isspace (rev r) = rev r"
proof -
  assume c: "clean r"
  then have "rev r \<noteq> []" and "\<not> py_isspace (hd (rev r))"
    by (auto simp: clean_def hd_rev)
  then show ?thesis by (cases "rev r") auto
qed

lemma strip_clean: "clean r \<Longrightarrow> strip r = r"
  using dropWhile_clean [of r "[]"] by (simp add: strip_def dropWhile_rev_clean)

lemma clean_join: "rs \<noteq> [] \<Longrightarrow> \<forall>r \<in> set rs. clean r
    \<Longrightarrow> join_lines rs \<noteq> [] \<and> \<not> py_isspace (hd (join_lines rs)) \<and> \<not> py_isspace (last (join_lines rs))"
proof (induction rs rule: join_lines.induct)
  case 1
  then show ?case by simp
next
  case (2 r)
  then show ?case by (auto simp: clean_def)
next
  case (3 r r' rs)
  then have "clean r" by simp
  then have "r \<noteq> []" "\<not> py_isspace (hd r)" by (auto simp: clean_def)
  with 3 show ?case by auto
qed

lemma strip_trailing_newline:
  assumes "s \<noteq> []" "\<not> py_isspace (hd s)" "\<not> py_isspace (last s)"
  shows "strip (s @ [CHR 0x0A]) = s"
proof -
  from assms(1,2) have "dropWhile py_isspace (s @ [CHR 0x0A]) = s @ [CHR 0x0A]"
    by (cases s) auto
  moreover from assms(1,3) have "dropWhile py_isspace (rev s) = rev s"
    by (cases "rev s") (auto simp: last_rev [symmetric] hd_rev)
  ultimately show ?thesis
    using isspace_newline by (simp add: strip_def)
qed

lemma concat_lines: "rs \<noteq> [] \<Longrightarrow>
    concat (map (\<lambda>r. r @ [CHR 0x0A]) rs) = join_lines rs @ [CHR 0x0A]"
  by (induction rs rule: join_lines.induct) auto

lemma split_newline_line:
  "CHR 0x0A \<notin> set r \<Longrightarrow> split_newline (r @ CHR 0x0A # s) = r # split_newline s"
  by (induction r) auto

lemma split_newline_last: "CHR 0x0A \<notin> set r \<Longrightarrow> split_newline r = [r]"
  by (induction r) auto

lemma split_join: "rs \<noteq> [] \<Longrightarrow> \<forall>r \<in> set rs. clean r \<Longrightarrow> split_newline (join_lines rs) = rs"
proof (induction rs rule: join_lines.induct)
  case 1
  then show ?case by simp
next
  case (2 r)
  then show ?case by (simp add: split_newline_last clean_no_newline)
next
  case (3 r r' rs)
  then show ?case by (simp add: split_newline_line clean_no_newline)
qed

lemma section_lines_rows:
  assumes "rs \<noteq> []" and "\<forall>r \<in> set rs. clean r"
  shows "section_lines (strip (concat (map (\<lambda>r. r @ [CHR 0x0A]) rs))) = rs"
proof -
  from clean_join [OF assms] have "strip (join_lines rs @ [CHR 0x0A]) = join_lines rs"
    by (simp add: strip_trailing_newline)
  then have "split_newline (strip (concat (map (\<lambda>r. r @ [CHR 0x0A]) rs))) = rs"
    using assms by (simp add: concat_lines split_join)
  moreover from assms(2) have "map strip rs = rs"
    by (simp add: strip_clean map_idI)
  moreover from assms(2) have "filter (\<lambda>l. l \<noteq> []) rs = rs"
    by (simp add: clean_def)
  ultimately show ?thesis by (simp add: section_lines_def)
qed

lemma row_string_concat: "concat (map str_bit row) = row_string row"
  by (induction row) (auto simp: str_bit_def row_string_def)

lemma clean_row_string: "row \<noteq> [] \<Longrightarrow> clean (row_string row)"
  by (auto simp: clean_def row_string_def py_isspace_def)

lemma section_lines_grid:
  assumes g: "grid w h b" and w: "0 < w" and h: "0 < h"
  shows "section_lines (get_config_string b) = map row_string b"
proof -
  have e: "get_config_string b = strip (concat (map (\<lambda>r. r @ [CHR 0x0A]) (map row_string b)))"
    by (simp add: get_config_string_def row_string_concat comp_def)
  from g h have ne: "map row_string b \<noteq> []" by (auto simp: grid_def)
  from g w have cl: "\<forall>r \<in> set (map row_string b). clean r"
    by (auto simp: grid_def intro!: clean_row_string)
  show ?thesis unfolding e by (rule section_lines_rows [OF ne cl])
qed

lemma py_int_bit_char:
  "py_int [CHR ''0''] = Inr 0" "py_int [CHR ''1''] = Inr 1"
  by (simp_all add: py_int_defs)

lemma read_bit_grid:
  assumes g: "grid w h b" and i: "inside w h c"
  shows "read_bit (section_lines (get_config_string b)) c = Inr (cell b c)"
proof -
  from i have w: "0 < w" and h: "0 < h" by (auto simp: inside_def)
  from g i have y: "snd c < length b" and x: "fst c < length (b ! snd c)"
    by (auto simp: grid_def inside_def)
  from g y have "set (b ! snd c) \<subseteq> {0, 1}" by (simp add: grid_def)
  with x have v: "b ! snd c ! fst c \<in> {0, 1}" using nth_mem by blast
  from v have "py_int [if b ! snd c ! fst c = 0 then CHR ''0'' else CHR ''1''] = Inr (b ! snd c ! fst c)"
    by (auto simp: py_int_bit_char)
  with x y show ?thesis
    by (simp add: read_bit_def section_lines_grid [OF g w h] py_getitem_def py_index_def
        bindE_def row_string_def cell_def)
qed

subsection \<open>Reading the attributes back\<close>

lemma or_next_bit:
  "(if bit v k then take_bit k v OR 2 ^ k else take_bit k v) = take_bit (Suc k) (v :: int)"
  by (rule bit_eqI) (auto simp: bit_simps less_Suc_eq)

lemma get_bits_take_bit:
  assumes "\<forall>i < length cs. read_bit bs (cs ! i) = Inr (of_bool (bit v (k + i)))"
  shows "get_bits bs cs (take_bit k v) (2 ^ k) = Inr (take_bit (k + length cs) v)"
  using assms
proof (induction cs arbitrary: k)
  case Nil
  then show ?case by simp
next
  case (Cons c cs)
  from Cons.prems have r: "read_bit bs c = Inr (of_bool (bit v k))" by fastforce
  from Cons.prems have "\<forall>i < length cs. read_bit bs (cs ! i) = Inr (of_bool (bit v (Suc k + i)))"
    by fastforce
  from Cons.IH [OF this]
  have ih: "get_bits bs cs (take_bit (Suc k) v) (2 ^ Suc k) = Inr (take_bit (k + length (c # cs)) v)"
    by simp
  have step: "(if of_bool (bit v k) = (1::int) then take_bit k v OR 2 ^ k else take_bit k v)
      = take_bit (Suc k) v"
    using or_next_bit [of v k] by simp
  have pb: "push_bit 1 (2 ^ k :: int) = 2 ^ Suc k"
    by (simp add: push_bit_eq_mult)
  show ?case
    by (subst get_bits.simps) (simp only: r bindE_def sum.case step pb ih)
qed

lemma get_bits_value:
  assumes "\<forall>i < length cs. read_bit bs (cs ! i) = Inr (of_bool (bit v i))"
    and "0 \<le> v" "v < 2 ^ length cs"
  shows "get_bits bs cs 0 1 = Inr v"
  using get_bits_take_bit [of cs bs v 0] assms by (simp add: take_bit_int_eq_self)

lemma get_lc_bits_values:
  assumes "\<forall>k < length sets. get_bits bs (sets ! k) 0 1 = Inr (vals ! (idx + k))"
    and "idx + length sets \<le> length lcs"
  shows "\<exists>lcs'. get_lc_bits bs sets idx lcs = (None, lcs') \<and> length lcs' = length lcs
     \<and> (\<forall>j < length lcs. lcs' ! j =
          (if idx \<le> j \<and> j < idx + length sets then vals ! j else lcs ! j))"
  using assms
proof (induction sets arbitrary: idx lcs)
  case Nil
  then show ?case by simp
next
  case (Cons cs rest)
  from Cons.prems(1) have g: "get_bits bs cs 0 1 = Inr (vals ! idx)" by fastforce
  from Cons.prems(2) have il: "idx < length lcs" by simp
  then have s: "py_setitem lcs (int idx) (vals ! idx) = Inr (lcs[idx := vals ! idx])"
    by (simp add: py_setitem_def py_index_def bindE_def)
  from Cons.prems(1)
  have 1: "\<forall>k < length rest. get_bits bs (rest ! k) 0 1 = Inr (vals ! (Suc idx + k))"
    by fastforce
  from Cons.prems(2) have 2: "Suc idx + length rest \<le> length (lcs[idx := vals ! idx])" by simp
  from Cons.IH [OF 1 2]
  obtain lcs' where l: "get_lc_bits bs rest (Suc idx) (lcs[idx := vals ! idx]) = (None, lcs')"
      "length lcs' = length lcs"
      "\<forall>j < length lcs. lcs' ! j =
          (if Suc idx \<le> j \<and> j < Suc idx + length rest then vals ! j
           else lcs[idx := vals ! idx] ! j)"
    by auto
  have e: "get_lc_bits bs (cs # rest) idx lcs = (None, lcs')"
    using g s l(1) by (simp add: bindE_def)
  have v: "lcs' ! j = (if idx \<le> j \<and> j < idx + length (cs # rest) then vals ! j else lcs ! j)"
    if "j < length lcs" for j
    using l(3) that il by (cases "j = idx") auto
  from e l(2) v show ?case by blast
qed

lemma process_bitstream_routing_resources_more:
  "logic_bit_config (snd (process_bitstream_routing_resources bs t)) = logic_bit_config t
   \<and> lc_bits (snd (process_bitstream_routing_resources bs t)) = lc_bits t"
  by (simp add: process_bitstream_routing_resources_def split: prod.splits option.splits)

lemma LogicTile_process_fields:
  assumes cfg: "logic_bit_config t' = Some cfg"
    and dec: "LogicTile_process_bitstream t' bs = (None, t'')"
    and cols: "get_bits bs (col_buf_ctrl_set_bits cfg) 0 1 = Inr v"
    and lcs: "\<forall>k < length (lc_set_bits cfg). get_bits bs (lc_set_bits cfg ! k) 0 1 = Inr (vals ! k)"
    and lens: "length (lc_bits t') = length (lc_set_bits cfg)" "length vals = length (lc_set_bits cfg)"
  shows "col_buf_ctrl t'' = v \<and> lc_bits t'' = vals"
proof -
  obtain e t1 where r: "process_bitstream_routing_resources bs t' = (e, t1)"
    by (cases "process_bitstream_routing_resources bs t'")
  with process_bitstream_routing_resources_more [of bs t'] cfg
  have c1: "logic_bit_config t1 = Some cfg" and l1: "lc_bits t1 = lc_bits t'" by simp_all
  from lcs have "\<forall>k < length (lc_set_bits cfg). get_bits bs (lc_set_bits cfg ! k) 0 1 = Inr (vals ! (0 + k))"
    by simp
  moreover from lens have "0 + length (lc_set_bits cfg) \<le> length (lc_bits t')" by simp
  ultimately obtain lcs' where g: "get_lc_bits bs (lc_set_bits cfg) 0 (lc_bits t') = (None, lcs')"
      "length lcs' = length (lc_bits t')"
      "\<forall>j < length (lc_bits t'). lcs' ! j =
          (if 0 \<le> j \<and> j < 0 + length (lc_set_bits cfg) then vals ! j else lc_bits t' ! j)"
    using get_lc_bits_values [of "lc_set_bits cfg" bs vals 0 "lc_bits t'"] by blast
  from g(2,3) lens have eq: "lcs' = vals"
    by (intro nth_equalityI) simp_all
  from dec r c1 l1 cols g(1) eq show ?thesis
    by (auto simp: LogicTile_process_bitstream_def split: option.splits sum.splits)
qed

text \<open>
  The law for the multi-bit attributes of a logic tile (\<^verbatim>\<open>col_buf_ctrl\<close> and each
  entry of \<^verbatim>\<open>lc_bits\<close>), whose encoder loops over the coordinates. The schema's
  coordinates and those of the tile's routing resources are pairwise distinct and lie
  inside the schema's rectangle, and each value fits the number of coordinates bound to
  it. Then in the encoded bitmap the character at coordinate \<open>c\<^sub>i\<close> of an attribute
  reads as bit \<open>i\<close> of its value, bit 0 being the least significant, and a decode of
  that bitmap that raises nothing (the routing resources are decoded first) recovers
  exactly the values.
\<close>

lemma LogicTile_bit_order:
  assumes cfg: "logic_bit_config t = Some cfg" and cfg': "logic_bit_config t' = Some cfg"
    and dist: "distinct (logic_coordinates cfg @ routing_coordinates t)"
    and range: "\<forall>c \<in> set (logic_coordinates cfg @ routing_coordinates t).
        inside (nat (width cfg)) (nat (height cfg)) c"
    and v: "0 \<le> col_buf_ctrl t" "col_buf_ctrl t < 2 ^ length (col_buf_ctrl_set_bits cfg)"
    and lv: "list_all2 (\<lambda>lc cs. 0 \<le> lc \<and> lc < 2 ^ length cs) (lc_bits t) (lc_set_bits cfg)"
    and len': "length (lc_bits t') = length (lc_set_bits cfg)"
    and gen: "LogicTile_generate_bitstream t = Inr s"
    and dec: "LogicTile_process_bitstream t' (section_lines s) = (None, t'')"
  shows "(\<forall>i < length (col_buf_ctrl_set_bits cfg).
          read_bit (section_lines s) (col_buf_ctrl_set_bits cfg ! i)
            = Inr (of_bool (bit (col_buf_ctrl t) i)))
     \<and> (\<forall>k < length (lc_set_bits cfg). \<forall>i < length (lc_set_bits cfg ! k).
          read_bit (section_lines s) (lc_set_bits cfg ! k ! i)
            = Inr (of_bool (bit (lc_bits t ! k) i)))
     \<and> col_buf_ctrl t'' = col_buf_ctrl t
     \<and> lc_bits t'' = lc_bits t"
proof -
  let ?w = "nat (width cfg)" and ?h = "nat (height cfg)"
  let ?cols = "col_buf_ctrl_set_bits cfg" and ?lcs = "lc_set_bits cfg"
  from lv have len: "length (lc_bits t) = length ?lcs"
    by (rule list_all2_lengthD)
  from LogicTile_generate_cells [OF cfg dist range len gen]
  obtain b where b: "s = get_config_string b" "grid ?w ?h b"
      "\<forall>i < length ?cols. cell b (?cols ! i) = of_bool (bit (col_buf_ctrl t) i)"
      "\<forall>k < length ?lcs. \<forall>i < length (?lcs ! k).
          cell b (?lcs ! k ! i) = of_bool (bit (lc_bits t ! k) i)"
    by blast
  have rc: "read_bit (section_lines s) (?cols ! i) = Inr (of_bool (bit (col_buf_ctrl t) i))"
    if "i < length ?cols" for i
  proof -
    from that range have "inside ?w ?h (?cols ! i)"
      by (simp add: logic_coordinates_def)
    from read_bit_grid [OF b(2) this] b(1,3) that show ?thesis by simp
  qed
  have rl: "read_bit (section_lines s) (?lcs ! k ! i) = Inr (of_bool (bit (lc_bits t ! k) i))"
    if "k < length ?lcs" "i < length (?lcs ! k)" for k i
  proof -
    from that have "?lcs ! k ! i \<in> set (concat ?lcs)"
      by (metis concat_map_singleton in_set_conv_nth nth_mem set_concat UN_I)
    with range have "inside ?w ?h (?lcs ! k ! i)"
      by (simp add: logic_coordinates_def)
    from read_bit_grid [OF b(2) this] b(1,4) that show ?thesis by simp
  qed
  from rc v have gc: "get_bits (section_lines s) ?cols 0 1 = Inr (col_buf_ctrl t)"
    by (intro get_bits_value) simp_all
  have gl: "get_bits (section_lines s) (?lcs ! k) 0 1 = Inr (lc_bits t ! k)"
    if "k < length ?lcs" for k
  proof -
    from lv that have "0 \<le> lc_bits t ! k \<and> lc_bits t ! k < 2 ^ length (?lcs ! k)"
      by (simp add: list_all2_conv_all_nth)
    with rl that show ?thesis by (intro get_bits_value) simp_all
  qed
  from LogicTile_process_fields [OF cfg' dec gc _ len' len] gl
  have "col_buf_ctrl t'' = col_buf_ctrl t \<and> lc_bits t'' = lc_bits t" by simp
  with rc rl show ?thesis by blast
qed

lemma LogicTile_bit_order_example:
  "case LogicTile_generate_bitstream example_logic_tile of
     Inl e \<Rightarrow> False
   | Inr s \<Rightarrow>
       read_bit (section_lines s) (2, 1) = Inr 1
       \<and> read_bit (section_lines s) (1, 1) = Inr 0
       \<and> col_buf_ctrl (snd (LogicTile_process_bitstream example_blank_logic_tile (section_lines s))) = 165
       \<and> lc_bits (snd (LogicTile_process_bitstream example_blank_logic_tile (section_lines s)))
           = [1, 2, 3, 0, 1, 2, 3, 0]"
proof -
  have "case LogicTile_generate_bitstream example_logic_tile of
          Inl e \<Rightarrow> False
        | Inr s \<Rightarrow> fst (LogicTile_process_bitstream example_blank_logic_tile (section_lines s)) = None"
    by code_simp
  then obtain s t'' where gen: "LogicTile_generate_bitstream example_logic_tile = Inr s"
      and dec: "LogicTile_process_bitstream example_blank_logic_tile (section_lines s) = (None, t'')"
    by (auto split: sum.splits simp: fst_def split: prod.splits)
  have cfg: "logic_bit_config example_logic_tile = Some example_logic_config"
      "logic_bit_config example_blank_logic_tile = Some example_logic_config"
    by (simp_all add: example_logic_tile_def example_blank_logic_tile_def LogicTile_init_def)
  have dist: "distinct (logic_coordinates example_logic_config @ routing_coordinates example_logic_tile)"
    by code_simp
  have range: "\<forall>c \<in> set (logic_coordinates example_logic_config @ routing_coordinates example_logic_tile).
      inside (nat (width example_logic_config)) (nat (height example_logic_config)) c"
    by code_simp
  have v: "0 \<le> col_buf_ctrl example_logic_tile"
      "col_buf_ctrl example_logic_tile < 2 ^ length (col_buf_ctrl_set_bits example_logic_config)"
    by (simp_all add: example_logic_tile_def example_logic_config_def)
  have lv: "list_all2 (\<lambda>lc cs. 0 \<le> lc \<and> lc < 2 ^ length cs) (lc_bits example_logic_tile)
      (lc_set_bits example_logic_config)"
    by (simp add: example_logic_tile_def example_logic_config_def)
  have len': "length (lc_bits example_blank_logic_tile) = length (lc_set_bits example_logic_config)"
    by (simp add: example_blank_logic_tile_def LogicTile_init_def example_logic_config_def)
  have b: "bit (165 :: int) 2" "\<not> bit (165 :: int) 1"
    by (simp_all add: bit_iff_odd)
  note law = LogicTile_bit_order [OF cfg dist range v lv len' gen dec]
  have i2: "2 < length (col_buf_ctrl_set_bits example_logic_config)"
    and i1: "1 < length (col_buf_ctrl_set_bits example_logic_config)"
    by (simp_all add: example_logic_config_def)
  have c2: "col_buf_ctrl_set_bits example_logic_config ! 2 = (2, 1)"
    and c1: "col_buf_ctrl_set_bits example_logic_config ! 1 = (1, 1)"
    by (simp_all add: example_logic_config_def)
  have cv: "col_buf_ctrl example_logic_tile = 165"
    and lcv: "lc_bits example_logic_tile = [1, 2, 3, 0, 1, 2, 3, 0]"
    by (simp_all add: example_logic_tile_def)
  from law i2 have "read_bit (section_lines s) (col_buf_ctrl_set_bits example_logic_config ! 2)
      = Inr (of_bool (bit (col_buf_ctrl example_logic_tile) 2))"
    by blast
  with c2 cv b(1) have r2: "read_bit (section_lines s) (2, 1) = Inr 1" by simp
  from law i1 have "read_bit (section_lines s) (col_buf_ctrl_set_bits example_logic_config ! 1)
      = Inr (of_bool (bit (col_buf_ctrl example_logic_tile) 1))"
    by blast
  with c1 cv b(2) have r1: "read_bit (section_lines s) (1, 1) = Inr 0" by simp
  from law cv lcv have f: "col_buf_ctrl t'' = 165" "lc_bits t'' = [1, 2, 3, 0, 1, 2, 3, 0]"
    by simp_all
  from gen dec r2 r1 f show ?thesis by simp
qed

subsection \<open>The column-buffer control of an IO tile\<close>

text \<open>
  Claim C8, at the failing input. The example IO tile has \<^verbatim>\<open>col_buf_ctrl = 2\<close>, bound
  by its schema to eight coordinates of which the first two are (0, 0) and (1, 0). Bit 0
  of 2 is clear and bit 1 is set, but in the encoded bitmap the first coordinate reads 1
  and the second reads 0, and reading the eight coordinates back gives 1: the encoder of
  an IO tile writes \<^verbatim>\<open>int(bool(col_buf_ctrl))\<close> at the first coordinate and nothing at
  the others.
\<close>

theorem io_col_buf_ctrl_bit_order:
  "io_bit_config example_io_tile = Some example_io_config
   \<and> take 2 (io_col_buf_ctrl_set_bits example_io_config) = [(0, 0), (1, 0)]
   \<and> io_col_buf_ctrl example_io_tile = 2
   \<and> \<not> bit (io_col_buf_ctrl example_io_tile) 0
   \<and> bit (io_col_buf_ctrl example_io_tile) 1
   \<and> (case IoTile_generate_bitstream example_io_tile of
        Inl e \<Rightarrow> False
      | Inr s \<Rightarrow>
          read_bit (section_lines s) (0, 0) = Inr 1
          \<and> read_bit (section_lines s) (1, 0) = Inr 0
          \<and> get_bits (section_lines s) (io_col_buf_ctrl_set_bits example_io_config) 0 1 = Inr 1)"
proof -
  have "io_col_buf_ctrl example_io_tile = 2"
    by (simp add: example_io_tile_def)
  moreover have "\<not> bit (2 :: int) 0" "bit (2 :: int) 1"
    by (simp_all add: bit_iff_odd)
  moreover have "io_bit_config example_io_tile = Some example_io_config"
    by (simp add: example_io_tile_def IoTile_init_def)
  moreover have "take 2 (io_col_buf_ctrl_set_bits example_io_config) = [(0, 0), (1, 0)]"
    by (simp add: example_io_config_def)
  moreover have "case IoTile_generate_bitstream example_io_tile of
        Inl e \<Rightarrow> False
      | Inr s \<Rightarrow>
          read_bit (section_lines s) (0, 0) = Inr 1
          \<and> read_bit (section_lines s) (1, 0) = Inr 0
          \<and> get_bits (section_lines s) (io_col_buf_ctrl_set_bits example_io_config) 0 1 = Inr 1"
    by code_simp
  ultimately show ?thesis by simp
qed

end
